(* ===== verification/Prelude.thy ===== *)
theory Prelude
  imports Main "HOL-Library.Word"
begin

text \<open>
  Shared vocabulary of the development: the machine types of the Rust sources, the
  \<open>Result\<close> combinators that the models of fallible code are written with, and the
  interface of a transition system whose invariants are lifted from single steps to runs.
\<close>

unbundle bit_operations_syntax

section \<open>Types\<close>

type_synonym u8 = "8 word"
type_synonym u32 = "32 word"
type_synonym u64 = "64 word"
type_synonym i64 = "64 word"
type_synonym u128 = "128 word"
type_synonym i128 = "128 word"
type_synonym bytes = "u8 list"
type_synonym pubkey = bytes
type_synonym 'a pair = "'a \<times> 'a"

named_theorems result_simps
named_theorems model_defs

section \<open>Results\<close>

text \<open>
  \<open>Result<T, E>\<close> is \<open>'e + 'a\<close> with the error on the left. \<open>bindE\<close> is the
  \<open>?\<close> operator, \<open>require\<close> is Anchor's \<open>require!\<close> (an early return of the error
  when the condition is false), \<open>ok_or\<close> is \<open>Option::ok_or\<close> and \<open>map_err\<close> is
  \<open>Result::map_err\<close>.
\<close>

definition bindE :: "'e + 'a \<Rightarrow> ('a \<Rightarrow> 'e + 'b) \<Rightarrow> 'e + 'b" where
  "bindE m f = (case m of Inl e \<Rightarrow> Inl e | Inr x \<Rightarrow> f x)"

definition require :: "bool \<Rightarrow> 'e \<Rightarrow> 'e + 'a \<Rightarrow> 'e + 'a" where
  "require c e k = (if c then k else Inl e)"

definition ok_or :: "'e \<Rightarrow> 'a option \<Rightarrow> 'e + 'a" where
  "ok_or e m = (case m of None \<Rightarrow> Inl e | Some x \<Rightarrow> Inr x)"

definition map_err :: "('e \<Rightarrow> 'f) \<Rightarrow> 'e + 'a \<Rightarrow> 'f + 'a" where
  "map_err g m = (case m of Inl e \<Rightarrow> Inl (g e) | Inr x \<Rightarrow> Inr x)"

lemma bindE_simps [simp, result_simps]:
  "bindE (Inl e) f = Inl e"
  "bindE (Inr x) f = f x"
  by (simp_all add: bindE_def)

lemma bindE_eq_Inr [simp, result_simps]:
  "bindE m f = Inr y \<longleftrightarrow> (\<exists>x. m = Inr x \<and> f x = Inr y)"
  by (cases m) (auto simp: bindE_def)

lemma bindE_eq_Inl [result_simps]:
  "bindE m f = Inl e \<longleftrightarrow> m = Inl e \<or> (\<exists>x. m = Inr x \<and> f x = Inl e)"
  by (cases m) (auto simp: bindE_def)

lemma bindE_cong [fundef_cong]:
  "m = m' \<Longrightarrow> (\<And>x. m' = Inr x \<Longrightarrow> f x = g x) \<Longrightarrow> bindE m f = bindE m' g"
  by (cases m') (auto simp: bindE_def)

lemma require_simps [simp, result_simps]:
  "require True e k = k"
  "require False e k = Inl e"
  by (simp_all add: require_def)

lemma require_eq_Inr [simp, result_simps]: "require c e k = Inr y \<longleftrightarrow> c \<and> k = Inr y"
  by (simp add: require_def)

lemma require_eq_Inl [result_simps]:
  "require c e k = Inl d \<longleftrightarrow> (\<not> c \<and> d = e) \<or> (c \<and> k = Inl d)"
  by (auto simp: require_def)

lemma ok_or_simps [simp, result_simps]:
  "ok_or e None = Inl e"
  "ok_or e (Some x) = Inr x"
  by (simp_all add: ok_or_def)

lemma ok_or_eq_Inr [simp, result_simps]: "ok_or e m = Inr x \<longleftrightarrow> m = Some x"
  by (cases m) (simp_all add: ok_or_def)

lemma ok_or_eq_Inl [result_simps]: "ok_or e m = Inl d \<longleftrightarrow> m = None \<and> d = e"
  by (cases m) (auto simp: ok_or_def)

lemma map_err_simps [simp, result_simps]:
  "map_err g (Inl e) = Inl (g e)"
  "map_err g (Inr x) = Inr x"
  by (simp_all add: map_err_def)

lemma map_err_eq_Inr [simp, result_simps]: "map_err g m = Inr x \<longleftrightarrow> m = Inr x"
  by (cases m) (simp_all add: map_err_def)

lemma map_err_eq_Inl [result_simps]: "map_err g m = Inl d \<longleftrightarrow> (\<exists>e. m = Inl e \<and> d = g e)"
  by (cases m) (auto simp: map_err_def)

section \<open>Transition systems\<close>

text \<open>
  The interface of a component that moves by labelled steps. A client that knows that one
  step keeps \<open>inv\<close> gets the same for every run; the runs are the sequences of steps the
  component really makes, so the induction is done once here.
\<close>

inductive run :: "('s \<Rightarrow> 'l \<Rightarrow> 's \<Rightarrow> bool) \<Rightarrow> 's \<Rightarrow> 'l list \<Rightarrow> 's \<Rightarrow> bool"
  for step :: "'s \<Rightarrow> 'l \<Rightarrow> 's \<Rightarrow> bool" where
  run_nil: "run step s [] s"
| run_cons: "step s l t \<Longrightarrow> run step t ls u \<Longrightarrow> run step s (l # ls) u"

inductive_cases run_nilE [elim!]: "run step s [] t"
inductive_cases run_consE [elim!]: "run step s (l # ls) t"

lemma run_single: "step s l t \<Longrightarrow> run step s [l] t"
  by (auto intro: run.intros)

lemma run_append: "run step s ls t \<Longrightarrow> run step t ms u \<Longrightarrow> run step s (ls @ ms) u"
  by (induction rule: run.induct) (auto intro: run.intros)

lemma run_appendE:
  assumes "run step s (ls @ ms) u"
  obtains t where "run step s ls t" and "run step t ms u"
proof -
  have "\<exists>t. run step s ls t \<and> run step t ms u"
    using assms
  proof (induction ls arbitrary: s)
    case Nil
    then show ?case by (auto intro: run.intros)
  next
    case (Cons l ls)
    then obtain s' where "step s l s'" and "run step s' (ls @ ms) u" by auto
    with Cons.IH [of s'] show ?case by (meson run_cons)
  qed
  with that show thesis by blast
qed

locale transition_invariant =
  fixes step :: "'s \<Rightarrow> 'l \<Rightarrow> 's \<Rightarrow> bool"
    and inv :: "'s \<Rightarrow> bool"
  assumes step_inv: "inv s \<Longrightarrow> step s l t \<Longrightarrow> inv t"
begin

lemma run_inv: "run step s ls t \<Longrightarrow> inv s \<Longrightarrow> inv t"
  by (induction rule: run.induct) (auto intro: step_inv)

end

text \<open>
  A measured transition system accumulates something along its labels: every step adds
  \<open>delta l\<close> to \<open>measure s\<close>, so a run adds the sum. \<open>delta\<close> is integer valued, since
  a withdrawal takes away.
\<close>

locale measured_transition = transition_invariant +
  fixes amount :: "'a \<Rightarrow> int" and delta :: "'b \<Rightarrow> int"
  assumes step_amount: "inv s \<Longrightarrow> step s l t \<Longrightarrow> amount t = amount s + delta l"
begin

lemma run_amount: "run step s ls t \<Longrightarrow> inv s \<Longrightarrow> amount t = amount s + sum_list (map delta ls)"
proof (induction rule: run.induct)
  case (run_cons s l t ls u)
  then show ?case using step_amount [of s l t] step_inv [of s l t] by simp
qed simp

end

text \<open>
  A simulation: the detailed system's steps, read through the abstraction functions for states
  and labels, are steps of the abstract system. Its runs then are runs of the abstract system.
\<close>

locale simulation = transition_invariant +
  fixes astep :: "'c \<Rightarrow> 'd \<Rightarrow> 'c \<Rightarrow> bool" and abs_state :: "'a \<Rightarrow> 'c" and abs_label :: "'b \<Rightarrow> 'd"
  assumes simulates: "inv s \<Longrightarrow> step s l t \<Longrightarrow> astep (abs_state s) (abs_label l) (abs_state t)"
begin

lemma run_simulates:
  "run step s ls t \<Longrightarrow> inv s \<Longrightarrow> run astep (abs_state s) (map abs_label ls) (abs_state t)"
  by (induction rule: run.induct) (auto intro: run.intros simulates step_inv)

end

end
