(* ===== verification/Bytes.thy ===== *)
theory Bytes
  imports Prelude
begin

text \<open>
  Big-endian byte strings, as \<open>to_be_bytes\<close> and \<open>from_be_bytes\<close> of the Rust standard
  library read and write them. \<open>be_val\<close> is the number a byte string denotes, \<open>be_bytes n v\<close>
  the \<open>n\<close> low-order bytes of \<open>v\<close>, most significant first.
\<close>

fun be_val :: "bytes \<Rightarrow> nat" where
  "be_val [] = 0"
| "be_val (b # bs) = unat b * 256 ^ length bs + be_val bs"

fun be_bytes :: "nat \<Rightarrow> nat \<Rightarrow> bytes" where
  "be_bytes 0 v = []"
| "be_bytes (Suc n) v = word_of_nat (v div 256 ^ n) # be_bytes n v"

lemma length_be_bytes [simp]: "length (be_bytes n v) = n"
  by (induction n) auto

lemma unat_byte_less: "unat (b :: u8) < 256"
  using unsigned_less [of b, where ?'a = nat] by simp

lemma unat_word_of_nat_byte [simp]: "unat (word_of_nat v :: u8) = v mod 256"
  by (simp add: unat_of_nat)

lemma be_val_less: "be_val bs < 256 ^ length bs"
proof (induction bs)
  case (Cons b bs)
  have "unat b * 256 ^ length bs + be_val bs < (unat b + 1) * 256 ^ length bs"
    using Cons by simp
  also have "\<dots> \<le> 256 * 256 ^ length bs"
    using unat_byte_less [of b] by (intro mult_right_mono) auto
  finally show ?case by simp
qed simp

lemma be_val_append: "be_val (xs @ ys) = be_val xs * 256 ^ length ys + be_val ys"
  by (induction xs) (auto simp: power_add algebra_simps)

lemma be_val_be_bytes [simp]: "be_val (be_bytes n v) = v mod 256 ^ n"
proof (induction n)
  case (Suc n)
  have "v mod 256 ^ Suc n = 256 ^ n * (v div 256 ^ n mod 256) + v mod 256 ^ n"
    by (metis mod_mult2_eq mult.commute power_Suc)
  with Suc show ?case by (simp add: mult.commute)
qed simp

lemma be_val_inj: "length xs = length ys \<Longrightarrow> be_val xs = be_val ys \<longleftrightarrow> xs = ys"
proof (induction xs ys rule: list_induct2)
  case (Cons x xs y ys)
  have "unat x = unat y \<and> be_val xs = be_val ys"
    if "unat x * 256 ^ length xs + be_val xs = unat y * 256 ^ length xs + be_val ys"
  proof -
    have lt: "be_val xs < 256 ^ length xs" "be_val ys < 256 ^ length xs"
      using be_val_less [of xs] be_val_less [of ys] Cons.hyps by auto
    have "(unat x * 256 ^ length xs + be_val xs) div 256 ^ length xs = unat x"
      and "(unat y * 256 ^ length xs + be_val ys) div 256 ^ length xs = unat y"
      using lt by simp_all
    with that have "unat x = unat y" by metis
    with that show ?thesis by simp
  qed
  with Cons show ?case by (auto simp: word_unat_eq_iff)
qed simp

lemma be_bytes_be_val [simp]: "length bs = n \<Longrightarrow> be_bytes n (be_val bs) = bs"
  using be_val_less [of bs] by (intro iffD1 [OF be_val_inj]) auto

lemma be_bytes_mod: "be_bytes n (v mod 256 ^ n) = be_bytes n v"
  using be_bytes_be_val [of "be_bytes n v" n] by simp

lemma be_bytes_inj:
  "v < 256 ^ n \<Longrightarrow> w < 256 ^ n \<Longrightarrow> be_bytes n v = be_bytes n w \<longleftrightarrow> v = w"
  by (metis be_val_be_bytes mod_less)

lemma be_val_replicate_0 [simp]: "be_val (replicate n 0) = 0"
  by (induction n) auto

lemma be_bytes_0 [simp]: "be_bytes n 0 = replicate n 0"
  by (induction n) auto

text \<open>Evaluation of \<open>be_bytes\<close> at a numeral width.\<close>

lemma be_bytes_eval:
  "be_bytes (numeral k) v = word_of_nat (v div 256 ^ pred_numeral k) # be_bytes (pred_numeral k) v"
  by (simp add: numeral_eq_Suc)

lemma be_bytes_append: "be_bytes (m + n) v = be_bytes m (v div 256 ^ n) @ be_bytes n v"
  by (induction m) (simp_all add: div_mult2_eq [symmetric] power_add mult.commute)

lemma be_bytes_pad: "v < 256 ^ n \<Longrightarrow> be_bytes (m + n) v = replicate m 0 @ be_bytes n v"
  by (simp add: be_bytes_append)

lemma be_val_zero_iff: "be_val bs = 0 \<longleftrightarrow> bs = replicate (length bs) 0"
  using be_val_inj [of bs "replicate (length bs) 0"] by simp

section \<open>Fixed-width integers\<close>

definition u32_be :: "u32 \<Rightarrow> bytes" where
  "u32_be x = be_bytes 4 (unat x)"

definition u64_be :: "u64 \<Rightarrow> bytes" where
  "u64_be x = be_bytes 8 (unat x)"

lemma length_u32_be [simp]: "length (u32_be x) = 4"
  by (simp add: u32_be_def)

lemma length_u64_be [simp]: "length (u64_be x) = 8"
  by (simp add: u64_be_def)

lemma be_val_u64_be [simp]: "be_val (u64_be x) = unat x"
  using unsigned_less [of x, where ?'a = nat] by (simp add: u64_be_def)

lemma be_val_u32_be [simp]: "be_val (u32_be x) = unat x"
  using unsigned_less [of x, where ?'a = nat] by (simp add: u32_be_def)

lemma u64_be_inj [simp]: "u64_be x = u64_be y \<longleftrightarrow> x = y"
  by (metis be_val_u64_be word_unat_eq_iff)

lemma u32_be_inj [simp]: "u32_be x = u32_be y \<longleftrightarrow> x = y"
  by (metis be_val_u32_be word_unat_eq_iff)

text \<open>\<open>u32::try_from(len)\<close> of a length.\<close>

definition u32_try_from :: "nat \<Rightarrow> u32 option" where
  "u32_try_from n = (if n < 2 ^ 32 then Some (word_of_nat n) else None)"

lemma u32_try_from_eq_Some:
  "u32_try_from n = Some x \<longleftrightarrow> n < 2 ^ 32 \<and> unat x = n"
  by (auto simp: u32_try_from_def unat_of_nat word_unat_eq_iff)

definition u64_try_from :: "nat \<Rightarrow> u64 option" where
  "u64_try_from n = (if n < 2 ^ 64 then Some (word_of_nat n) else None)"

lemma u64_try_from_eq_Some:
  "u64_try_from n = Some x \<longleftrightarrow> n < 2 ^ 64 \<and> unat x = n"
  by (auto simp: u64_try_from_def unat_of_nat word_unat_eq_iff)

text \<open>\<open>i64::unsigned_abs\<close>: the magnitude as a \<open>u64\<close>, also at \<open>i64::MIN\<close>.\<close>

definition unsigned_abs :: "'a::len word \<Rightarrow> 'a word" where
  "unsigned_abs x = (if sint x < 0 then - x else x)"

lemma sint_range: "- (2 ^ (LENGTH('a) - 1)) \<le> sint (x :: 'a::len word)" "sint x < 2 ^ (LENGTH('a) - 1)"
  using sint_range_size [of x] by (simp_all add: word_size)

lemma unat_unsigned_abs: "unat (unsigned_abs (x :: 'a::len word)) = nat \<bar>sint x\<bar>"
proof (cases "sint x < 0")
  case True
  have "uint (- x) = - uint x mod 2 ^ LENGTH('a)"
    by (rule uint_word_ariths)
  also have "uint x = sint x mod 2 ^ LENGTH('a)"
    by (simp add: uint_sint take_bit_eq_mod)
  also have "- (sint x mod 2 ^ LENGTH('a)) mod 2 ^ LENGTH('a) = - sint x mod 2 ^ LENGTH('a)"
    by (simp add: mod_minus_eq)
  also have "\<dots> = - sint x"
  proof (rule mod_pos_pos_trivial)
    have "(2::int) ^ (LENGTH('a) - 1) < 2 ^ LENGTH('a)" by (rule power_strict_increasing) auto
    then show "- sint x < 2 ^ LENGTH('a)" using sint_range(1) [of x] by linarith
  qed (use True in simp)
  finally show ?thesis using True by (simp add: unsigned_abs_def unat_eq_nat_uint)
next
  case False
  then have "uint x = sint x"
    using sint_range(2) [of x] by (simp add: uint_sint take_bit_int_eq_self_iff power_strict_increasing
        less_le_trans [OF _ power_increasing])
  with False show ?thesis by (simp add: unsigned_abs_def unat_eq_nat_uint)
qed

lemma sint_scast_i128 [simp]: "sint (scast (x :: i64) :: i128) = sint x"
  by (rule sint_up_scast) (simp add: is_up)

text \<open>A \<open>b"..."\<close> literal.\<close>

definition ascii :: "string \<Rightarrow> bytes" where
  "ascii s = map of_char s"

lemma length_ascii [simp]: "length (ascii s) = length s"
  by (simp add: ascii_def)

section \<open>Writing into a buffer\<close>

text \<open>
  \<open>buf[i..i + src.len()].copy_from_slice(src)\<close>. The slice panics when it runs past the
  buffer; every use in the sources is inside a constant-size array, where \<open>length_copy_at\<close>
  applies.
\<close>

definition copy_at :: "nat \<Rightarrow> bytes \<Rightarrow> bytes \<Rightarrow> bytes" where
  "copy_at i src buf = take i buf @ src @ drop (i + length src) buf"

lemma length_copy_at [simp]:
  "i + length src \<le> length buf \<Longrightarrow> length (copy_at i src buf) = length buf"
  by (simp add: copy_at_def)

text \<open>Writing fields of width \<open>w\<close> one after the other from offset \<open>i\<close> on.\<close>

fun copy_fields :: "nat \<Rightarrow> nat \<Rightarrow> bytes list \<Rightarrow> bytes \<Rightarrow> bytes" where
  "copy_fields w i [] buf = buf"
| "copy_fields w i (f # fs) buf = copy_fields w (i + w) fs (copy_at i f buf)"

lemma copy_fields_eq:
  assumes "\<forall>f \<in> set fs. length f = w" and "i + w * length fs \<le> length buf"
  shows "copy_fields w i fs buf = take i buf @ concat fs @ drop (i + w * length fs) buf"
  using assms
proof (induction fs arbitrary: i buf)
  case (Cons f fs)
  have len: "length (copy_at i f buf) = length buf"
    using Cons.prems by simp
  have "copy_fields w (i + w) fs (copy_at i f buf) =
      take (i + w) (copy_at i f buf) @ concat fs @ drop (i + w + w * length fs) (copy_at i f buf)"
    using Cons.prems len by (intro Cons.IH) auto
  moreover have "take (i + w) (copy_at i f buf) = take i buf @ f"
    using Cons.prems by (simp add: copy_at_def)
  moreover have "drop (i + w + w * length fs) (copy_at i f buf) = drop (i + w * length (f # fs)) buf"
    using Cons.prems by (auto simp: copy_at_def ac_simps)
  ultimately show ?case by simp
qed simp

text \<open>Concatenations of fields of equal widths are equal only if the fields are.\<close>

lemma concat_fixed_inj:
  "list_all2 (\<lambda>x y. length x = length y) xs ys \<Longrightarrow> concat xs = concat ys \<longleftrightarrow> xs = ys"
  by (induction rule: list_all2_induct) auto

end
