(* ===== verification/Crates.thy ===== *)
theory Crates
  imports Bytes
begin

text \<open>
  The cryptographic crates both sides of the repository call and that are not part of it:
  \<^verbatim>\<open>ark-bn254\<close>/\<^verbatim>\<open>ark-ff\<close> (scalar field arithmetic),
  \<^verbatim>\<open>solana-poseidon\<close>, \<^verbatim>\<open>solana-keccak-hasher\<close> and
  \<^verbatim>\<open>sha2\<close>. They are parameters of the model, the fields of the record
  \<open>crypto\<close>; what the code relies on of them is stated by the predicates
  \<open>fr_spec\<close>, \<open>poseidon_spec\<close> and \<open>keccak_spec\<close>, which theorems name as
  hypotheses. \<open>ref_crypto\<close> is a computable instance on which the witnesses run.
\<close>

section \<open>The scalar field\<close>

definition bn254_r :: nat where
  "bn254_r = 21888242871839275222246405745257275088548364400416034343698204186575808495617"

text \<open>Thirty-two bytes that are the big-endian encoding of a number below the modulus.\<close>

definition is_scalar :: "bytes \<Rightarrow> bool" where
  "is_scalar bs \<longleftrightarrow> length bs = 32 \<and> be_val bs < bn254_r"

lemma bn254_r_bounds: "2 ^ 253 < bn254_r" "bn254_r < 2 ^ 254" "0 < bn254_r"
  by (simp_all add: bn254_r_def)

lemma two_254_le: "(2::nat) ^ 254 \<le> 256 ^ 32"
  by simp

lemma is_scalar_length: "is_scalar bs \<Longrightarrow> length bs = 32"
  by (simp add: is_scalar_def)

lemma is_scalar_be_bytes: "v < bn254_r \<Longrightarrow> is_scalar (be_bytes 32 v)"
  using bn254_r_bounds two_254_le by (simp add: is_scalar_def)

lemma be_val_scalar: "v < bn254_r \<Longrightarrow> be_val (be_bytes 32 v) = v"
  using bn254_r_bounds two_254_le by simp

lemma residue_fits [simp]:
  "v mod bn254_r mod 115792089237316195423570985008687907853269984665640564039457584007913129639936 =
   v mod bn254_r"
proof -
  have "v mod bn254_r < bn254_r" by (simp add: bn254_r_def)
  then show ?thesis by (simp add: bn254_r_def)
qed

lemma is_scalar_small: "length bs = 32 \<Longrightarrow> be_val bs < 2 ^ 253 \<Longrightarrow> is_scalar bs"
  using bn254_r_bounds by (simp add: is_scalar_def)

lemma be_bytes_scalar_inj:
  "v < bn254_r \<Longrightarrow> w < bn254_r \<Longrightarrow> be_bytes 32 v = be_bytes 32 w \<longleftrightarrow> v = w"
  by (metis be_val_scalar)

lemma is_scalar_zero [simp]: "is_scalar (replicate 32 0)"
  by (simp add: is_scalar_def bn254_r_def)

section \<open>The crates as parameters\<close>

text \<open>
  \<open>fr_from_be_mod\<close> is \<open>Fr::from_be_bytes_mod_order\<close>, \<open>fr_to_be\<close> is
  \<open>into_bigint().to_bytes_be()\<close>, \<open>fr_from_u64\<close> and \<open>fr_from_u128\<close> are the
  \<open>From\<close> conversions, \<open>fr_neg\<close> is the unary minus. \<open>poseidon_hashv\<close> and
  \<open>keccak_hashv\<close> are the \<open>hashv\<close> of their crates (over \<open>Bn254X5\<close>, big-endian),
  \<open>sha256_digest\<close> is \<open>Sha256::digest\<close>.
\<close>

record 'fr crypto =
  fr_from_be_mod :: "bytes \<Rightarrow> 'fr"
  fr_to_be :: "'fr \<Rightarrow> bytes"
  fr_from_u64 :: "u64 \<Rightarrow> 'fr"
  fr_from_u128 :: "u128 \<Rightarrow> 'fr"
  fr_neg :: "'fr \<Rightarrow> 'fr"
  poseidon_hashv :: "bytes list \<Rightarrow> bytes option"
  keccak_hashv :: "bytes list \<Rightarrow> bytes"
  sha256_digest :: "bytes \<Rightarrow> bytes"

text \<open>
  The documented behaviour of \<open>Fr\<close>: encodings are 32 bytes of the reduced residue, and
  reduction, conversion and negation are the arithmetic modulo \<open>bn254_r\<close>.
\<close>

definition fr_spec :: "'fr crypto \<Rightarrow> bool" where
  "fr_spec L \<longleftrightarrow>
     (\<forall>x. is_scalar (fr_to_be L x)) \<and>
     (\<forall>bs. fr_to_be L (fr_from_be_mod L bs) = be_bytes 32 (be_val bs mod bn254_r)) \<and>
     (\<forall>n. fr_to_be L (fr_from_u64 L n) = be_bytes 32 (unat n mod bn254_r)) \<and>
     (\<forall>n. fr_to_be L (fr_from_u128 L n) = be_bytes 32 (unat n mod bn254_r)) \<and>
     (\<forall>x. fr_to_be L (fr_neg L x) =
        be_bytes 32 ((bn254_r - be_val (fr_to_be L x)) mod bn254_r))"

text \<open>
  Poseidon accepts one to twelve canonical field elements and answers with a canonical one.
\<close>

definition poseidon_spec :: "'fr crypto \<Rightarrow> bool" where
  "poseidon_spec L \<longleftrightarrow>
     (\<forall>vs h. poseidon_hashv L vs = Some h \<longrightarrow> is_scalar h) \<and>
     (\<forall>vs. vs \<noteq> [] \<longrightarrow> length vs \<le> 12 \<longrightarrow> list_all is_scalar vs \<longrightarrow>
        poseidon_hashv L vs \<noteq> None)"

text \<open>The hash of two children in a Poseidon Merkle tree.\<close>

definition poseidon_node :: "'fr crypto \<Rightarrow> bytes \<Rightarrow> bytes \<Rightarrow> bytes" where
  "poseidon_node L left right =
     (case poseidon_hashv L [left, right] of Some h \<Rightarrow> h | None \<Rightarrow> replicate 32 0)"

lemma poseidon_node_Some: "poseidon_hashv L [x, y] = Some h \<Longrightarrow> poseidon_node L x y = h"
  by (simp add: poseidon_node_def)

text \<open>Keccak-256 hashes the concatenation of its slices to 32 bytes.\<close>

definition keccak_spec :: "'fr crypto \<Rightarrow> bool" where
  "keccak_spec L \<longleftrightarrow>
     (\<forall>vs. keccak_hashv L vs = keccak_hashv L [concat vs]) \<and>
     (\<forall>vs. length (keccak_hashv L vs) = 32)"

lemma fr_spec_simps:
  assumes "fr_spec L"
  shows fr_to_be_scalar: "is_scalar (fr_to_be L x)"
    and fr_to_be_from_be_mod: "fr_to_be L (fr_from_be_mod L bs) = be_bytes 32 (be_val bs mod bn254_r)"
    and fr_to_be_from_u64: "fr_to_be L (fr_from_u64 L n) = be_bytes 32 (unat n mod bn254_r)"
    and fr_to_be_from_u128: "fr_to_be L (fr_from_u128 L m) = be_bytes 32 (unat m mod bn254_r)"
    and fr_to_be_neg: "fr_to_be L (fr_neg L x) =
          be_bytes 32 ((bn254_r - be_val (fr_to_be L x)) mod bn254_r)"
  using assms by (simp_all add: fr_spec_def)

lemma unat_u64_lt_r: "unat (n :: u64) < bn254_r"
  using unsigned_less [of n, where ?'a = nat] by (simp add: bn254_r_def)

lemma unat_u128_lt_r: "unat (n :: u128) < bn254_r"
  using unsigned_less [of n, where ?'a = nat] by (simp add: bn254_r_def)

lemma fr_from_u64_bytes:
  "fr_spec L \<Longrightarrow> fr_to_be L (fr_from_u64 L n) = be_bytes 32 (unat n)"
  by (simp add: fr_to_be_from_u64 unat_u64_lt_r)

lemma fr_from_u128_bytes:
  "fr_spec L \<Longrightarrow> fr_to_be L (fr_from_u128 L n) = be_bytes 32 (unat n)"
  by (simp add: fr_to_be_from_u128 unat_u128_lt_r)

lemma poseidon_specD:
  assumes "poseidon_spec L"
  shows poseidon_scalar: "poseidon_hashv L vs = Some h \<Longrightarrow> is_scalar h"
    and poseidon_total: "vs \<noteq> [] \<Longrightarrow> length vs \<le> 12 \<Longrightarrow> list_all is_scalar vs \<Longrightarrow>
          \<exists>h. poseidon_hashv L vs = Some h"
  using assms by (auto simp: poseidon_spec_def list_all_iff)

lemma keccak_specD:
  assumes "keccak_spec L"
  shows keccak_concat: "keccak_hashv L vs = keccak_hashv L [concat vs]"
    and keccak_length: "length (keccak_hashv L vs) = 32"
  using assms by (auto simp: keccak_spec_def)

section \<open>A computable instance\<close>

definition ref_poseidon :: "bytes list \<Rightarrow> bytes option" where
  "ref_poseidon vs =
     (if vs \<noteq> [] \<and> length vs \<le> 12 \<and> list_all is_scalar vs
      then Some (be_bytes 32 (1 + foldl (\<lambda>a v. (a * 31 + be_val v) mod (bn254_r - 1)) 7 vs))
      else None)"

definition ref_crypto :: "nat crypto" where
  "ref_crypto =
     \<lparr>fr_from_be_mod = (\<lambda>bs. be_val bs mod bn254_r),
      fr_to_be = (\<lambda>v. be_bytes 32 (v mod bn254_r)),
      fr_from_u64 = unat,
      fr_from_u128 = unat,
      fr_neg = (\<lambda>v. bn254_r - v mod bn254_r),
      poseidon_hashv = ref_poseidon,
      keccak_hashv = (\<lambda>vs. be_bytes 32 (be_val (concat vs) + length (concat vs))),
      sha256_digest = (\<lambda>bs. be_bytes 32 (be_val bs + 1))\<rparr>"

lemma ref_crypto_simps [simp]:
  "fr_from_be_mod ref_crypto bs = be_val bs mod bn254_r"
  "fr_to_be ref_crypto v = be_bytes 32 (v mod bn254_r)"
  "fr_from_u64 ref_crypto n = unat n"
  "fr_from_u128 ref_crypto m = unat m"
  "fr_neg ref_crypto v = bn254_r - v mod bn254_r"
  "poseidon_hashv ref_crypto vs = ref_poseidon vs"
  "keccak_hashv ref_crypto vs = be_bytes 32 (be_val (concat vs) + length (concat vs))"
  "sha256_digest ref_crypto bs = be_bytes 32 (be_val bs + 1)"
  by (simp_all add: ref_crypto_def)

lemma ref_fr_spec: "fr_spec ref_crypto"
  using bn254_r_bounds
  by (simp add: fr_spec_def is_scalar_be_bytes be_val_scalar unat_u64_lt_r unat_u128_lt_r)

lemma foldl_mod_less: "a < m \<Longrightarrow> foldl (\<lambda>a v. f a v mod m) a vs < (m :: nat)"
  by (induction vs arbitrary: a) auto

lemma ref_poseidon_spec: "poseidon_spec ref_crypto"
proof -
  have "foldl (\<lambda>a v. (a * 31 + be_val v) mod (bn254_r - 1)) 7 vs < bn254_r - 1" for vs
    by (rule foldl_mod_less) (simp add: bn254_r_def)
  then have "1 + foldl (\<lambda>a v. (a * 31 + be_val v) mod (bn254_r - 1)) 7 vs < bn254_r" for vs
    by (simp add: less_diff_conv)
  then show ?thesis
    by (auto simp: poseidon_spec_def ref_poseidon_def list_all_iff is_scalar_be_bytes split: if_splits)
qed

lemma ref_poseidon_nonzero: "ref_poseidon vs = Some h \<Longrightarrow> h \<noteq> replicate 32 0"
proof
  let ?v = "1 + foldl (\<lambda>a v. (a * 31 + be_val v) mod (bn254_r - 1)) 7 vs"
  assume h: "ref_poseidon vs = Some h" "h = replicate 32 0"
  have "h = be_bytes 32 ?v" using h(1) by (simp add: ref_poseidon_def split: if_splits)
  with h(2) have "be_val (be_bytes 32 ?v) = 0" by (metis be_val_replicate_0)
  moreover have "foldl (\<lambda>a v. (a * 31 + be_val v) mod (bn254_r - 1)) 7 vs < bn254_r - 1"
    by (rule foldl_mod_less) (simp add: bn254_r_def)
  then have "?v < bn254_r" by (simp add: less_diff_conv)
  ultimately show False by (simp add: be_val_scalar del: be_val_be_bytes)
qed

lemma ref_keccak_spec: "keccak_spec ref_crypto"
  by (simp add: keccak_spec_def)

end
