(* ===== verification/Pool_State.thy ===== *)
theory Pool_State
  imports Crates
begin

text \<open>
  The vocabulary of the on-chain pool program: its errors, events, accounts and constants
  (\<^verbatim>\<open>error.rs\<close>, \<^verbatim>\<open>events.rs\<close>, \<^verbatim>\<open>state.rs\<close>, \<^verbatim>\<open>lib.rs\<close>), the world of Solana
  accounts an instruction runs in, and the record \<open>runtime\<close> of what the program calls
  outside the repository: address derivation, the System and SPL Token programs, the
  verifier CPI and Light Protocol's zero-copy Merkle tree.
\<close>

section \<open>Errors\<close>

datatype pool_error =
    TreeError
  | UnknownRoot
  | WrongVerifier
  | InvalidProof
  | InsufficientVault
  | RecipientMismatch
  | ExtAmountMustBeNonPositive
  | NoteTooLarge
  | ZeroAmount
  | InvalidProofLength
  | InvalidField
  | ZeroNullifier
  | DuplicateNullifier
  | SelfTransfer
  | UnauthorizedInitializer

text \<open>
  What an instruction can fail with: one of the program's own errors, an error of the
  account constraints that Anchor checks before the handler, \<open>ProgramError::InvalidArgument\<close>,
  an error of a called program, or a panic (an out-of-range slice).
\<close>

datatype anchor_error =
    AccountNotInitialized
  | AccountDiscriminatorMismatch
  | AccountNotSigner
  | InvalidProgramId
  | InvalidProgramExecutable
  | ConstraintSeeds
  | ConstraintAddress
  | ConstraintAssociated
  | ConstraintTokenMint
  | ConstraintTokenOwner
  | ConstraintExecutable
  | AccountInUse

datatype prog_error =
    PoolErr pool_error
  | AnchorErr anchor_error
  | InvalidArgument
  | CpiError
  | Panic

section \<open>Events\<close>

record new_commitment =
  nc_commitment :: bytes
  nc_leaf_index :: u64
  nc_encrypted_note :: bytes

record new_nullifier =
  nn_nullifier :: bytes

datatype event = NewCommitment new_commitment | NewNullifier new_nullifier

section \<open>Accounts\<close>

record asset =
  asset_mint :: pubkey
  asset_id :: bytes

record pool =
  pool_verifier :: pubkey
  pool_asset :: asset
  pool_domain :: bytes
  pool_bump :: u8

record nullifier_record =
  nr_nullifier :: bytes

text \<open>The fields of an SPL token account and mint that the program or the token program reads.\<close>

record token_account =
  ta_mint :: pubkey
  ta_owner :: pubkey
  ta_amount :: u64
  ta_frozen :: bool

record mint_account =
  mint_decimals :: u8

text \<open>
  An account of the chain. The constructor stands for the owner and the discriminator that
  Anchor's typed accounts check. A tree account carries its raw data (the discriminator's
  eight bytes and then Light's buffer); a program account the program-data address its loader
  state names; a program-data account the upgrade authority.
\<close>

datatype account =
    PoolAccount pool
  | TreeAccount bytes
  | NullifierAccount nullifier_record
  | TokenAccount token_account
  | MintAccount mint_account
  | ProgramAccount "pubkey option"
  | ProgramDataAccount "pubkey option"
  | OtherAccount

type_synonym accounts = "pubkey \<rightharpoonup> account"

record world =
  accts :: accounts
  events :: "event list"

definition emit :: "event \<Rightarrow> world \<Rightarrow> world" where
  "emit e w = w\<lparr>events := events w @ [e]\<rparr>"

definition put_account :: "pubkey \<Rightarrow> account \<Rightarrow> world \<Rightarrow> world" where
  "put_account a x w = w\<lparr>accts := (accts w)(a \<mapsto> x)\<rparr>"

lemma emit_simps [simp]:
  "accts (emit e w) = accts w"
  "events (emit e w) = events w @ [e]"
  by (simp_all add: emit_def)

lemma put_account_simps [simp]:
  "accts (put_account a x w) = (accts w)(a \<mapsto> x)"
  "events (put_account a x w) = events w"
  by (simp_all add: put_account_def)

section \<open>Constants\<close>

definition pool_program_id :: pubkey where
  "pool_program_id =
     [179, 102, 208, 125, 75, 222, 7, 55, 61, 182, 66, 49, 85, 138, 21, 39,
      228, 219, 130, 147, 0, 135, 152, 209, 155, 150, 94, 125, 155, 157, 196, 188]"

definition BINDING_DOMAIN :: bytes where
  "BINDING_DOMAIN = ascii ''veil402:transact:v4''"

definition VERSION_SEED :: bytes where
  "VERSION_SEED = ascii ''v4''"

definition NOTE_DOMAIN :: u64 where
  "NOTE_DOMAIN = 5"

definition ASSET_DOMAIN :: u64 where
  "ASSET_DOMAIN = 7"

definition MAX_ENCRYPTED_NOTE_LEN :: nat where
  "MAX_ENCRYPTED_NOTE_LEN = 128"

definition PROOF_BYTES :: nat where
  "PROOF_BYTES = 388"

lemma length_pool_program_id [simp]: "length pool_program_id = 32"
  by (simp add: pool_program_id_def)

lemma length_BINDING_DOMAIN [simp]: "length BINDING_DOMAIN = 19"
  by (simp add: BINDING_DOMAIN_def)

section \<open>The runtime around the program\<close>

text \<open>
  \<open>find_program_address\<close> and \<open>create_program_address\<close> are \<open>Pubkey\<close>'s,
  \<open>ata_address\<close> is the associated-token address of a wallet and a mint;
  \<open>sys_create accts payer a space\<close> tells whether the System program can fund and create
  account \<open>a\<close>, \<open>cpi_invoke\<close> whether a program accepts an instruction, and
  \<open>transfer_checked accts from mint to authority amount decimals\<close> is the SPL Token
  instruction, with the accounts after it.

  The \<open>zc_\<close> operations are those of Light's zero-copy tree over the raw buffer:
  \<open>zc_from_bytes_init h buf height canopy changelog roots\<close> and \<open>zc_tree_init\<close>
  format a buffer, \<open>zc_from_bytes\<close> tells whether a buffer is a tree of height \<open>h\<close>,
  and \<open>zc_next_index\<close>, \<open>zc_append\<close> and \<open>zc_roots\<close> read and extend it.
\<close>

record runtime =
  find_program_address :: "bytes list \<Rightarrow> pubkey \<Rightarrow> pubkey \<times> u8"
  create_program_address :: "bytes list \<Rightarrow> pubkey \<Rightarrow> pubkey option"
  ata_address :: "pubkey \<Rightarrow> pubkey \<Rightarrow> pubkey"
  token_program_id :: pubkey
  ata_program_id :: pubkey
  system_program_id :: pubkey
  sys_create :: "accounts \<Rightarrow> pubkey \<Rightarrow> pubkey \<Rightarrow> nat \<Rightarrow> bool"
  cpi_invoke :: "pubkey \<Rightarrow> bytes \<Rightarrow> bool"
  transfer_checked ::
    "accounts \<Rightarrow> pubkey \<Rightarrow> pubkey \<Rightarrow> pubkey \<Rightarrow> pubkey \<Rightarrow> u64 \<Rightarrow> u8 \<Rightarrow> accounts option"
  zc_size_in_account :: "nat \<Rightarrow> nat \<Rightarrow> nat \<Rightarrow> nat \<Rightarrow> nat"
  zc_from_bytes_init :: "nat \<Rightarrow> bytes \<Rightarrow> nat \<Rightarrow> nat \<Rightarrow> nat \<Rightarrow> nat \<Rightarrow> bytes option"
  zc_tree_init :: "nat \<Rightarrow> bytes \<Rightarrow> bytes option"
  zc_from_bytes :: "nat \<Rightarrow> bytes \<Rightarrow> bool"
  zc_next_index :: "bytes \<Rightarrow> nat"
  zc_append :: "nat \<Rightarrow> bytes \<Rightarrow> bytes \<Rightarrow> bytes option"
  zc_roots :: "nat \<Rightarrow> bytes \<Rightarrow> bytes list"

end
