(* ===== verification/Pool_Utils.thy ===== *)
theory Pool_Utils
  imports Pool_State
begin

text \<open>
  The field and hash helpers of the pool program (\<^verbatim>\<open>utils.rs\<close>), and two
  interfaces that the pool and the client library both implement: a codec of canonical
  scalars and an encoder of signed public amounts. The lemmas a client needs of either are
  proved once in the locale and obtained for both implementations by interpretation.
\<close>

section \<open>The interface of a scalar codec\<close>

locale scalar_codec =
  fixes good :: "'l \<Rightarrow> bool"
    and enc :: "'l \<Rightarrow> 'fr \<Rightarrow> bytes"
    and canonical :: "'l \<Rightarrow> bytes \<Rightarrow> bool"
  assumes enc_scalar: "good L \<Longrightarrow> is_scalar (enc L x)"
    and canonical_iff: "good L \<Longrightarrow> length bs = 32 \<Longrightarrow> canonical L bs \<longleftrightarrow> be_val bs < bn254_r"
begin

lemma canonical_scalar: "good L \<Longrightarrow> length bs = 32 \<Longrightarrow> canonical L bs \<longleftrightarrow> is_scalar bs"
  by (simp add: canonical_iff is_scalar_def)

lemma canonical_enc: "good L \<Longrightarrow> canonical L (enc L x)"
  using enc_scalar [of L x] by (simp add: canonical_iff is_scalar_def)

lemma canonical_unique:
  assumes "good L" "length a = 32" "length b = 32" "canonical L a" "canonical L b"
    and "be_val a mod bn254_r = be_val b mod bn254_r"
  shows "a = b"
  using assms be_val_inj [of a b] by (simp add: canonical_iff)

lemma canonical_shifted:
  assumes "good L" "be_val bs + bn254_r < 256 ^ 32"
  shows "\<not> canonical L (be_bytes 32 (be_val bs + bn254_r))"
  using assms by (simp add: canonical_iff)

end

section \<open>The interface of a signed-amount encoder\<close>

text \<open>
  Both sides map a signed 64-bit flow to the residue of the integer: \<open>x\<close> for
  \<open>x \<ge> 0\<close>, the modulus less the magnitude otherwise.
\<close>

locale signed_encoder =
  fixes good :: "'l \<Rightarrow> bool"
    and enc :: "'l \<Rightarrow> i64 \<Rightarrow> bytes"
  assumes enc_value: "good L \<Longrightarrow> enc L x = be_bytes 32 (nat (sint x mod int bn254_r))"
begin

lemma residue_lt: "nat (i mod int bn254_r) < bn254_r"
  using bn254_r_bounds by (simp add: nat_less_iff)

lemma enc_is_scalar: "good L \<Longrightarrow> is_scalar (enc L x)"
  by (simp add: enc_value is_scalar_be_bytes residue_lt)

lemma enc_be_val: "good L \<Longrightarrow> int (be_val (enc L x)) = sint x mod int bn254_r"
  using bn254_r_bounds by (simp add: enc_value be_val_scalar residue_lt del: be_val_be_bytes)

lemma sint_i64_bounds: "- (2 ^ 63) \<le> sint (x :: i64)" "sint (x :: i64) < 2 ^ 63"
  using sint_range_size [of x] by (simp_all add: word_size)

lemma enc_inj:
  assumes "good L" and "enc L x = enc L y"
  shows "x = y"
proof -
  have "sint x mod int bn254_r = sint y mod int bn254_r"
    using assms enc_be_val [of L x] enc_be_val [of L y] by simp
  then obtain k where k: "sint x - sint y = int bn254_r * k"
    by (metis mod_eq_dvd_iff dvdE)
  have "\<bar>sint x - sint y\<bar> < int bn254_r"
    using sint_i64_bounds [of x] sint_i64_bounds [of y] by (simp add: bn254_r_def)
  with k have "k = 0"
    by (simp add: abs_mult bn254_r_def)
  with k show ?thesis by (simp add: signed_word_eqI)
qed

end

section \<open>The helpers\<close>

text \<open>
  \<open>out.copy_from_slice\<close> panics unless the source has exactly 32 bytes, which
  \<open>fr_spec\<close> promises of \<open>to_bytes_be\<close>; the copy is then the slice itself.
\<close>

definition field_bytes :: "'fr crypto \<Rightarrow> 'fr \<Rightarrow> bytes" where
  "field_bytes L v = fr_to_be L v"

definition poseidon :: "'fr crypto \<Rightarrow> bytes list \<Rightarrow> prog_error + bytes" where
  "poseidon L values = ok_or InvalidArgument (poseidon_hashv L values)"

definition keccak_field :: "'fr crypto \<Rightarrow> bytes list \<Rightarrow> bytes" where
  "keccak_field L values = field_bytes L (fr_from_be_mod L (keccak_hashv L values))"

definition is_canonical_field :: "'fr crypto \<Rightarrow> bytes \<Rightarrow> bool" where
  "is_canonical_field L bs \<longleftrightarrow> field_bytes L (fr_from_be_mod L bs) = bs"

definition u64_be32 :: "u64 \<Rightarrow> bytes" where
  "u64_be32 value = take 24 (replicate 32 0) @ u64_be value"

definition split32 :: "bytes \<Rightarrow> bytes \<times> bytes" where
  "split32 bs =
     (let high = take 16 (replicate 32 0) @ take 16 bs;
          low = take 16 (replicate 32 0) @ take 16 (drop 16 bs)
      in (high, low))"

definition asset_id_of :: "'fr crypto \<Rightarrow> pubkey \<Rightarrow> prog_error + bytes" where
  "asset_id_of L mint =
     (let (high, low) = split32 mint
      in poseidon L [u64_be32 ASSET_DOMAIN, high, low])"

definition public_amount_field :: "'fr crypto \<Rightarrow> i128 \<Rightarrow> bytes" where
  "public_amount_field L amount =
     (let magnitude = fr_from_u128 L (unsigned_abs amount);
          field = (if sint amount \<ge> 0 then magnitude else fr_neg L magnitude)
      in field_bytes L field)"

section \<open>Their behaviour\<close>

lemma is_canonical_field_iff:
  assumes "fr_spec L" and "length bs = 32"
  shows "is_canonical_field L bs \<longleftrightarrow> be_val bs < bn254_r"
proof -
  have "field_bytes L (fr_from_be_mod L bs) = be_bytes 32 (be_val bs mod bn254_r)"
    using assms by (simp add: field_bytes_def fr_to_be_from_be_mod)
  moreover have "be_bytes 32 (be_val bs mod bn254_r) = bs \<longleftrightarrow> be_val bs mod bn254_r = be_val bs"
    using assms(2) by (metis be_bytes_be_val be_val_scalar bn254_r_bounds(3) mod_less_divisor)
  ultimately show ?thesis
    using bn254_r_bounds(3) by (simp add: is_canonical_field_def mod_eq_self_iff_div_eq_0 div_eq_0_iff)
qed

lemma is_canonical_field_scalar: "fr_spec L \<Longrightarrow> is_canonical_field L bs \<Longrightarrow> is_scalar bs"
  by (metis field_bytes_def fr_to_be_scalar is_canonical_field_def)

lemma keccak_field_scalar: "fr_spec L \<Longrightarrow> is_scalar (keccak_field L vs)"
  by (simp add: keccak_field_def field_bytes_def fr_to_be_scalar)

lemma u64_be32_be_bytes: "u64_be32 v = be_bytes 32 (unat v)"
  using be_bytes_pad [of "unat v" 8 24] unsigned_less [of v, where ?'a = nat]
  by (simp add: u64_be32_def u64_be_def)

lemma length_u64_be32 [simp]: "length (u64_be32 v) = 32"
  by (simp add: u64_be32_def)

lemma u64_be32_scalar [simp]: "is_scalar (u64_be32 v)"
  by (simp add: u64_be32_be_bytes is_scalar_be_bytes unat_u64_lt_r)

lemma be_val_u64_be32 [simp]: "be_val (u64_be32 v) = unat v"
  by (simp add: u64_be32_be_bytes be_val_scalar unat_u64_lt_r del: be_val_be_bytes)

lemma u64_be32_inj [simp]: "u64_be32 v = u64_be32 w \<longleftrightarrow> v = w"
  by (metis be_val_u64_be32 word_unat_eq_iff)

lemma pad16_scalar: "length bs = 16 \<Longrightarrow> is_scalar (replicate 16 0 @ bs)"
  using be_val_less [of bs] by (intro is_scalar_small) (auto simp: be_val_append)

lemma split32_scalars:
  "length bs = 32 \<Longrightarrow> is_scalar (fst (split32 bs)) \<and> is_scalar (snd (split32 bs))"
  by (simp add: split32_def pad16_scalar)

lemma split32_join:
  "length bs = 32 \<Longrightarrow> drop 16 (fst (split32 bs)) @ drop 16 (snd (split32 bs)) = bs"
  by (simp add: split32_def)

lemma split32_inj: "length a = 32 \<Longrightarrow> length b = 32 \<Longrightarrow> split32 a = split32 b \<Longrightarrow> a = b"
  by (metis split32_join)

lemma asset_id_of_total:
  assumes "poseidon_spec L" "length mint = 32"
  shows "\<exists>h. asset_id_of L mint = Inr h \<and> is_scalar h"
proof -
  obtain high low where hl: "split32 mint = (high, low)" by (cases "split32 mint")
  with assms(2) split32_scalars [of mint] have sc: "is_scalar high" "is_scalar low" by auto
  obtain h where h: "poseidon_hashv L [u64_be32 ASSET_DOMAIN, high, low] = Some h"
    using poseidon_total [OF assms(1), of "[u64_be32 ASSET_DOMAIN, high, low]"] sc by auto
  with hl show ?thesis
    using poseidon_scalar [OF assms(1) h] by (simp add: asset_id_of_def poseidon_def)
qed

text \<open>
  The field element of a signed amount, for every \<open>i128\<close> whose magnitude is below the
  modulus, so for every \<open>i64\<close>.
\<close>

lemma neg_residue:
  assumes "v < bn254_r"
  shows "(bn254_r - v) mod bn254_r = nat (- int v mod int bn254_r)"
proof -
  have "int ((bn254_r - v) mod bn254_r) = (int bn254_r - int v) mod int bn254_r"
    using assms by (simp add: zmod_int of_nat_diff)
  also have "\<dots> = - int v mod int bn254_r"
    by (simp add: mod_diff_left_eq [symmetric])
  finally show ?thesis by (metis nat_int)
qed

lemma public_amount_field_value:
  assumes "fr_spec L"
  shows "public_amount_field L amount = be_bytes 32 (nat (sint amount mod int bn254_r))"
proof -
  let ?m = "unat (unsigned_abs amount)"
  have m: "?m < bn254_r" "int ?m = \<bar>sint amount\<bar>"
    by (rule unat_u128_lt_r) (simp add: unat_unsigned_abs)
  show ?thesis
  proof (cases "sint amount \<ge> 0")
    case True
    with m(2) have "sint amount = int ?m" by simp
    with m(1) have "nat (sint amount mod int bn254_r) = ?m"
      by (simp only: of_nat_mod [symmetric] nat_int mod_less)
    with True assms show ?thesis
      by (simp add: public_amount_field_def field_bytes_def fr_from_u128_bytes)
  next
    case False
    with m have "- int ?m = sint amount" by simp
    with False assms m(1) show ?thesis
      by (simp add: public_amount_field_def field_bytes_def fr_from_u128_bytes fr_to_be_neg
          be_val_scalar neg_residue del: be_val_be_bytes)
  qed
qed

interpretation pool_codec: scalar_codec fr_spec field_bytes is_canonical_field
  by unfold_locales (simp_all add: field_bytes_def fr_to_be_scalar is_canonical_field_iff)

interpretation pool_amount: signed_encoder fr_spec "\<lambda>L x. public_amount_field L (scast x)"
  by unfold_locales (simp add: public_amount_field_value)

end
