(* ===== verification/Pool_Verifier.thy ===== *)
theory Pool_Verifier
  imports Pool_Utils
begin

text \<open>
  The public witness that the pool program assembles and hands to the verifier program
  (\<^verbatim>\<open>verifier.rs\<close>).
\<close>

definition FIELD_BYTES :: nat where "FIELD_BYTES = 32"
definition GNARK_HEADER_BYTES :: nat where "GNARK_HEADER_BYTES = 12"
definition PUBLIC_INPUT_COUNT :: nat where "PUBLIC_INPUT_COUNT = 7"
definition PUBLIC_INPUT_COUNT_BE :: bytes where "PUBLIC_INPUT_COUNT_BE = u32_be 7"
definition WITNESS_BYTES :: nat where
  "WITNESS_BYTES = GNARK_HEADER_BYTES + PUBLIC_INPUT_COUNT * FIELD_BYTES"

lemmas witness_consts =
  FIELD_BYTES_def GNARK_HEADER_BYTES_def PUBLIC_INPUT_COUNT_def WITNESS_BYTES_def

record public_inputs =
  pi_root :: bytes
  pi_nullifiers :: "bytes pair"
  pi_commitments :: "bytes pair"
  pi_amount :: bytes
  pi_external_data_hash :: bytes

definition new_public_inputs ::
    "bytes \<Rightarrow> bytes pair \<Rightarrow> bytes pair \<Rightarrow> bytes \<Rightarrow> bytes \<Rightarrow> public_inputs" where
  "new_public_inputs root nullifiers commitments amount external_data_hash =
     \<lparr>pi_root = root, pi_nullifiers = nullifiers, pi_commitments = commitments,
      pi_amount = amount, pi_external_data_hash = external_data_hash\<rparr>"

definition witness_fields :: "public_inputs \<Rightarrow> bytes list" where
  "witness_fields pi =
     [pi_root pi, fst (pi_nullifiers pi), snd (pi_nullifiers pi),
      fst (pi_commitments pi), snd (pi_commitments pi),
      pi_amount pi, pi_external_data_hash pi]"

text \<open>
  \<open>encode\<close> writes the two counts of gnark's header into a zeroed array and then the
  fields chunk by chunk.
\<close>

definition encode :: "public_inputs \<Rightarrow> bytes" where
  "encode pi =
     (let witness = replicate WITNESS_BYTES 0;
          witness = copy_at 0 PUBLIC_INPUT_COUNT_BE witness;
          witness = copy_at 8 PUBLIC_INPUT_COUNT_BE witness
      in copy_fields FIELD_BYTES GNARK_HEADER_BYTES (witness_fields pi) witness)"

definition verify :: "runtime \<Rightarrow> public_inputs \<Rightarrow> pubkey \<Rightarrow> bytes \<Rightarrow> prog_error + unit" where
  "verify R pi verifier proof =
     (let witness = encode pi;
          data = proof @ witness
      in if cpi_invoke R verifier data then Inr () else Inl (PoolErr InvalidProof))"

section \<open>The layout\<close>

definition gnark_header :: bytes where
  "gnark_header = [0, 0, 0, 7, 0, 0, 0, 0, 0, 0, 0, 7]"

definition wf_public_inputs :: "public_inputs \<Rightarrow> bool" where
  "wf_public_inputs pi \<longleftrightarrow> list_all (\<lambda>f. length f = 32) (witness_fields pi)"

lemma u32_be_7: "u32_be 7 = [0, 0, 0, 7]"
  by (simp add: u32_be_def be_bytes_eval)

lemma header_buffer:
  "copy_at 8 PUBLIC_INPUT_COUNT_BE (copy_at 0 PUBLIC_INPUT_COUNT_BE (replicate WITNESS_BYTES 0)) =
   gnark_header @ replicate 224 0"
proof -
  have "replicate 4 (0 :: u8) = [0, 0, 0, 0]"
    by (simp add: numeral_eq_Suc)
  then show ?thesis
    by (simp add: copy_at_def PUBLIC_INPUT_COUNT_BE_def u32_be_7 witness_consts gnark_header_def)
qed

lemma length_gnark_header [simp]: "length gnark_header = 12"
  by (simp add: gnark_header_def)

lemma encode_layout:
  assumes "wf_public_inputs pi"
  shows "encode pi = gnark_header @ concat (witness_fields pi)"
proof -
  have "length (witness_fields pi) = 7" by (simp add: witness_fields_def)
  moreover have "\<forall>f \<in> set (witness_fields pi). length f = 32"
    using assms by (simp add: wf_public_inputs_def list_all_iff)
  ultimately show ?thesis
    by (simp add: encode_def Let_def header_buffer copy_fields_eq FIELD_BYTES_def
        GNARK_HEADER_BYTES_def)
qed

lemma length_encode: "wf_public_inputs pi \<Longrightarrow> length (encode pi) = 236"
  by (simp add: encode_layout wf_public_inputs_def witness_fields_def)

lemma encode_inj:
  assumes "wf_public_inputs p" "wf_public_inputs q" "encode p = encode q"
  shows "p = q"
proof -
  have "concat (witness_fields p) = concat (witness_fields q)"
    using assms by (simp add: encode_layout)
  moreover have "list_all2 (\<lambda>x y. length x = length y) (witness_fields p) (witness_fields q)"
    using assms(1,2) by (simp add: wf_public_inputs_def witness_fields_def)
  ultimately have "witness_fields p = witness_fields q"
    by (simp add: concat_fixed_inj)
  then show ?thesis
    by (simp add: witness_fields_def prod_eq_iff)
qed

lemma verify_eq_Inr [simp, result_simps]:
  "verify R pi v proof = Inr u \<longleftrightarrow> cpi_invoke R v (proof @ encode pi)"
  by (simp add: verify_def)

lemma verify_eq_Inl [result_simps]:
  "verify R pi v proof = Inl e \<longleftrightarrow> \<not> cpi_invoke R v (proof @ encode pi) \<and> e = PoolErr InvalidProof"
  by (auto simp: verify_def)

end
