(* ===== verification/Merkle.thy ===== *)
theory Merkle
  imports Crates
begin

text \<open>
  Append-only binary Merkle trees over an arbitrary node hash: the root of a leaf list in a
  tree of fixed height whose missing leaves are zero, authentication paths, and the climb
  from a leaf to the root that the client library and the circuit perform. This is the
  specification the Light tree of the pool and both climbs are measured against.
\<close>

type_synonym node_hash = "bytes \<Rightarrow> bytes \<Rightarrow> bytes"

fun zero_root :: "node_hash \<Rightarrow> nat \<Rightarrow> bytes" where
  "zero_root H 0 = replicate 32 0"
| "zero_root H (Suc d) = (let z = zero_root H d in H z z)"

fun mroot :: "node_hash \<Rightarrow> nat \<Rightarrow> bytes list \<Rightarrow> bytes" where
  "mroot H 0 ls = (case ls of [] \<Rightarrow> replicate 32 0 | l # _ \<Rightarrow> l)"
| "mroot H (Suc d) ls =
     (if ls = [] then zero_root H (Suc d)
      else H (mroot H d (take (2 ^ d) ls)) (mroot H d (drop (2 ^ d) ls)))"

lemma mroot_Nil [simp]: "mroot H d [] = zero_root H d"
  by (cases d) simp_all

lemma mroot_Suc: "mroot H (Suc d) ls = H (mroot H d (take (2 ^ d) ls)) (mroot H d (drop (2 ^ d) ls))"
  by (simp add: Let_def)

declare mroot.simps(2) [simp del]

text \<open>The siblings of leaf \<open>i\<close>, from the leaf level up.\<close>

fun auth_path :: "node_hash \<Rightarrow> nat \<Rightarrow> bytes list \<Rightarrow> nat \<Rightarrow> bytes list" where
  "auth_path H 0 ls i = []"
| "auth_path H (Suc d) ls i =
     (if i < 2 ^ d
      then auth_path H d (take (2 ^ d) ls) i @ [mroot H d (drop (2 ^ d) ls)]
      else auth_path H d (drop (2 ^ d) ls) (i - 2 ^ d) @ [mroot H d (take (2 ^ d) ls)])"

text \<open>Climbing: bit \<open>k\<close> of the index tells the side of the node at level \<open>k\<close>.\<close>

fun climb :: "node_hash \<Rightarrow> bytes \<Rightarrow> nat \<Rightarrow> bytes list \<Rightarrow> bytes" where
  "climb H node i [] = node"
| "climb H node i (s # ss) = climb H (if even i then H node s else H s node) (i div 2) ss"

lemma length_auth_path [simp]: "length (auth_path H d ls i) = d"
  by (induction d arbitrary: ls i) auto

lemma climb_snoc:
  "climb H node i (ss @ [s]) =
     (if even (i div 2 ^ length ss) then H (climb H node i ss) s else H s (climb H node i ss))"
  by (induction ss arbitrary: node i) (auto simp: div_mult2_eq)

lemma climb_add_multiple: "climb H node (i + k * 2 ^ length ss) ss = climb H node i ss"
proof (induction ss arbitrary: node i)
  case (Cons s ss)
  have "(i + k * 2 ^ length (s # ss)) div 2 = i div 2 + k * 2 ^ length ss"
    by (simp add: div_add1_eq)
  moreover have "even (i + k * 2 ^ length (s # ss)) \<longleftrightarrow> even i" by simp
  ultimately show ?case using Cons by simp
qed simp

text \<open>A leaf that the tree does not have yet is zero; it too has an authentication path.\<close>

definition leaf_at :: "bytes list \<Rightarrow> nat \<Rightarrow> bytes" where
  "leaf_at ls i = (if i < length ls then ls ! i else replicate 32 0)"

lemma climb_auth_path_any:
  assumes "i < 2 ^ d" and "length ls \<le> 2 ^ d"
  shows "climb H (leaf_at ls i) i (auth_path H d ls i) = mroot H d ls"
  using assms
proof (induction d arbitrary: ls i)
  case 0
  then show ?case by (cases ls) (auto simp: leaf_at_def)
next
  case (Suc d)
  show ?case
  proof (cases "i < 2 ^ d")
    case True
    have "climb H (leaf_at (take (2 ^ d) ls) i) i (auth_path H d (take (2 ^ d) ls) i) =
        mroot H d (take (2 ^ d) ls)"
      using True by (intro Suc.IH) auto
    moreover have "leaf_at (take (2 ^ d) ls) i = leaf_at ls i"
      using True by (auto simp: leaf_at_def)
    ultimately show ?thesis using True by (simp add: climb_snoc mroot_Suc)
  next
    case False
    let ?j = "i - 2 ^ d"
    have i: "i = ?j + 1 * 2 ^ d" using False by simp
    have j: "?j < 2 ^ d" using Suc.prems False by simp
    have leaf: "leaf_at (drop (2 ^ d) ls) ?j = leaf_at ls i"
      using False by (auto simp: leaf_at_def)
    have "climb H (leaf_at (drop (2 ^ d) ls) ?j) ?j (auth_path H d (drop (2 ^ d) ls) ?j) =
        mroot H d (drop (2 ^ d) ls)"
      using Suc.prems False j by (intro Suc.IH) auto
    moreover have "climb H (leaf_at ls i) i (auth_path H d (drop (2 ^ d) ls) ?j) =
        climb H (leaf_at ls i) ?j (auth_path H d (drop (2 ^ d) ls) ?j)"
      by (subst i, rule trans [OF _ climb_add_multiple [where k = 1]]) simp
    moreover have "odd (i div 2 ^ d)"
    proof -
      have "i div 2 ^ d = 1" using i j by (metis div_less div_mult_self3 add.left_neutral
            mult_1 power_not_zero zero_neq_numeral add.commute)
      then show ?thesis by simp
    qed
    ultimately show ?thesis
      using False leaf by (simp add: climb_snoc mroot_Suc)
  qed
qed

theorem climb_auth_path:
  assumes "i < length ls" and "length ls \<le> 2 ^ d"
  shows "climb H (ls ! i) i (auth_path H d ls i) = mroot H d ls"
  using climb_auth_path_any [of i d ls H] assms by (simp add: leaf_at_def)

text \<open>
  Binding. Two climbs at the same index that reach the same root either started from the
  same leaf with the same siblings or contain a collision of the node hash: two different pairs of children, one
  hashed on either path, with the same hash. \<open>path_inputs\<close> lists the pairs a climb hashes.
\<close>

fun path_inputs :: "node_hash \<Rightarrow> bytes \<Rightarrow> nat \<Rightarrow> bytes list \<Rightarrow> (bytes \<times> bytes) list" where
  "path_inputs H node i [] = []"
| "path_inputs H node i (s # ss) =
     (let p = (if even i then (node, s) else (s, node))
      in p # path_inputs H (H (fst p) (snd p)) (i div 2) ss)"

definition path_collision :: "node_hash \<Rightarrow> (bytes \<times> bytes) list \<Rightarrow> (bytes \<times> bytes) list \<Rightarrow> bool" where
  "path_collision H ps qs \<longleftrightarrow>
     list_ex (\<lambda>p. list_ex (\<lambda>q. p \<noteq> q \<and> H (fst p) (snd p) = H (fst q) (snd q)) qs) ps"

lemma path_collision_Cons: "path_collision H ps qs \<Longrightarrow> path_collision H (p # ps) (q # qs)"
  unfolding path_collision_def list_ex_iff by (meson list.set_intros(2))

lemma path_collision_head:
  "p \<noteq> q \<Longrightarrow> H (fst p) (snd p) = H (fst q) (snd q) \<Longrightarrow> path_collision H (p # ps) (q # qs)"
  by (auto simp: path_collision_def)

theorem climb_binding:
  assumes "length ss = length ts" and "climb H a i ss = climb H b i ts"
  shows "(a = b \<and> ss = ts) \<or> path_collision H (path_inputs H a i ss) (path_inputs H b i ts)"
  using assms
proof (induction ss ts arbitrary: a b i rule: list_induct2)
  case (Cons s ss t ts)
  let ?p = "if even i then (a, s) else (s, a)"
  let ?q = "if even i then (b, t) else (t, b)"
  have inputs: "path_inputs H a i (s # ss) = ?p # path_inputs H (H (fst ?p) (snd ?p)) (i div 2) ss"
    "path_inputs H b i (t # ts) = ?q # path_inputs H (H (fst ?q) (snd ?q)) (i div 2) ts"
    by (simp_all add: Let_def)
  have climb: "climb H (H (fst ?p) (snd ?p)) (i div 2) ss = climb H (H (fst ?q) (snd ?q)) (i div 2) ts"
    using Cons.prems by (simp split: if_splits)
  from Cons.IH [OF climb] show ?case
  proof
    assume IH: "H (fst ?p) (snd ?p) = H (fst ?q) (snd ?q) \<and> ss = ts"
    then have eq: "H (fst ?p) (snd ?p) = H (fst ?q) (snd ?q)" ..
    show ?thesis
    proof (cases "?p = ?q")
      case True
      with IH show ?thesis by (auto split: if_splits)
    next
      case False
      then show ?thesis unfolding inputs using eq by (intro disjI2 path_collision_head)
    qed
  next
    assume "path_collision H (path_inputs H (H (fst ?p) (snd ?p)) (i div 2) ss)
      (path_inputs H (H (fst ?q) (snd ?q)) (i div 2) ts)"
    then show ?thesis unfolding inputs by (intro disjI2 path_collision_Cons)
  qed
qed simp

section \<open>Poseidon trees\<close>

text \<open>In a Poseidon tree of canonical leaves every node is canonical.\<close>

lemma poseidon_node_scalar:
  assumes "poseidon_spec L" "is_scalar x" "is_scalar y"
  shows "poseidon_hashv L [x, y] = Some (poseidon_node L x y)" and "is_scalar (poseidon_node L x y)"
proof -
  obtain h where h: "poseidon_hashv L [x, y] = Some h"
    using poseidon_total [OF assms(1), of "[x, y]"] assms by auto
  then show "poseidon_hashv L [x, y] = Some (poseidon_node L x y)" by (simp add: poseidon_node_def)
  show "is_scalar (poseidon_node L x y)"
    using h poseidon_scalar [OF assms(1) h] by (simp add: poseidon_node_def)
qed

lemma zero_root_scalar: "poseidon_spec L \<Longrightarrow> is_scalar (zero_root (poseidon_node L) d)"
  by (induction d) (simp_all add: Let_def poseidon_node_scalar)

lemma mroot_scalar:
  "poseidon_spec L \<Longrightarrow> list_all is_scalar ls \<Longrightarrow> is_scalar (mroot (poseidon_node L) d ls)"
proof (induction d arbitrary: ls)
  case 0
  then show ?case by (cases ls) auto
next
  case (Suc d)
  then show ?case
    unfolding mroot_Suc list_all_iff
    by (intro poseidon_node_scalar Suc.IH) (auto simp: list_all_iff dest: in_set_takeD in_set_dropD)
qed

text \<open>A root is the hash of two canonical nodes.\<close>

lemma mroot_preimage:
  assumes "poseidon_spec L" "list_all is_scalar ls" "0 < d"
  shows "\<exists>x y. is_scalar x \<and> is_scalar y \<and> poseidon_hashv L [x, y] = Some (mroot (poseidon_node L) d ls)"
proof -
  obtain e where d: "d = Suc e" using assms(3) by (cases d) auto
  have "list_all is_scalar (take (2 ^ e) ls)" "list_all is_scalar (drop (2 ^ e) ls)"
    using assms(2) by (auto simp: list_all_iff dest: in_set_takeD in_set_dropD)
  note sc = this [THEN mroot_scalar [OF assms(1)], of e]
  show ?thesis
    using poseidon_node_scalar(1) [OF assms(1) sc] sc unfolding d mroot_Suc by blast
qed

lemma auth_path_scalar:
  "poseidon_spec L \<Longrightarrow> list_all is_scalar ls \<Longrightarrow> list_all is_scalar (auth_path (poseidon_node L) d ls i)"
proof (induction d arbitrary: ls i)
  case (Suc d)
  have "list_all is_scalar (take (2 ^ d) ls)" "list_all is_scalar (drop (2 ^ d) ls)"
    using Suc.prems(2) by (auto simp: list_all_iff dest: in_set_takeD in_set_dropD)
  with Suc show ?case by (simp add: mroot_scalar)
qed simp

section \<open>The window of recent roots\<close>

text \<open>
  A tree that has taken the leaves \<open>ls\<close> has passed through the roots of all prefixes of
  \<open>ls\<close>; a history of \<open>k\<close> roots retains the last \<open>k\<close> of them.
\<close>

definition recent_roots :: "node_hash \<Rightarrow> nat \<Rightarrow> nat \<Rightarrow> bytes list \<Rightarrow> bytes list" where
  "recent_roots H d k ls =
     map (\<lambda>n. mroot H d (take n ls)) [Suc (length ls) - k ..< Suc (length ls)]"

lemma recent_roots_iff:
  "r \<in> set (recent_roots H d k ls) \<longleftrightarrow>
     (\<exists>n \<le> length ls. length ls < n + k \<and> r = mroot H d (take n ls))"
proof -
  have "(Suc (length ls) - k \<le> n \<and> n < Suc (length ls)) = (n \<le> length ls \<and> length ls < n + k)" for n
    by arith
  then show ?thesis
    by (simp only: recent_roots_def set_map set_upt image_iff Bex_def atLeastLessThan_iff conj_assoc)
qed

lemma length_recent_roots: "length (recent_roots H d k ls) = min k (Suc (length ls))"
  by (auto simp: recent_roots_def)

end
