(* ===== verification/Pool_Tree.thy ===== *)
theory Pool_Tree
  imports Pool_State Merkle
begin

text \<open>
  The adapter over Light Protocol's concurrent Merkle tree (\<^verbatim>\<open>tree.rs\<close>). Light's
  operations are parameters (fields of \<open>runtime\<close>); \<open>light_spec\<close> states what the
  adapter relies on: a tree of height \<open>h\<close> over the node hash \<open>H\<close> whose buffer stands
  for the leaf list \<open>lv\<close> reads off it. The interface that the handlers use, an append-only
  log of commitments, is the locale \<open>commitment_log\<close>; the adapter is an instance.
\<close>

section \<open>The interface of an append-only log\<close>

locale commitment_log =
  fixes ok :: "'s \<Rightarrow> bool"
    and leaves :: "'s \<Rightarrow> bytes list"
    and capacity :: nat
    and push :: "'s \<Rightarrow> bytes \<Rightarrow> 'e + (u64 \<times> 's)"
  assumes push_ok: "ok s \<Longrightarrow> push s l = Inr (i, t) \<Longrightarrow>
      ok t \<and> leaves t = leaves s @ [l] \<and> unat i = length (leaves s)"
    and push_bound: "ok s \<Longrightarrow> push s l = Inr (i, t) \<Longrightarrow> length (leaves s) < capacity"
    and push_total: "ok s \<Longrightarrow> length (leaves s) < capacity \<Longrightarrow> is_scalar l \<Longrightarrow>
      \<exists>i t. push s l = Inr (i, t)"
begin

lemma push_full: "ok s \<Longrightarrow> capacity \<le> length (leaves s) \<Longrightarrow> \<exists>e. push s l = Inl e"
  using push_bound [of s l] by (cases "push s l") fastforce+

lemma push_twice:
  assumes "ok s" "push s a = Inr (i, t)" "push t b = Inr (j, u)"
  shows "ok u \<and> leaves u = leaves s @ [a, b] \<and>
    unat i = length (leaves s) \<and> unat j = Suc (length (leaves s)) \<and>
    length (leaves s) + 2 \<le> capacity"
  using push_ok [OF assms(1,2)] push_bound [of t b j u] push_ok [of t b j u] assms(3) by auto

lemma push_twice_total:
  assumes "ok s" "length (leaves s) + 2 \<le> capacity" "is_scalar a" "is_scalar b"
  shows "\<exists>i t j u. push s a = Inr (i, t) \<and> push t b = Inr (j, u)"
proof -
  obtain i t where 1: "push s a = Inr (i, t)"
    using push_total [of s a] assms by auto
  moreover have "\<exists>j u. push t b = Inr (j, u)"
    using push_ok [OF assms(1) 1] assms by (intro push_total) auto
  ultimately show ?thesis by blast
qed

end

section \<open>The adapter\<close>

definition TREE_HEIGHT :: nat where "TREE_HEIGHT = 20"
lemma TREE_HEIGHT_small: "TREE_HEIGHT < 64"
  by (simp add: TREE_HEIGHT_def)

definition CANOPY :: nat where "CANOPY = 0"
definition CHANGELOG_SIZE :: nat where "CHANGELOG_SIZE = 8"
definition ROOTS_SIZE :: nat where "ROOTS_SIZE = 64"
definition DISCRIMINATOR :: nat where "DISCRIMINATOR = 8"

definition account_space :: "runtime \<Rightarrow> nat" where
  "account_space R =
     DISCRIMINATOR + zc_size_in_account R TREE_HEIGHT CHANGELOG_SIZE ROOTS_SIZE CANOPY"

text \<open>\<open>&data[n..]\<close> panics on a shorter buffer.\<close>

definition slice_from :: "nat \<Rightarrow> bytes \<Rightarrow> prog_error + bytes" where
  "slice_from n data = (if length data < n then Inl Panic else Inr (drop n data))"

definition initialize_with_height :: "runtime \<Rightarrow> nat \<Rightarrow> bytes \<Rightarrow> prog_error + bytes" where
  "initialize_with_height R h data =
     bindE (slice_from DISCRIMINATOR data) (\<lambda>buf.
     bindE (ok_or (PoolErr TreeError)
        (zc_from_bytes_init R h buf h CANOPY CHANGELOG_SIZE ROOTS_SIZE)) (\<lambda>tree.
     bindE (ok_or (PoolErr TreeError) (zc_tree_init R h tree)) (\<lambda>tree.
     Inr (take DISCRIMINATOR data @ tree))))"

definition initialize :: "runtime \<Rightarrow> bytes \<Rightarrow> prog_error + bytes" where
  "initialize R data = initialize_with_height R TREE_HEIGHT data"

definition append_with_height ::
    "runtime \<Rightarrow> nat \<Rightarrow> bytes \<Rightarrow> bytes \<Rightarrow> prog_error + (u64 \<times> bytes)" where
  "append_with_height R h data leaf =
     bindE (slice_from DISCRIMINATOR data) (\<lambda>buf.
     require (zc_from_bytes R h buf) (PoolErr TreeError) (
     let leaf_index = zc_next_index R buf in
     bindE (ok_or (PoolErr TreeError) (zc_append R h buf leaf)) (\<lambda>tree.
     bindE (ok_or (PoolErr TreeError) (u64_try_from leaf_index)) (\<lambda>i.
     Inr (i, take DISCRIMINATOR data @ tree)))))"

definition append_leaf :: "runtime \<Rightarrow> bytes \<Rightarrow> bytes \<Rightarrow> prog_error + (u64 \<times> bytes)" where
  "append_leaf R data leaf = append_with_height R TREE_HEIGHT data leaf"

text \<open>The raw data of the tree account that a handler was given.\<close>

definition tree_data :: "world \<Rightarrow> pubkey \<Rightarrow> prog_error + bytes" where
  "tree_data w a =
     (case accts w a of
        Some (TreeAccount data) \<Rightarrow> Inr data
      | _ \<Rightarrow> Inl (AnchorErr AccountDiscriminatorMismatch))"

definition insert_commitment ::
    "runtime \<Rightarrow> pubkey \<Rightarrow> bytes \<Rightarrow> bytes \<Rightarrow> world \<Rightarrow> prog_error + world" where
  "insert_commitment R account commitment encrypted_note w =
     bindE (tree_data w account) (\<lambda>data.
     bindE (append_leaf R data commitment) (\<lambda>(leaf_index, data').
     Inr (emit (NewCommitment
            \<lparr>nc_commitment = commitment, nc_leaf_index = leaf_index,
             nc_encrypted_note = encrypted_note\<rparr>)
          (put_account account (TreeAccount data') w))))"

definition contains_root :: "runtime \<Rightarrow> bytes \<Rightarrow> bytes \<Rightarrow> prog_error + bool" where
  "contains_root R data root =
     (if root = replicate 32 0 then Inr False
      else bindE (slice_from DISCRIMINATOR data) (\<lambda>buf.
           require (zc_from_bytes R TREE_HEIGHT buf) (PoolErr TreeError) (
           Inr (list_ex (\<lambda>known_root. known_root = root) (zc_roots R TREE_HEIGHT buf)))))"

section \<open>What the adapter relies on\<close>

definition light_spec ::
    "runtime \<Rightarrow> node_hash \<Rightarrow> nat \<Rightarrow> (bytes \<Rightarrow> bytes list option) \<Rightarrow> bool" where
  "light_spec R H h lv \<longleftrightarrow>
     (\<forall>buf. length buf = zc_size_in_account R h CHANGELOG_SIZE ROOTS_SIZE CANOPY \<longrightarrow>
        (\<exists>t u. zc_from_bytes_init R h buf h CANOPY CHANGELOG_SIZE ROOTS_SIZE = Some t \<and>
               zc_tree_init R h t = Some u \<and> lv u = Some [])) \<and>
     (\<forall>buf ls. lv buf = Some ls \<longrightarrow>
        zc_from_bytes R h buf \<and> zc_next_index R buf = length ls \<and>
        set (zc_roots R h buf) = set (recent_roots H h ROOTS_SIZE ls)) \<and>
     (\<forall>buf ls leaf t. lv buf = Some ls \<longrightarrow> zc_append R h buf leaf = Some t \<longrightarrow>
        length ls < 2 ^ h \<and> lv t = Some (ls @ [leaf])) \<and>
     (\<forall>buf ls leaf. lv buf = Some ls \<longrightarrow> length ls < 2 ^ h \<longrightarrow> is_scalar leaf \<longrightarrow>
        zc_append R h buf leaf \<noteq> None)"

text \<open>The leaves of a tree account's data.\<close>

definition tree_leaves :: "(bytes \<Rightarrow> bytes list option) \<Rightarrow> bytes \<Rightarrow> bytes list option" where
  "tree_leaves lv data =
     (if length data < DISCRIMINATOR then None else lv (drop DISCRIMINATOR data))"

definition tree_ok :: "(bytes \<Rightarrow> bytes list option) \<Rightarrow> bytes \<Rightarrow> bool" where
  "tree_ok lv data \<longleftrightarrow> tree_leaves lv data \<noteq> None"

lemma light_specD:
  assumes "light_spec R H h lv"
  shows light_init: "length buf = zc_size_in_account R h CHANGELOG_SIZE ROOTS_SIZE CANOPY \<Longrightarrow>
          \<exists>t u. zc_from_bytes_init R h buf h CANOPY CHANGELOG_SIZE ROOTS_SIZE = Some t \<and>
                zc_tree_init R h t = Some u \<and> lv u = Some []"
    and light_from_bytes: "lv buf = Some ls \<Longrightarrow> zc_from_bytes R h buf"
    and light_next_index: "lv buf = Some ls \<Longrightarrow> zc_next_index R buf = length ls"
    and light_roots: "lv buf = Some ls \<Longrightarrow> set (zc_roots R h buf) = set (recent_roots H h ROOTS_SIZE ls)"
    and light_append: "lv buf = Some ls \<Longrightarrow> zc_append R h buf leaf = Some t \<Longrightarrow>
          length ls < 2 ^ h \<and> lv t = Some (ls @ [leaf])"
    and light_append_total: "lv buf = Some ls \<Longrightarrow> length ls < 2 ^ h \<Longrightarrow> is_scalar leaf \<Longrightarrow>
          \<exists>t. zc_append R h buf leaf = Some t"
  using assms by (auto simp: light_spec_def)

lemma tree_leaves_Some:
  "tree_leaves lv data = Some ls \<longleftrightarrow> DISCRIMINATOR \<le> length data \<and> lv (drop DISCRIMINATOR data) = Some ls"
  by (auto simp: tree_leaves_def)

section \<open>Behaviour of the adapter\<close>

lemma initialize_with_height_fresh:
  assumes "light_spec R H h lv"
    and "length data = DISCRIMINATOR + zc_size_in_account R h CHANGELOG_SIZE ROOTS_SIZE CANOPY"
  shows "\<exists>data'. initialize_with_height R h data = Inr data' \<and> tree_leaves lv data' = Some []"
proof -
  obtain t u where "zc_from_bytes_init R h (drop DISCRIMINATOR data) h CANOPY CHANGELOG_SIZE ROOTS_SIZE = Some t"
      "zc_tree_init R h t = Some u" "lv u = Some []"
    using light_init [OF assms(1), of "drop DISCRIMINATOR data"] assms(2) by auto
  with assms(2) show ?thesis
    by (simp add: initialize_with_height_def slice_from_def tree_leaves_Some)
qed

lemma append_with_height_ok:
  assumes "light_spec R H h lv" "tree_leaves lv data = Some ls"
    and "append_with_height R h data leaf = Inr (i, data')"
  shows "tree_leaves lv data' = Some (ls @ [leaf]) \<and> unat i = length ls \<and> length ls < 2 ^ h"
  using assms light_append [OF assms(1), of "drop DISCRIMINATOR data" ls leaf]
    light_next_index [OF assms(1), of "drop DISCRIMINATOR data" ls]
  by (auto simp: append_with_height_def slice_from_def Let_def tree_leaves_Some
      u64_try_from_eq_Some split: if_splits)

lemma append_with_height_total:
  assumes "light_spec R H h lv" "tree_leaves lv data = Some ls" "h < 64"
    and "length ls < 2 ^ h" "is_scalar leaf"
  shows "\<exists>i data'. append_with_height R h data leaf = Inr (i, data')"
proof -
  let ?buf = "drop DISCRIMINATOR data"
  have lv: "lv ?buf = Some ls" "\<not> length data < DISCRIMINATOR"
    using assms(2) by (auto simp: tree_leaves_Some)
  obtain t where "zc_append R h ?buf leaf = Some t"
    using light_append_total [OF assms(1) lv(1) assms(4,5)] by blast
  moreover have "length ls < 2 ^ 64"
    using assms(3,4) by (meson less_le_trans power_increasing less_imp_le one_le_numeral)
  ultimately show ?thesis
    using lv light_from_bytes [OF assms(1) lv(1)] light_next_index [OF assms(1) lv(1)]
    by (simp add: append_with_height_def slice_from_def u64_try_from_def)
qed

text \<open>A full tree refuses with \<open>TreeError\<close>; the index never wraps.\<close>

lemma append_with_height_full:
  assumes "light_spec R H h lv" "tree_leaves lv data = Some ls" "2 ^ h \<le> length ls"
  shows "append_with_height R h data leaf = Inl (PoolErr TreeError)"
proof -
  let ?buf = "drop DISCRIMINATOR data"
  have lv: "lv ?buf = Some ls" "\<not> length data < DISCRIMINATOR"
    using assms(2) by (auto simp: tree_leaves_Some)
  have "zc_append R h ?buf leaf = None"
    using light_append [OF assms(1) lv(1), of leaf] assms(3) by (cases "zc_append R h ?buf leaf") auto
  then show ?thesis
    using lv light_from_bytes [OF assms(1) lv(1)]
    by (simp add: append_with_height_def slice_from_def)
qed

interpretation tree_log: commitment_log
  "\<lambda>data. light_spec R H h lv \<and> h < 64 \<and> tree_ok lv data" "\<lambda>data. the (tree_leaves lv data)"
  "2 ^ h" "append_with_height R h" for R H h lv
proof unfold_locales
  show "(light_spec R H h lv \<and> h < 64 \<and> tree_ok lv t) \<and>
      the (tree_leaves lv t) = the (tree_leaves lv s) @ [l] \<and> unat i = length (the (tree_leaves lv s))"
    and "length (the (tree_leaves lv s)) < 2 ^ h"
    if "light_spec R H h lv \<and> h < 64 \<and> tree_ok lv s" "append_with_height R h s l = Inr (i, t)" for s l i t
    using that append_with_height_ok [of R H h lv s _ l i t] by (auto simp: tree_ok_def)
  show "\<exists>i t. append_with_height R h s l = Inr (i, t)"
    if "light_spec R H h lv \<and> h < 64 \<and> tree_ok lv s" "length (the (tree_leaves lv s)) < 2 ^ h"
      "is_scalar l" for s l
    using that append_with_height_total [of R H h lv s _ l] by (auto simp: tree_ok_def)
qed

text \<open>
  Inserting a commitment: on a tree with room, the leaf and the event that announces its exact
  position, a position that a \<open>u64\<close> holds without wrapping; on a full tree the error.
\<close>

lemma insert_commitment_free:
  assumes "light_spec R H TREE_HEIGHT lv" "accts w a = Some (TreeAccount data)"
    and "tree_leaves lv data = Some ls" "length ls < 2 ^ TREE_HEIGHT" "is_scalar cm"
  shows "\<exists>i data'. insert_commitment R a cm note w =
      Inr (emit (NewCommitment \<lparr>nc_commitment = cm, nc_leaf_index = i, nc_encrypted_note = note\<rparr>)
        (put_account a (TreeAccount data') w)) \<and>
    unat i = length ls \<and> tree_leaves lv data' = Some (ls @ [cm])"
proof -
  obtain i data' where app: "append_with_height R TREE_HEIGHT data cm = Inr (i, data')"
    using append_with_height_total [OF assms(1,3) TREE_HEIGHT_small assms(4,5)] by blast
  then have "insert_commitment R a cm note w =
      Inr (emit (NewCommitment \<lparr>nc_commitment = cm, nc_leaf_index = i, nc_encrypted_note = note\<rparr>)
        (put_account a (TreeAccount data') w))"
    by (simp add: insert_commitment_def tree_data_def append_leaf_def assms(2))
  with append_with_height_ok [OF assms(1,3) app] show ?thesis by blast
qed

lemma insert_commitment_full:
  assumes "light_spec R H TREE_HEIGHT lv" "accts w a = Some (TreeAccount data)"
    and "tree_leaves lv data = Some ls" "2 ^ TREE_HEIGHT \<le> length ls"
  shows "insert_commitment R a cm note w = Inl (PoolErr TreeError)"
  using append_with_height_full [OF assms(1,3,4)]
  by (simp add: insert_commitment_def tree_data_def append_leaf_def assms(2))

text \<open>The root check is membership in the window of recent roots, without the zero root.\<close>

lemma contains_root_iff:
  assumes "light_spec R H TREE_HEIGHT lv" "tree_leaves lv data = Some ls"
  shows "contains_root R data root =
    Inr (root \<noteq> replicate 32 0 \<and> root \<in> set (recent_roots H TREE_HEIGHT ROOTS_SIZE ls))"
proof -
  let ?buf = "drop DISCRIMINATOR data"
  have lv: "lv ?buf = Some ls" "\<not> length data < DISCRIMINATOR"
    using assms(2) by (auto simp: tree_leaves_Some)
  show ?thesis
    using lv light_from_bytes [OF assms(1) lv(1)] light_roots [OF assms(1) lv(1)]
    by (auto simp: contains_root_def slice_from_def list_ex_iff)
qed

end
