(* ===== verification/Pool_Accounts.thy ===== *)
theory Pool_Accounts
  imports Pool_Verifier Pool_Tree
begin

text \<open>
  What the account attributes of the three instructions mean: loading a typed account,
  creating one (\<open>init\<close>), the seeds and token constraints, and the token transfers the
  handlers make. Anchor first loads every field that is not \<open>init\<close>, then creates the
  \<open>init\<close> fields, then checks the constraints of the loaded fields, each group in
  declaration order; the instruction theories keep that order. The writable flags of the
  account list and the lamport balances are not modelled: \<open>sys_create\<close> decides whether
  a creation can be paid for.
\<close>

section \<open>Loading and creating accounts\<close>

fun as_pool :: "account \<Rightarrow> pool option" where
  "as_pool (PoolAccount p) = Some p"
| "as_pool _ = None"

fun as_tree :: "account \<Rightarrow> bytes option" where
  "as_tree (TreeAccount d) = Some d"
| "as_tree _ = None"

fun as_token :: "account \<Rightarrow> token_account option" where
  "as_token (TokenAccount t) = Some t"
| "as_token _ = None"

fun as_mint :: "account \<Rightarrow> mint_account option" where
  "as_mint (MintAccount m) = Some m"
| "as_mint _ = None"

fun as_program_data :: "account \<Rightarrow> pubkey option option" where
  "as_program_data (ProgramDataAccount a) = Some a"
| "as_program_data _ = None"

fun is_executable :: "account \<Rightarrow> bool" where
  "is_executable (ProgramAccount _) = True"
| "is_executable _ = False"

lemma as_eq_Some [simp]:
  "as_pool x = Some p \<longleftrightarrow> x = PoolAccount p"
  "as_tree x = Some d \<longleftrightarrow> x = TreeAccount d"
  "as_token x = Some t \<longleftrightarrow> x = TokenAccount t"
  "as_mint x = Some m \<longleftrightarrow> x = MintAccount m"
  "as_program_data x = Some a \<longleftrightarrow> x = ProgramDataAccount a"
  by (cases x; simp)+

definition load :: "(account \<Rightarrow> 'a option) \<Rightarrow> accounts \<Rightarrow> pubkey \<Rightarrow> prog_error + 'a" where
  "load as accs a =
     (case accs a of
        None \<Rightarrow> Inl (AnchorErr AccountNotInitialized)
      | Some x \<Rightarrow> ok_or (AnchorErr AccountDiscriminatorMismatch) (as x))"

definition load_program :: "accounts \<Rightarrow> pubkey \<Rightarrow> pubkey \<Rightarrow> prog_error + pubkey option" where
  "load_program accs expected a =
     require (a = expected) (AnchorErr InvalidProgramId) (
     case accs a of
        Some (ProgramAccount programdata) \<Rightarrow> Inr programdata
      | _ \<Rightarrow> Inl (AnchorErr InvalidProgramExecutable))"

definition executable :: "accounts \<Rightarrow> pubkey \<Rightarrow> bool" where
  "executable accs a \<longleftrightarrow> (case accs a of None \<Rightarrow> False | Some x \<Rightarrow> is_executable x)"

definition init_account ::
    "runtime \<Rightarrow> accounts \<Rightarrow> pubkey \<Rightarrow> pubkey \<Rightarrow> nat \<Rightarrow> account \<Rightarrow> prog_error + accounts" where
  "init_account R accs payer a space x =
     require (accs a = None) (AnchorErr AccountInUse) (
     require (sys_create R accs payer a space) CpiError (
     Inr (accs(a \<mapsto> x))))"

text \<open>\<open>init\<close> with \<open>seeds\<close> and \<open>bump\<close>: the canonical address, then the creation.\<close>

definition init_pda ::
    "runtime \<Rightarrow> accounts \<Rightarrow> pubkey \<Rightarrow> bytes list \<Rightarrow> pubkey \<Rightarrow> nat \<Rightarrow> account \<Rightarrow> prog_error + accounts" where
  "init_pda R accs payer seeds a space x =
     require (fst (find_program_address R seeds pool_program_id) = a) (AnchorErr ConstraintSeeds) (
     init_account R accs payer a space x)"

text \<open>\<open>init\<close> with \<open>associated_token\<close>: the token account is created at its associated address.\<close>

definition init_ata ::
    "runtime \<Rightarrow> accounts \<Rightarrow> pubkey \<Rightarrow> pubkey \<Rightarrow> pubkey \<Rightarrow> pubkey \<Rightarrow> prog_error + accounts" where
  "init_ata R accs payer wallet mint a =
     require (ata_address R wallet mint = a) CpiError (
     init_account R accs payer a 165
       (TokenAccount \<lparr>ta_mint = mint, ta_owner = wallet, ta_amount = 0, ta_frozen = False\<rparr>))"

lemma load_eq_Inr [simp, result_simps]:
  "load as accs a = Inr v \<longleftrightarrow> (\<exists>x. accs a = Some x \<and> as x = Some v)"
  by (auto simp: load_def split: option.splits)

lemma load_program_eq_Inr [simp, result_simps]:
  "load_program accs e a = Inr d \<longleftrightarrow> a = e \<and> accs a = Some (ProgramAccount d)"
  by (auto simp: load_program_def split: option.splits account.splits)

lemma executable_iff: "executable accs a \<longleftrightarrow> (\<exists>d. accs a = Some (ProgramAccount d))"
  by (auto simp: executable_def split: option.splits elim: is_executable.elims)

lemma load_program_executable:
  "(\<exists>d. load_program accs e a = Inr d) \<longleftrightarrow> a = e \<and> executable accs a"
  by (auto simp: load_program_def executable_def require_def split: option.splits account.splits)

lemma init_account_eq_Inr [simp, result_simps]:
  "init_account R accs payer a space x = Inr accs' \<longleftrightarrow>
     accs a = None \<and> sys_create R accs payer a space \<and> accs' = accs(a \<mapsto> x)"
  by (auto simp: init_account_def)

lemma init_pda_eq_Inr [simp, result_simps]:
  "init_pda R accs payer seeds a space x = Inr accs' \<longleftrightarrow>
     fst (find_program_address R seeds pool_program_id) = a \<and> accs a = None \<and>
     sys_create R accs payer a space \<and> accs' = accs(a \<mapsto> x)"
  by (auto simp: init_pda_def)

lemma init_ata_eq_Inr [simp, result_simps]:
  "init_ata R accs payer wallet mint a = Inr accs' \<longleftrightarrow>
     ata_address R wallet mint = a \<and> accs a = None \<and> sys_create R accs payer a 165 \<and>
     accs' = accs(a \<mapsto>
       TokenAccount \<lparr>ta_mint = mint, ta_owner = wallet, ta_amount = 0, ta_frozen = False\<rparr>)"
  by (auto simp: init_ata_def)

section \<open>Addresses of the pool\<close>

definition pool_seeds :: "bytes list" where
  "pool_seeds = [ascii ''pool'', VERSION_SEED]"

definition tree_seeds :: "pubkey \<Rightarrow> bytes list" where
  "tree_seeds pool = [ascii ''tree'', pool]"

definition nullifier_seeds :: "pubkey \<Rightarrow> bytes \<Rightarrow> bytes list" where
  "nullifier_seeds pool nullifier = [ascii ''nullifier'', pool, nullifier]"

definition pool_address :: "runtime \<Rightarrow> pubkey" where
  "pool_address R = fst (find_program_address R pool_seeds pool_program_id)"

definition tree_address :: "runtime \<Rightarrow> pubkey" where
  "tree_address R = fst (find_program_address R (tree_seeds (pool_address R)) pool_program_id)"

definition nullifier_address :: "runtime \<Rightarrow> bytes \<Rightarrow> pubkey" where
  "nullifier_address R n =
     fst (find_program_address R (nullifier_seeds (pool_address R) n) pool_program_id)"

text \<open>\<open>seeds = [b"pool", VERSION_SEED], bump = pool.bump\<close> on an existing pool.\<close>

definition pool_seeds_ok :: "runtime \<Rightarrow> pubkey \<Rightarrow> pool \<Rightarrow> bool" where
  "pool_seeds_ok R a p \<longleftrightarrow>
     create_program_address R (pool_seeds @ [[pool_bump p]]) pool_program_id = Some a"

definition tree_seeds_ok :: "runtime \<Rightarrow> pubkey \<Rightarrow> pubkey \<Rightarrow> bool" where
  "tree_seeds_ok R pool a \<longleftrightarrow> fst (find_program_address R (tree_seeds pool) pool_program_id) = a"

section \<open>Token transfers\<close>

definition token_transfer ::
    "runtime \<Rightarrow> pubkey \<Rightarrow> pubkey \<Rightarrow> pubkey \<Rightarrow> pubkey \<Rightarrow> u64 \<Rightarrow> u8 \<Rightarrow> world \<Rightarrow> prog_error + world" where
  "token_transfer R from_a mint to_a authority amount decimals w =
     bindE (ok_or CpiError (transfer_checked R (accts w) from_a mint to_a authority amount decimals))
       (\<lambda>accs. Inr (w\<lparr>accts := accs\<rparr>))"

text \<open>
  The documented effect of \<open>TransferChecked\<close>: both accounts hold the mint and are not
  frozen, the decimals agree, the amount is available and fits the destination; the two
  balances change and nothing else does. It succeeds when in addition the authority owns
  the source.
\<close>

definition transfer_conditions ::
    "accounts \<Rightarrow> pubkey \<Rightarrow> pubkey \<Rightarrow> pubkey \<Rightarrow> u64 \<Rightarrow> u8 \<Rightarrow> token_account \<Rightarrow> token_account \<Rightarrow> bool" where
  "transfer_conditions accs from_a mint to_a amount decimals f t \<longleftrightarrow>
     accs from_a = Some (TokenAccount f) \<and> accs to_a = Some (TokenAccount t) \<and>
     ta_mint f = mint \<and> ta_mint t = mint \<and> \<not> ta_frozen f \<and> \<not> ta_frozen t \<and>
     accs mint = Some (MintAccount \<lparr>mint_decimals = decimals\<rparr>) \<and>
     unat amount \<le> unat (ta_amount f) \<and>
     (from_a \<noteq> to_a \<longrightarrow> unat (ta_amount t) + unat amount < 2 ^ 64)"

definition transferred ::
    "accounts \<Rightarrow> pubkey \<Rightarrow> pubkey \<Rightarrow> u64 \<Rightarrow> token_account \<Rightarrow> token_account \<Rightarrow> accounts" where
  "transferred accs from_a to_a amount f t =
     (if from_a = to_a then accs
      else accs(from_a \<mapsto> TokenAccount (f\<lparr>ta_amount := ta_amount f - amount\<rparr>),
                to_a \<mapsto> TokenAccount (t\<lparr>ta_amount := ta_amount t + amount\<rparr>)))"

definition spl_spec :: "runtime \<Rightarrow> bool" where
  "spl_spec R \<longleftrightarrow>
     (\<forall>accs from_a mint to_a authority amount decimals accs'.
        transfer_checked R accs from_a mint to_a authority amount decimals = Some accs' \<longrightarrow>
        (\<exists>f t. transfer_conditions accs from_a mint to_a amount decimals f t \<and>
               accs' = transferred accs from_a to_a amount f t)) \<and>
     (\<forall>accs from_a mint to_a amount decimals f t.
        transfer_conditions accs from_a mint to_a amount decimals f t \<longrightarrow>
        transfer_checked R accs from_a mint to_a (ta_owner f) amount decimals \<noteq> None)"

lemma transfer_conditions_accounts:
  assumes "transfer_conditions accs x y z n d f t"
  shows "accs x = Some (TokenAccount f)" "accs z = Some (TokenAccount t)"
    "accs y = Some (MintAccount \<lparr>mint_decimals = d\<rparr>)" "n \<le> ta_amount f"
  using assms by (auto simp: transfer_conditions_def word_le_nat_alt)

lemma token_transfer_eq_Inr [result_simps]:
  "token_transfer R from_a mint to_a authority amount decimals w = Inr w' \<longleftrightarrow>
     (\<exists>accs. transfer_checked R (accts w) from_a mint to_a authority amount decimals = Some accs \<and>
             w' = w\<lparr>accts := accs\<rparr>)"
  by (auto simp: token_transfer_def)

lemma token_transfer_effect:
  assumes "spl_spec R"
    and "token_transfer R from_a mint to_a authority amount decimals w = Inr w'"
  obtains f t where "transfer_conditions (accts w) from_a mint to_a amount decimals f t"
    and "w' = w\<lparr>accts := transferred (accts w) from_a to_a amount f t\<rparr>"
  using assms unfolding spl_spec_def token_transfer_eq_Inr by blast

lemma token_transfer_total:
  assumes "spl_spec R" "transfer_conditions (accts w) from_a mint to_a amount decimals f t"
  shows "token_transfer R from_a mint to_a (ta_owner f) amount decimals w =
    Inr (w\<lparr>accts := transferred (accts w) from_a to_a amount f t\<rparr>)"
proof -
  obtain accs where accs:
    "transfer_checked R (accts w) from_a mint to_a (ta_owner f) amount decimals = Some accs"
    using assms unfolding spl_spec_def by blast
  then obtain f' t' where "transfer_conditions (accts w) from_a mint to_a amount decimals f' t'"
      and "accs = transferred (accts w) from_a to_a amount f' t'"
    using assms(1) unfolding spl_spec_def by blast
  with assms(2) have "accs = transferred (accts w) from_a to_a amount f t"
    by (simp add: transfer_conditions_def)
  with accs show ?thesis by (simp add: token_transfer_eq_Inr)
qed

text \<open>Program-derived addresses: the canonical bump recreates the found address.\<close>

definition pda_spec :: "runtime \<Rightarrow> bool" where
  "pda_spec R \<longleftrightarrow>
     (\<forall>seeds program a bump. find_program_address R seeds program = (a, bump) \<longrightarrow>
        create_program_address R (seeds @ [[bump]]) program = Some a)"

section \<open>Balances\<close>

definition balance :: "accounts \<Rightarrow> pubkey \<Rightarrow> nat" where
  "balance accs a = (case accs a of Some (TokenAccount t) \<Rightarrow> unat (ta_amount t) | _ \<Rightarrow> 0)"

lemma balance_token [simp]: "accs a = Some (TokenAccount t) \<Longrightarrow> balance accs a = unat (ta_amount t)"
  by (simp add: balance_def)

lemma balance_upd [simp]:
  "balance (accs(a \<mapsto> x)) b =
     (if b = a then case x of TokenAccount t \<Rightarrow> unat (ta_amount t) | _ \<Rightarrow> 0 else balance accs b)"
  by (simp add: balance_def)

lemma transferred_balances:
  assumes "transfer_conditions accs from_a mint to_a amount decimals f t" "from_a \<noteq> to_a"
  shows "balance (transferred accs from_a to_a amount f t) from_a = balance accs from_a - unat amount"
    and "balance (transferred accs from_a to_a amount f t) to_a = balance accs to_a + unat amount"
    and "a \<noteq> from_a \<Longrightarrow> a \<noteq> to_a \<Longrightarrow>
      transferred accs from_a to_a amount f t a = accs a"
proof -
  have "amount \<le> ta_amount f"
    using assms by (simp add: transfer_conditions_def word_le_nat_alt)
  then have sub: "unat (ta_amount f - amount) = unat (ta_amount f) - unat amount"
    by (rule unat_sub)
  have add: "unat (ta_amount t + amount) = unat (ta_amount t) + unat amount"
    using assms by (simp add: transfer_conditions_def unat_word_ariths)
  show "balance (transferred accs from_a to_a amount f t) from_a = balance accs from_a - unat amount"
    and "balance (transferred accs from_a to_a amount f t) to_a = balance accs to_a + unat amount"
    and "a \<noteq> from_a \<Longrightarrow> a \<noteq> to_a \<Longrightarrow> transferred accs from_a to_a amount f t a = accs a"
    using assms sub add by (auto simp: transferred_def transfer_conditions_def)
qed

text \<open>A transfer leaves every account that is not a token account as it was.\<close>

lemma transferred_frame:
  assumes "transfer_conditions accs from_a mint to_a amount decimals f t"
    and "\<And>k. accs a \<noteq> Some (TokenAccount k)"
  shows "transferred accs from_a to_a amount f t a = accs a"
  using assms by (auto simp: transferred_def transfer_conditions_def)

end
