(* ===== verification/Pool_Initialize.thy ===== *)
theory Pool_Initialize
  imports Pool_Accounts
begin

text \<open>
  \<open>init_pool\<close> (\<^verbatim>\<open>instructions/initialize.rs\<close>): the account constraints of
  \<open>InitPool\<close>, the handler, and the two composed as the program entry runs them.
\<close>

record init_pool_ctx =
  ip_pool :: pubkey
  ip_tree :: pubkey
  ip_mint :: pubkey
  ip_vault :: pubkey
  ip_verifier_program :: pubkey
  ip_authority :: pubkey
  ip_pool_program :: pubkey
  ip_program_data :: pubkey
  ip_token_program :: pubkey
  ip_associated_token_program :: pubkey
  ip_system_program :: pubkey
  ip_signers :: "pubkey list"

text \<open>\<open>8 + Pool::INIT_SPACE\<close>, and the zeroed account that \<open>init\<close> hands to the handler.\<close>

definition POOL_SPACE :: nat where "POOL_SPACE = 8 + (32 + (32 + 32) + 32 + 1)"

definition zeroed_pool :: pool where
  "zeroed_pool =
     \<lparr>pool_verifier = replicate 32 0, pool_asset = \<lparr>asset_mint = replicate 32 0, asset_id = replicate 32 0\<rparr>,
      pool_domain = replicate 32 0, pool_bump = 0\<rparr>"

text \<open>\<open>InitPool\<close>: the loaded accounts, the three created ones, the constraints.\<close>

definition init_pool_created :: "runtime \<Rightarrow> init_pool_ctx \<Rightarrow> accounts \<Rightarrow> prog_error + accounts" where
  "init_pool_created R c accs =
     bindE (init_pda R accs (ip_authority c) pool_seeds (ip_pool c) POOL_SPACE
        (PoolAccount zeroed_pool)) (\<lambda>accs.
     bindE (init_pda R accs (ip_authority c) (tree_seeds (ip_pool c)) (ip_tree c) (account_space R)
        (TreeAccount (replicate (account_space R) 0))) (\<lambda>accs.
     init_ata R accs (ip_authority c) (ip_pool c) (ip_mint c) (ip_vault c)))"

definition init_pool_accounts ::
    "runtime \<Rightarrow> init_pool_ctx \<Rightarrow> accounts \<Rightarrow> prog_error + (u8 \<times> accounts)" where
  "init_pool_accounts R c accs =
     bindE (load as_mint accs (ip_mint c)) (\<lambda>_.
     require (ip_authority c \<in> set (ip_signers c)) (AnchorErr AccountNotSigner) (
     bindE (load_program accs pool_program_id (ip_pool_program c)) (\<lambda>programdata_address.
     bindE (load as_program_data accs (ip_program_data c)) (\<lambda>upgrade_authority_address.
     bindE (load_program accs (token_program_id R) (ip_token_program c)) (\<lambda>_.
     bindE (load_program accs (ata_program_id R) (ip_associated_token_program c)) (\<lambda>_.
     bindE (load_program accs (system_program_id R) (ip_system_program c)) (\<lambda>_.
     bindE (init_pool_created R c accs) (\<lambda>accs'.
     require (executable accs' (ip_verifier_program c)) (AnchorErr ConstraintExecutable) (
     require (programdata_address = Some (ip_program_data c)) (PoolErr UnauthorizedInitializer) (
     require (upgrade_authority_address = Some (ip_authority c)) (PoolErr UnauthorizedInitializer) (
     Inr (snd (find_program_address R pool_seeds pool_program_id), accs'))))))))))))"

text \<open>The handler fills the pool in and formats the tree.\<close>

definition init_pool_handle ::
    "runtime \<Rightarrow> 'fr crypto \<Rightarrow> init_pool_ctx \<Rightarrow> u8 \<Rightarrow> bytes \<Rightarrow> world \<Rightarrow> prog_error + world" where
  "init_pool_handle R L c bump domain w =
     bindE (asset_id_of L (ip_mint c)) (\<lambda>id.
     let pool = \<lparr>pool_verifier = ip_verifier_program c,
                 pool_asset = \<lparr>asset_mint = ip_mint c, asset_id = id\<rparr>,
                 pool_domain = domain, pool_bump = bump\<rparr>;
         w = put_account (ip_pool c) (PoolAccount pool) w
     in bindE (tree_data w (ip_tree c)) (\<lambda>data.
        bindE (initialize R data) (\<lambda>data'.
        Inr (put_account (ip_tree c) (TreeAccount data') w))))"

definition init_pool ::
    "runtime \<Rightarrow> 'fr crypto \<Rightarrow> init_pool_ctx \<Rightarrow> bytes \<Rightarrow> world \<Rightarrow> prog_error + world" where
  "init_pool R L c domain w =
     bindE (init_pool_accounts R c (accts w)) (\<lambda>(bump, accs).
     init_pool_handle R L c bump domain (w\<lparr>accts := accs\<rparr>))"

section \<open>Behaviour\<close>

text \<open>The configuration a successful call writes.\<close>

definition configured_pool :: "runtime \<Rightarrow> init_pool_ctx \<Rightarrow> bytes \<Rightarrow> bytes \<Rightarrow> pool" where
  "configured_pool R c aid domain =
     \<lparr>pool_verifier = ip_verifier_program c,
      pool_asset = \<lparr>asset_mint = ip_mint c, asset_id = aid\<rparr>,
      pool_domain = domain,
      pool_bump = snd (find_program_address R pool_seeds pool_program_id)\<rparr>"

lemma init_pool_created_eq_Inr:
  "init_pool_created R c accs = Inr accs' \<Longrightarrow>
     ip_pool c = pool_address R \<and> ip_tree c = tree_address R \<and>
     ip_vault c = ata_address R (pool_address R) (ip_mint c) \<and>
     accs (ip_pool c) = None \<and> accs (ip_tree c) = None \<and> accs (ip_vault c) = None \<and>
     distinct [ip_pool c, ip_tree c, ip_vault c] \<and>
     accs' = accs(ip_pool c \<mapsto> PoolAccount zeroed_pool,
                  ip_tree c \<mapsto> TreeAccount (replicate (account_space R) 0),
                  ip_vault c \<mapsto> TokenAccount \<lparr>ta_mint = ip_mint c, ta_owner = ip_pool c,
                                   ta_amount = 0, ta_frozen = False\<rparr>)"
  by (auto simp: init_pool_created_def pool_address_def tree_address_def split: if_splits)

lemma init_pool_accounts_eq_Inr:
  assumes "init_pool_accounts R c accs = Inr (bump, accs')"
  shows "ip_authority c \<in> set (ip_signers c)"
    and "accs pool_program_id = Some (ProgramAccount (Some (ip_program_data c)))"
    and "accs (ip_program_data c) = Some (ProgramDataAccount (Some (ip_authority c)))"
    and "init_pool_created R c accs = Inr accs'"
    and "bump = snd (find_program_address R pool_seeds pool_program_id)"
    and "executable accs' (ip_verifier_program c)"
    and "\<exists>m. accs (ip_mint c) = Some (MintAccount m)"
  using assms by (auto simp: init_pool_accounts_def)

text \<open>
  Everything a successful initialization changes: the three accounts did not exist, and now
  hold the configuration, a formatted tree and an empty vault owned by the pool.
\<close>

lemma init_pool_eq_Inr:
  assumes "init_pool R L c domain w = Inr w'"
  obtains aid data where
    "ip_pool c = pool_address R" and "ip_tree c = tree_address R"
    and "ip_vault c = ata_address R (pool_address R) (ip_mint c)"
    and "accts w (ip_pool c) = None" and "accts w (ip_tree c) = None" and "accts w (ip_vault c) = None"
    and "distinct [ip_pool c, ip_tree c, ip_vault c]"
    and "asset_id_of L (ip_mint c) = Inr aid"
    and "initialize R (replicate (account_space R) 0) = Inr data"
    and "accts w' = (accts w)(ip_pool c \<mapsto> PoolAccount (configured_pool R c aid domain),
           ip_tree c \<mapsto> TreeAccount data,
           ip_vault c \<mapsto> TokenAccount \<lparr>ta_mint = ip_mint c, ta_owner = ip_pool c,
                            ta_amount = 0, ta_frozen = False\<rparr>)"
    and "events w' = events w"
proof -
  obtain bump accs where acc: "init_pool_accounts R c (accts w) = Inr (bump, accs)"
    and h: "init_pool_handle R L c bump domain (w\<lparr>accts := accs\<rparr>) = Inr w'"
    using assms by (auto simp: init_pool_def)
  note a = init_pool_accounts_eq_Inr [OF acc]
  note cr = init_pool_created_eq_Inr [OF a(4)]
  obtain aid data where aid: "asset_id_of L (ip_mint c) = Inr aid"
    and data: "initialize R (replicate (account_space R) 0) = Inr data"
    and w': "w' = put_account (ip_tree c) (TreeAccount data)
               (put_account (ip_pool c) (PoolAccount (configured_pool R c aid domain)) (w\<lparr>accts := accs\<rparr>))"
    using h cr a(5) by (auto simp: init_pool_handle_def Let_def tree_data_def configured_pool_def
        split: option.splits account.splits if_splits)
  show thesis
  proof (rule that [OF _ _ _ _ _ _ _ aid data])
    show "accts w' = (accts w)(ip_pool c \<mapsto> PoolAccount (configured_pool R c aid domain),
           ip_tree c \<mapsto> TreeAccount data,
           ip_vault c \<mapsto> TokenAccount \<lparr>ta_mint = ip_mint c, ta_owner = ip_pool c,
                            ta_amount = 0, ta_frozen = False\<rparr>)"
      using w' cr by (auto simp: fun_upd_def)
  qed (use w' cr in auto)
qed

text \<open>
  Exactly when an initialisation is accepted, in terms of the call and the state alone: the seeds,
  the sizes and the authorities are written out here, not taken from the code.
\<close>

definition init_addresses_ok :: "runtime \<Rightarrow> init_pool_ctx \<Rightarrow> bool" where
  "init_addresses_ok R c \<longleftrightarrow>
     ip_pool c = fst (find_program_address R [ascii ''pool'', ascii ''v4''] pool_program_id) \<and>
     ip_tree c = fst (find_program_address R [ascii ''tree'', ip_pool c] pool_program_id) \<and>
     ip_vault c = ata_address R (ip_pool c) (ip_mint c) \<and>
     distinct [ip_pool c, ip_tree c, ip_vault c]"

text \<open>The System program can create the three accounts one after the other, at their sizes.\<close>

definition init_creatable :: "runtime \<Rightarrow> init_pool_ctx \<Rightarrow> accounts \<Rightarrow> bool" where
  "init_creatable R c accs \<longleftrightarrow>
     (let accs1 = accs(ip_pool c \<mapsto> PoolAccount zeroed_pool);
          accs2 = accs1(ip_tree c \<mapsto> TreeAccount (replicate (account_space R) 0))
      in sys_create R accs (ip_authority c) (ip_pool c) 137 \<and>
         sys_create R accs1 (ip_authority c) (ip_tree c) (account_space R) \<and>
         sys_create R accs2 (ip_authority c) (ip_vault c) 165)"

definition init_pool_enabled :: "runtime \<Rightarrow> init_pool_ctx \<Rightarrow> accounts \<Rightarrow> bool" where
  "init_pool_enabled R c accs \<longleftrightarrow>
     (\<exists>m. accs (ip_mint c) = Some (MintAccount m)) \<and> ip_authority c \<in> set (ip_signers c) \<and>
     ip_pool_program c = pool_program_id \<and>
     accs pool_program_id = Some (ProgramAccount (Some (ip_program_data c))) \<and>
     accs (ip_program_data c) = Some (ProgramDataAccount (Some (ip_authority c))) \<and>
     ip_token_program c = token_program_id R \<and> executable accs (ip_token_program c) \<and>
     ip_associated_token_program c = ata_program_id R \<and> executable accs (ip_associated_token_program c) \<and>
     ip_system_program c = system_program_id R \<and> executable accs (ip_system_program c) \<and>
     executable accs (ip_verifier_program c) \<and> init_addresses_ok R c \<and>
     accs (ip_pool c) = None \<and> accs (ip_tree c) = None \<and> accs (ip_vault c) = None \<and>
     init_creatable R c accs"

lemma executable_init_created:
  assumes "init_pool_created R c accs = Inr accs'"
  shows "executable accs' x = executable accs x"
  using init_pool_created_eq_Inr [OF assms] by (auto simp: executable_def)

lemma init_pool_created_iff:
  "(\<exists>accs'. init_pool_created R c accs = Inr accs') \<longleftrightarrow>
     init_addresses_ok R c \<and> accs (ip_pool c) = None \<and> accs (ip_tree c) = None \<and>
     accs (ip_vault c) = None \<and> init_creatable R c accs"
  by (auto simp: init_pool_created_def init_addresses_ok_def init_creatable_def Let_def pool_seeds_def
      tree_seeds_def VERSION_SEED_def POOL_SPACE_def split: if_splits)

lemma init_pool_accounts_iff:
  "init_pool_accounts R c accs = Inr (bump, accs') \<longleftrightarrow>
     init_pool_enabled R c accs \<and> init_pool_created R c accs = Inr accs' \<and>
     bump = snd (find_program_address R pool_seeds pool_program_id)"
proof -
  have "init_pool_created R c accs = Inr accs' \<Longrightarrow> init_addresses_ok R c \<and> accs (ip_pool c) = None \<and>
      accs (ip_tree c) = None \<and> accs (ip_vault c) = None \<and> init_creatable R c accs"
    using init_pool_created_iff by blast
  then show ?thesis
    using executable_init_created [of R c accs accs' "ip_verifier_program c"]
    unfolding init_pool_accounts_def init_pool_enabled_def
    by (auto simp: executable_iff)
qed

lemma init_pool_succeeds:
  assumes "light_spec R H TREE_HEIGHT lv" "poseidon_spec L" "length (ip_mint c) = 32"
    and "init_pool_enabled R c (accts w)"
  shows "\<exists>w'. init_pool R L c domain w = Inr w'"
proof -
  obtain accs where cr: "init_pool_created R c (accts w) = Inr accs"
    using assms(4) init_pool_created_iff [of R c "accts w"] unfolding init_pool_enabled_def by blast
  note at = init_pool_created_eq_Inr [OF cr]
  obtain aid where aid: "asset_id_of L (ip_mint c) = Inr aid"
    using asset_id_of_total [OF assms(2,3)] by blast
  obtain data where "initialize R (replicate (account_space R) 0) = Inr data"
    using initialize_with_height_fresh [OF assms(1), of "replicate (account_space R) 0"]
    by (auto simp: initialize_def account_space_def)
  moreover have "init_pool_accounts R c (accts w) =
      Inr (snd (find_program_address R pool_seeds pool_program_id), accs)"
    using assms(4) cr by (simp add: init_pool_accounts_iff)
  ultimately show ?thesis
    using aid at by (auto simp: init_pool_def init_pool_handle_def tree_data_def Let_def)
qed

lemma init_pool_only_enabled: "init_pool R L c domain w = Inr w' \<Longrightarrow> init_pool_enabled R c (accts w)"
  by (auto simp: init_pool_def init_pool_accounts_iff)

text \<open>
  The whole effect of an initialisation: the configuration the caller gave, with the asset
  identifier of the mint and the canonical bump, an empty tree, and an empty vault of the mint
  that the pool owns; no event, and no other account changes.
\<close>

definition init_pool_effect ::
    "runtime \<Rightarrow> 'fr crypto \<Rightarrow> (bytes \<Rightarrow> bytes list option) \<Rightarrow> init_pool_ctx \<Rightarrow> bytes \<Rightarrow> world \<Rightarrow> world \<Rightarrow> bool" where
  "init_pool_effect R L lv c domain w w' \<longleftrightarrow>
     (\<exists>aid data. asset_id_of L (ip_mint c) = Inr aid \<and> tree_leaves lv data = Some [] \<and>
        accts w' = (accts w)(
          ip_pool c \<mapsto> PoolAccount
            \<lparr>pool_verifier = ip_verifier_program c,
             pool_asset = \<lparr>asset_mint = ip_mint c, asset_id = aid\<rparr>, pool_domain = domain,
             pool_bump = snd (find_program_address R [ascii ''pool'', ascii ''v4''] pool_program_id)\<rparr>,
          ip_tree c \<mapsto> TreeAccount data,
          ip_vault c \<mapsto> TokenAccount
            \<lparr>ta_mint = ip_mint c, ta_owner = ip_pool c, ta_amount = 0, ta_frozen = False\<rparr>)) \<and>
     events w' = events w"

lemma init_pool_has_effect:
  assumes "light_spec R H TREE_HEIGHT lv" "init_pool R L c domain w = Inr w'"
  shows "init_pool_effect R L lv c domain w w'"
  using assms(2)
proof (rule init_pool_eq_Inr)
  fix aid data
  assume aid: "asset_id_of L (ip_mint c) = Inr aid"
    and data: "initialize R (replicate (account_space R) 0) = Inr data"
    and w': "accts w' = (accts w)(ip_pool c \<mapsto> PoolAccount (configured_pool R c aid domain),
           ip_tree c \<mapsto> TreeAccount data,
           ip_vault c \<mapsto> TokenAccount \<lparr>ta_mint = ip_mint c, ta_owner = ip_pool c,
                            ta_amount = 0, ta_frozen = False\<rparr>)" "events w' = events w"
  have "tree_leaves lv data = Some []"
    using initialize_with_height_fresh [OF assms(1), of "replicate (account_space R) 0"] data
    by (auto simp: initialize_def account_space_def)
  with aid w' show ?thesis
    unfolding init_pool_effect_def configured_pool_def pool_seeds_def VERSION_SEED_def by blast
qed

end
