(* ===== verification/Pool_Shield.thy ===== *)
theory Pool_Shield
  imports Pool_Accounts
begin

text \<open>
  \<open>shield\<close> (\<^verbatim>\<open>instructions/shield.rs\<close>): a public deposit that becomes a hidden
  note. The account constraints of \<open>Shield\<close>, the handler, and the two composed.
\<close>

record shield_ctx =
  sh_pool :: pubkey
  sh_tree :: pubkey
  sh_vault :: pubkey
  sh_mint :: pubkey
  sh_depositor :: pubkey
  sh_depositor_ata :: pubkey
  sh_token_program :: pubkey
  sh_signers :: "pubkey list"

text \<open>
  The constraints of \<open>Shield\<close>; the handler gets the pool and the mint as they were loaded.
\<close>

definition shield_accounts ::
    "runtime \<Rightarrow> shield_ctx \<Rightarrow> accounts \<Rightarrow> prog_error + (pool \<times> mint_account)" where
  "shield_accounts R c accs =
     bindE (load as_pool accs (sh_pool c)) (\<lambda>pool.
     bindE (load as_tree accs (sh_tree c)) (\<lambda>_.
     bindE (load as_token accs (sh_vault c)) (\<lambda>vault.
     bindE (load as_mint accs (sh_mint c)) (\<lambda>mint.
     require (sh_depositor c \<in> set (sh_signers c)) (AnchorErr AccountNotSigner) (
     bindE (load as_token accs (sh_depositor_ata c)) (\<lambda>depositor_ata.
     bindE (load_program accs (token_program_id R) (sh_token_program c)) (\<lambda>_.
     require (pool_seeds_ok R (sh_pool c) pool) (AnchorErr ConstraintSeeds) (
     require (tree_seeds_ok R (sh_pool c) (sh_tree c)) (AnchorErr ConstraintSeeds) (
     require (ta_owner vault = sh_pool c) (AnchorErr ConstraintTokenOwner) (
     require (ata_address R (sh_pool c) (sh_mint c) = sh_vault c) (AnchorErr ConstraintAssociated) (
     require (sh_mint c = asset_mint (pool_asset pool)) (AnchorErr ConstraintAddress) (
     require (ta_owner depositor_ata = sh_depositor c) (AnchorErr ConstraintTokenOwner) (
     require (ta_mint depositor_ata = sh_mint c) (AnchorErr ConstraintTokenMint) (
     Inr (pool, mint)))))))))))))))"

definition note_commitment :: "'fr crypto \<Rightarrow> bytes \<Rightarrow> bytes \<Rightarrow> u64 \<Rightarrow> prog_error + bytes" where
  "note_commitment L npk asset amount =
     poseidon L [u64_be32 NOTE_DOMAIN, npk, asset, u64_be32 amount]"

definition shield_handle ::
    "runtime \<Rightarrow> 'fr crypto \<Rightarrow> shield_ctx \<Rightarrow> pool \<Rightarrow> mint_account \<Rightarrow> bytes \<Rightarrow> u64 \<Rightarrow> bytes \<Rightarrow>
     world \<Rightarrow> prog_error + world" where
  "shield_handle R L c pool mint npk amount encrypted_note w =
     require (amount > 0) (PoolErr ZeroAmount) (
     require (is_canonical_field L npk) (PoolErr InvalidField) (
     require (length encrypted_note \<le> MAX_ENCRYPTED_NOTE_LEN) (PoolErr NoteTooLarge) (
     bindE (token_transfer R (sh_depositor_ata c) (sh_mint c) (sh_vault c) (sh_depositor c)
        amount (mint_decimals mint) w) (\<lambda>w.
     bindE (note_commitment L npk (asset_id (pool_asset pool)) amount) (\<lambda>commitment.
     insert_commitment R (sh_tree c) commitment encrypted_note w)))))"

definition shield ::
    "runtime \<Rightarrow> 'fr crypto \<Rightarrow> shield_ctx \<Rightarrow> bytes \<Rightarrow> u64 \<Rightarrow> bytes \<Rightarrow> world \<Rightarrow> prog_error + world" where
  "shield R L c npk amount encrypted_note w =
     bindE (shield_accounts R c (accts w)) (\<lambda>(pool, mint).
     shield_handle R L c pool mint npk amount encrypted_note w)"

section \<open>Behaviour\<close>

text \<open>What the constraints of \<open>Shield\<close> guarantee to the handler.\<close>

definition shield_accounts_ok ::
    "runtime \<Rightarrow> shield_ctx \<Rightarrow> accounts \<Rightarrow> pool \<Rightarrow> mint_account \<Rightarrow> token_account \<Rightarrow> token_account \<Rightarrow> bool" where
  "shield_accounts_ok R c accs p m v d \<longleftrightarrow>
     accs (sh_pool c) = Some (PoolAccount p) \<and> (\<exists>t. accs (sh_tree c) = Some (TreeAccount t)) \<and>
     accs (sh_vault c) = Some (TokenAccount v) \<and> accs (sh_mint c) = Some (MintAccount m) \<and>
     accs (sh_depositor_ata c) = Some (TokenAccount d) \<and>
     sh_depositor c \<in> set (sh_signers c) \<and>
     pool_seeds_ok R (sh_pool c) p \<and> tree_seeds_ok R (sh_pool c) (sh_tree c) \<and>
     ta_owner v = sh_pool c \<and> ata_address R (sh_pool c) (sh_mint c) = sh_vault c \<and>
     sh_mint c = asset_mint (pool_asset p) \<and>
     ta_owner d = sh_depositor c \<and> ta_mint d = sh_mint c \<and>
     sh_token_program c = token_program_id R \<and> executable accs (sh_token_program c)"

lemma shield_accounts_iff:
  "shield_accounts R c accs = Inr (p, m) \<longleftrightarrow> (\<exists>v d. shield_accounts_ok R c accs p m v d)"
  unfolding shield_accounts_def shield_accounts_ok_def load_program_executable [symmetric] by auto

lemma shield_accounts_eq_Inr:
  assumes "shield_accounts R c accs = Inr (p, m)"
  obtains v d where "shield_accounts_ok R c accs p m v d"
  using assms shield_accounts_iff by blast

text \<open>
  A successful deposit: the transfer, then the commitment of the note appended to the tree,
  with the event that announces its index.
\<close>

lemma shield_eq_Inr:
  assumes "spl_spec R" and "shield R L c npk amount note w = Inr w'"
  obtains p m v d f t data i data' commitment where
    "shield_accounts_ok R c (accts w) p m v d"
    and "0 < amount" and "is_canonical_field L npk" and "length note \<le> MAX_ENCRYPTED_NOTE_LEN"
    and "transfer_conditions (accts w) (sh_depositor_ata c) (sh_mint c) (sh_vault c) amount
           (mint_decimals m) f t"
    and "note_commitment L npk (asset_id (pool_asset p)) amount = Inr commitment"
    and "accts w (sh_tree c) = Some (TreeAccount data)"
    and "append_leaf R data commitment = Inr (i, data')"
    and "accts w' = (transferred (accts w) (sh_depositor_ata c) (sh_vault c) amount f t)
           (sh_tree c \<mapsto> TreeAccount data')"
    and "events w' = events w @ [NewCommitment
           \<lparr>nc_commitment = commitment, nc_leaf_index = i, nc_encrypted_note = note\<rparr>]"
proof -
  obtain p m where acc: "shield_accounts R c (accts w) = Inr (p, m)"
    and h: "shield_handle R L c p m npk amount note w = Inr w'"
    using assms(2) by (auto simp: shield_def)
  obtain v d where ok: "shield_accounts_ok R c (accts w) p m v d"
    using shield_accounts_eq_Inr [OF acc] .
  obtain data where tree: "accts w (sh_tree c) = Some (TreeAccount data)"
    using ok by (auto simp: shield_accounts_ok_def)
  obtain w1 commitment where guards: "0 < amount" "is_canonical_field L npk"
      "length note \<le> MAX_ENCRYPTED_NOTE_LEN"
    and tr: "token_transfer R (sh_depositor_ata c) (sh_mint c) (sh_vault c) (sh_depositor c)
        amount (mint_decimals m) w = Inr w1"
    and cm: "note_commitment L npk (asset_id (pool_asset p)) amount = Inr commitment"
    and ins: "insert_commitment R (sh_tree c) commitment note w1 = Inr w'"
    using h by (auto simp: shield_handle_def)
  obtain f t where tc: "transfer_conditions (accts w) (sh_depositor_ata c) (sh_mint c) (sh_vault c)
        amount (mint_decimals m) f t"
    and w1: "w1 = w\<lparr>accts := transferred (accts w) (sh_depositor_ata c) (sh_vault c) amount f t\<rparr>"
    using token_transfer_effect [OF assms(1) tr] .
  have "accts w1 (sh_tree c) = Some (TreeAccount data)"
    using transferred_frame [OF tc, of "sh_tree c"] tree w1 by simp
  then obtain i data' where app: "append_leaf R data commitment = Inr (i, data')"
    and w': "w' = emit (NewCommitment \<lparr>nc_commitment = commitment, nc_leaf_index = i,
        nc_encrypted_note = note\<rparr>) (put_account (sh_tree c) (TreeAccount data') w1)"
    using ins by (auto simp: insert_commitment_def tree_data_def)
  show thesis
    by (rule that [OF ok guards tc cm tree app]) (simp_all add: w' w1)
qed

text \<open>Exactly when a deposit is accepted, on a tree that holds the leaves \<open>ls\<close>.\<close>

lemma note_commitment_total:
  assumes "poseidon_spec L" "is_scalar npk" "is_scalar aid"
  shows "\<exists>cm. note_commitment L npk aid amount = Inr cm \<and> is_scalar cm"
proof -
  obtain cm where cm: "poseidon_hashv L [u64_be32 NOTE_DOMAIN, npk, aid, u64_be32 amount] = Some cm"
    using poseidon_total [OF assms(1), of "[u64_be32 NOTE_DOMAIN, npk, aid, u64_be32 amount]"] assms
    by auto
  with poseidon_scalar [OF assms(1) cm] show ?thesis
    by (simp add: note_commitment_def poseidon_def)
qed

text \<open>
  What a deposit has to meet before it reaches the tree; and that it then does reach it, with all
  its effects made except for the leaf, so that only the tree decides.
\<close>

definition shield_admissible ::
    "runtime \<Rightarrow> shield_ctx \<Rightarrow> bytes \<Rightarrow> u64 \<Rightarrow> bytes \<Rightarrow> accounts \<Rightarrow> bool" where
  "shield_admissible R c npk amount note accs \<longleftrightarrow>
     (\<exists>p m v d f t. shield_accounts_ok R c accs p m v d \<and>
        0 < amount \<and> be_val npk < bn254_r \<and> length note \<le> MAX_ENCRYPTED_NOTE_LEN \<and>
        transfer_conditions accs (sh_depositor_ata c) (sh_mint c) (sh_vault c) amount
          (mint_decimals m) f t)"

definition shield_enabled ::
    "runtime \<Rightarrow> (bytes \<Rightarrow> bytes list option) \<Rightarrow> shield_ctx \<Rightarrow> bytes \<Rightarrow> u64 \<Rightarrow> bytes \<Rightarrow> accounts \<Rightarrow> bool" where
  "shield_enabled R lv c npk amount note accs \<longleftrightarrow>
     (\<exists>p m v d f t data ls. shield_accounts_ok R c accs p m v d \<and>
        0 < amount \<and> be_val npk < bn254_r \<and> length note \<le> MAX_ENCRYPTED_NOTE_LEN \<and>
        transfer_conditions accs (sh_depositor_ata c) (sh_mint c) (sh_vault c) amount
          (mint_decimals m) f t \<and>
        accs (sh_tree c) = Some (TreeAccount data) \<and> tree_leaves lv data = Some ls \<and>
        length ls < 2 ^ TREE_HEIGHT)"

lemma shield_enabled_admissible:
  "shield_enabled R lv c npk amount note accs \<longleftrightarrow>
     shield_admissible R c npk amount note accs \<and>
     (\<exists>data ls. accs (sh_tree c) = Some (TreeAccount data) \<and> tree_leaves lv data = Some ls \<and>
        length ls < 2 ^ TREE_HEIGHT)"
  unfolding shield_enabled_def shield_admissible_def by blast

lemma shield_reaches_tree:
  assumes specs: "spl_spec R" "fr_spec L" "poseidon_spec L"
    and wf: "length npk = 32" "\<And>p. accts w (sh_pool c) = Some (PoolAccount p) \<Longrightarrow> is_scalar (asset_id (pool_asset p))"
    and ad: "shield_admissible R c npk amount note (accts w)"
    and tree: "accts w (sh_tree c) = Some (TreeAccount data)"
  obtains cm w1 where "is_scalar cm"
    and "shield R L c npk amount note w = insert_commitment R (sh_tree c) cm note w1"
    and "accts w1 (sh_tree c) = Some (TreeAccount data)" and "events w1 = events w"
proof -
  obtain p m v d f t where ok: "shield_accounts_ok R c (accts w) p m v d"
    and g: "0 < amount" "be_val npk < bn254_r" "length note \<le> MAX_ENCRYPTED_NOTE_LEN"
    and tc: "transfer_conditions (accts w) (sh_depositor_ata c) (sh_mint c) (sh_vault c) amount
        (mint_decimals m) f t"
    using ad unfolding shield_admissible_def by blast
  have npk: "is_canonical_field L npk" "is_scalar npk"
    using g wf is_canonical_field_iff [OF specs(2)] by (auto simp: is_scalar_def)
  obtain cm where cm: "note_commitment L npk (asset_id (pool_asset p)) amount = Inr cm" "is_scalar cm"
    using note_commitment_total [OF specs(3) npk(2)] wf ok by (auto simp: shield_accounts_ok_def)
  have "f = d" using ok transfer_conditions_accounts(1) [OF tc] by (simp add: shield_accounts_ok_def)
  then have "ta_owner f = sh_depositor c" using ok by (simp add: shield_accounts_ok_def)
  note tr = token_transfer_total [OF specs(1) tc, unfolded this]
  have acc: "shield_accounts R c (accts w) = Inr (p, m)"
    using ok shield_accounts_iff by blast
  have "transferred (accts w) (sh_depositor_ata c) (sh_vault c) amount f t (sh_tree c) = Some (TreeAccount data)"
    using transferred_frame [OF tc, of "sh_tree c"] tree by simp
  with acc tr g npk(1) cm that show thesis
    by (simp add: shield_def shield_handle_def)
qed

lemma shield_at_capacity:
  assumes specs: "spl_spec R" "light_spec R H TREE_HEIGHT lv" "fr_spec L" "poseidon_spec L"
    and wf: "length npk = 32" "\<And>p. accts w (sh_pool c) = Some (PoolAccount p) \<Longrightarrow> is_scalar (asset_id (pool_asset p))"
    and ad: "shield_admissible R c npk amount note (accts w)"
    and tree: "accts w (sh_tree c) = Some (TreeAccount data)" "tree_leaves lv data = Some ls"
  shows "if length ls < 2 ^ TREE_HEIGHT
    then \<exists>w' nc. shield R L c npk amount note w = Inr w' \<and>
      events w' = events w @ [NewCommitment nc] \<and> unat (nc_leaf_index nc) = length ls
    else shield R L c npk amount note w = Inl (PoolErr TreeError)"
proof -
  obtain cm w1 where cm: "is_scalar cm"
    and run: "shield R L c npk amount note w = insert_commitment R (sh_tree c) cm note w1"
    and w1: "accts w1 (sh_tree c) = Some (TreeAccount data)" "events w1 = events w"
    using shield_reaches_tree [OF specs(1,3,4) wf ad tree(1)] by blast
  show ?thesis
    using insert_commitment_free [OF specs(2) w1(1) tree(2) _ cm, of "note"]
      insert_commitment_full [OF specs(2) w1(1) tree(2), of cm "note"] run w1(2)
    by auto
qed

lemma shield_succeeds:
  assumes specs: "spl_spec R" "light_spec R H TREE_HEIGHT lv" "fr_spec L" "poseidon_spec L"
    and wf: "length npk = 32" "\<And>p. accts w (sh_pool c) = Some (PoolAccount p) \<Longrightarrow> is_scalar (asset_id (pool_asset p))"
    and en: "shield_enabled R lv c npk amount note (accts w)"
  shows "\<exists>w'. shield R L c npk amount note w = Inr w'"
proof -
  obtain data ls where ad: "shield_admissible R c npk amount note (accts w)"
    and "accts w (sh_tree c) = Some (TreeAccount data)" "tree_leaves lv data = Some ls"
      "length ls < 2 ^ TREE_HEIGHT"
    using en unfolding shield_enabled_admissible by blast
  with shield_at_capacity [OF specs wf ad this(2,3)] show ?thesis by auto
qed

lemma shield_only_enabled:
  assumes specs: "spl_spec R" "light_spec R H TREE_HEIGHT lv" "fr_spec L"
    and wf: "length npk = 32" "\<And>data. accts w (sh_tree c) = Some (TreeAccount data) \<Longrightarrow> tree_ok lv data"
    and ok: "shield R L c npk amount note w = Inr w'"
  shows "shield_enabled R lv c npk amount note (accts w)"
  using specs(1) ok
proof (rule shield_eq_Inr)
  fix p m v d f t data i data' commitment
  assume a: "shield_accounts_ok R c (accts w) p m v d" "0 < amount" "is_canonical_field L npk"
      "length note \<le> MAX_ENCRYPTED_NOTE_LEN"
      "transfer_conditions (accts w) (sh_depositor_ata c) (sh_mint c) (sh_vault c) amount
         (mint_decimals m) f t"
    and tree: "accts w (sh_tree c) = Some (TreeAccount data)"
    and app: "append_leaf R data commitment = Inr (i, data')"
  obtain ls where ls: "tree_leaves lv data = Some ls"
    using wf(2) [OF tree] by (auto simp: tree_ok_def)
  have "length ls < 2 ^ TREE_HEIGHT"
    using append_with_height_ok [OF specs(2) ls] app unfolding append_leaf_def by blast
  moreover have "be_val npk < bn254_r"
    using a(3) is_canonical_field_iff [OF specs(3) wf(1)] by simp
  ultimately show ?thesis
    unfolding shield_enabled_def using a tree ls by blast
qed

end
