(* ===== verification/Pool_Transact.thy ===== *)
theory Pool_Transact
  imports Pool_Accounts
begin

text \<open>
  \<open>transact\<close> (\<^verbatim>\<open>instructions/transact.rs\<close>): a spend of two notes into two new
  ones, with an optional public withdrawal. The binding hash of \<open>ExtData\<close>, the account
  constraints of \<open>Transact\<close>, the handler in its steps, and the composition.
\<close>

record ext_data =
  ed_recipient :: pubkey
  ed_encrypted_notes :: "bytes pair"

text \<open>The byte strings that \<open>ExtData::hash\<close> hashes, in order.\<close>

definition binding_slices ::
    "bytes \<Rightarrow> bytes \<Rightarrow> pubkey \<Rightarrow> pubkey \<Rightarrow> pubkey \<Rightarrow> pubkey \<Rightarrow> pubkey \<Rightarrow> i64 \<Rightarrow> u32 \<Rightarrow> bytes \<Rightarrow> u32 \<Rightarrow> bytes
     \<Rightarrow> bytes list" where
  "binding_slices tag domain program pool mint verifier recipient ext_amount first_len note0 second_len note1 =
     [tag, domain, program, pool, mint, verifier, recipient, u64_be ext_amount,
      u32_be first_len, note0, u32_be second_len, note1]"

definition ext_data_hash ::
    "'fr crypto \<Rightarrow> ext_data \<Rightarrow> bytes \<Rightarrow> pubkey \<Rightarrow> pubkey \<Rightarrow> pubkey \<Rightarrow> i64 \<Rightarrow> prog_error + bytes" where
  "ext_data_hash L ed domain pool mint verifier ext_amount =
     bindE (ok_or (PoolErr NoteTooLarge) (u32_try_from (length (fst (ed_encrypted_notes ed))))) (\<lambda>first_len.
     bindE (ok_or (PoolErr NoteTooLarge) (u32_try_from (length (snd (ed_encrypted_notes ed))))) (\<lambda>second_len.
     Inr (keccak_field L
       (binding_slices BINDING_DOMAIN domain pool_program_id pool mint verifier (ed_recipient ed)
          ext_amount first_len (fst (ed_encrypted_notes ed))
          second_len (snd (ed_encrypted_notes ed))))))"

record transact_ctx =
  tr_pool :: pubkey
  tr_tree :: pubkey
  tr_vault :: pubkey
  tr_mint :: pubkey
  tr_nullifier_0_record :: pubkey
  tr_nullifier_1_record :: pubkey
  tr_recipient_ata :: pubkey
  tr_verifier_program :: pubkey
  tr_payer :: pubkey
  tr_token_program :: pubkey
  tr_system_program :: pubkey
  tr_signers :: "pubkey list"

record transact_args =
  tx_proof :: bytes
  tx_root :: bytes
  tx_nullifiers :: "bytes pair"
  tx_out_commitments :: "bytes pair"
  tx_ext_amount :: i64
  tx_ext_data :: ext_data

definition NULLIFIER_SPACE :: nat where "NULLIFIER_SPACE = 8 + 32"

definition zeroed_nullifier :: account where
  "zeroed_nullifier = NullifierAccount \<lparr>nr_nullifier = replicate 32 0\<rparr>"

text \<open>What the handler reads of the accounts, as they were loaded.\<close>

record transact_loaded =
  tl_pool :: pool
  tl_tree :: bytes
  tl_vault :: token_account
  tl_mint :: mint_account
  tl_recipient :: token_account

definition transact_created ::
    "runtime \<Rightarrow> transact_ctx \<Rightarrow> bytes pair \<Rightarrow> accounts \<Rightarrow> prog_error + accounts" where
  "transact_created R c nullifiers accs =
     bindE (init_pda R accs (tr_payer c) (nullifier_seeds (tr_pool c) (fst nullifiers))
        (tr_nullifier_0_record c) NULLIFIER_SPACE zeroed_nullifier) (\<lambda>accs.
     init_pda R accs (tr_payer c) (nullifier_seeds (tr_pool c) (snd nullifiers))
        (tr_nullifier_1_record c) NULLIFIER_SPACE zeroed_nullifier)"

definition transact_loads ::
    "runtime \<Rightarrow> transact_ctx \<Rightarrow> accounts \<Rightarrow> prog_error + transact_loaded" where
  "transact_loads R c accs =
     bindE (load as_pool accs (tr_pool c)) (\<lambda>pool.
     bindE (load as_tree accs (tr_tree c)) (\<lambda>tree.
     bindE (load as_token accs (tr_vault c)) (\<lambda>vault.
     bindE (load as_mint accs (tr_mint c)) (\<lambda>mint.
     bindE (load as_token accs (tr_recipient_ata c)) (\<lambda>recipient.
     require (tr_payer c \<in> set (tr_signers c)) (AnchorErr AccountNotSigner) (
     bindE (load_program accs (token_program_id R) (tr_token_program c)) (\<lambda>_.
     bindE (load_program accs (system_program_id R) (tr_system_program c)) (\<lambda>_.
     Inr \<lparr>tl_pool = pool, tl_tree = tree, tl_vault = vault, tl_mint = mint,
          tl_recipient = recipient\<rparr>))))))))"

definition transact_constraints ::
    "runtime \<Rightarrow> transact_ctx \<Rightarrow> accounts \<Rightarrow> transact_loaded \<Rightarrow> prog_error + unit" where
  "transact_constraints R c accs l =
     require (pool_seeds_ok R (tr_pool c) (tl_pool l)) (AnchorErr ConstraintSeeds) (
     require (tree_seeds_ok R (tr_pool c) (tr_tree c)) (AnchorErr ConstraintSeeds) (
     require (ta_owner (tl_vault l) = tr_pool c) (AnchorErr ConstraintTokenOwner) (
     require (ata_address R (tr_pool c) (tr_mint c) = tr_vault c) (AnchorErr ConstraintAssociated) (
     require (tr_mint c = asset_mint (pool_asset (tl_pool l))) (AnchorErr ConstraintAddress) (
     require (ta_mint (tl_recipient l) = tr_mint c) (AnchorErr ConstraintTokenMint) (
     require (executable accs (tr_verifier_program c)) (AnchorErr ConstraintExecutable) (
     require (tr_verifier_program c = pool_verifier (tl_pool l)) (PoolErr WrongVerifier) (
     Inr ()))))))))"

definition transact_accounts ::
    "runtime \<Rightarrow> transact_ctx \<Rightarrow> bytes pair \<Rightarrow> accounts \<Rightarrow> prog_error + (transact_loaded \<times> accounts)" where
  "transact_accounts R c nullifiers accs =
     bindE (transact_loads R c accs) (\<lambda>l.
     bindE (transact_created R c nullifiers accs) (\<lambda>accs'.
     bindE (transact_constraints R c accs' l) (\<lambda>_.
     Inr (l, accs'))))"

text \<open>The checks of the arguments, in the handler's order.\<close>

definition both :: "('a \<Rightarrow> bool) \<Rightarrow> 'a pair \<Rightarrow> bool" where
  "both P p \<longleftrightarrow> P (fst p) \<and> P (snd p)"

definition check_arguments ::
    "'fr crypto \<Rightarrow> transact_ctx \<Rightarrow> transact_args \<Rightarrow> prog_error + unit" where
  "check_arguments L c a =
     require (sint (tx_ext_amount a) \<le> 0) (PoolErr ExtAmountMustBeNonPositive) (
     require (length (tx_proof a) = PROOF_BYTES) (PoolErr InvalidProofLength) (
     require (is_canonical_field L (tx_root a) \<and>
              both (is_canonical_field L) (tx_nullifiers a) \<and>
              both (is_canonical_field L) (tx_out_commitments a)) (PoolErr InvalidField) (
     require (both (\<lambda>n. n \<noteq> replicate 32 0) (tx_nullifiers a)) (PoolErr ZeroNullifier) (
     require (fst (tx_nullifiers a) \<noteq> snd (tx_nullifiers a)) (PoolErr DuplicateNullifier) (
     require (both (\<lambda>note. length note \<le> MAX_ENCRYPTED_NOTE_LEN)
                (ed_encrypted_notes (tx_ext_data a))) (PoolErr NoteTooLarge) (
     require (sint (tx_ext_amount a) < 0 \<longrightarrow> tr_recipient_ata c \<noteq> tr_vault c)
       (PoolErr SelfTransfer) (
     Inr ())))))))"

text \<open>The known root, the public inputs and the proof.\<close>

definition check_proof ::
    "runtime \<Rightarrow> 'fr crypto \<Rightarrow> transact_ctx \<Rightarrow> transact_loaded \<Rightarrow> transact_args \<Rightarrow> prog_error + unit" where
  "check_proof R L c l a =
     bindE (contains_root R (tl_tree l) (tx_root a)) (\<lambda>known.
     require known (PoolErr UnknownRoot) (
     let public_amount = public_amount_field L (scast (tx_ext_amount a)) in
     bindE (ext_data_hash L (tx_ext_data a) (pool_domain (tl_pool l)) (tr_pool c)
        (asset_mint (pool_asset (tl_pool l))) (pool_verifier (tl_pool l)) (tx_ext_amount a))
       (\<lambda>external_data_hash.
     let public_inputs = new_public_inputs (tx_root a) (tx_nullifiers a) (tx_out_commitments a)
           public_amount external_data_hash
     in verify R public_inputs (tr_verifier_program c) (tx_proof a))))"

definition record_nullifiers :: "transact_ctx \<Rightarrow> bytes pair \<Rightarrow> world \<Rightarrow> world" where
  "record_nullifiers c nullifiers w =
     put_account (tr_nullifier_1_record c) (NullifierAccount \<lparr>nr_nullifier = snd nullifiers\<rparr>)
       (put_account (tr_nullifier_0_record c) (NullifierAccount \<lparr>nr_nullifier = fst nullifiers\<rparr>) w)"

text \<open>
  The payout. The pool signs with its seeds and stored bump; the runtime accepts that
  signature only if they derive the pool's address.
\<close>

definition pay_out ::
    "runtime \<Rightarrow> transact_ctx \<Rightarrow> transact_loaded \<Rightarrow> transact_args \<Rightarrow> world \<Rightarrow> prog_error + world" where
  "pay_out R c l a w =
     (if sint (tx_ext_amount a) < 0
      then let withdrawal_amount = unsigned_abs (tx_ext_amount a) in
        require (ta_amount (tl_vault l) \<ge> withdrawal_amount) (PoolErr InsufficientVault) (
        require (ta_owner (tl_recipient l) = ed_recipient (tx_ext_data a)) (PoolErr RecipientMismatch) (
        require (pool_seeds_ok R (tr_pool c) (tl_pool l)) CpiError (
        token_transfer R (tr_vault c) (tr_mint c) (tr_recipient_ata c) (tr_pool c)
          withdrawal_amount (mint_decimals (tl_mint l)) w)))
      else Inr w)"

definition insert_outputs ::
    "runtime \<Rightarrow> transact_ctx \<Rightarrow> transact_args \<Rightarrow> world \<Rightarrow> prog_error + world" where
  "insert_outputs R c a w =
     bindE (insert_commitment R (tr_tree c) (fst (tx_out_commitments a))
        (fst (ed_encrypted_notes (tx_ext_data a))) w) (\<lambda>w.
     insert_commitment R (tr_tree c) (snd (tx_out_commitments a))
        (snd (ed_encrypted_notes (tx_ext_data a))) w)"

definition transact_handle ::
    "runtime \<Rightarrow> 'fr crypto \<Rightarrow> transact_ctx \<Rightarrow> transact_loaded \<Rightarrow> transact_args \<Rightarrow> world \<Rightarrow>
     prog_error + world" where
  "transact_handle R L c l a w =
     bindE (check_arguments L c a) (\<lambda>_.
     bindE (check_proof R L c l a) (\<lambda>_.
     bindE (pay_out R c l a (record_nullifiers c (tx_nullifiers a) w)) (\<lambda>w.
     bindE (insert_outputs R c a w) (\<lambda>w.
     Inr (emit (NewNullifier \<lparr>nn_nullifier = snd (tx_nullifiers a)\<rparr>)
           (emit (NewNullifier \<lparr>nn_nullifier = fst (tx_nullifiers a)\<rparr>) w))))))"

definition transact ::
    "runtime \<Rightarrow> 'fr crypto \<Rightarrow> transact_ctx \<Rightarrow> transact_args \<Rightarrow> world \<Rightarrow> prog_error + world" where
  "transact R L c a w =
     bindE (transact_accounts R c (tx_nullifiers a) (accts w)) (\<lambda>(l, accs).
     transact_handle R L c l a (w\<lparr>accts := accs\<rparr>))"

section \<open>Behaviour\<close>

text \<open>What the constraints of \<open>Transact\<close> guarantee to the handler.\<close>

definition transact_accounts_ok ::
    "runtime \<Rightarrow> transact_ctx \<Rightarrow> accounts \<Rightarrow> transact_loaded \<Rightarrow> bool" where
  "transact_accounts_ok R c accs l \<longleftrightarrow>
     accs (tr_pool c) = Some (PoolAccount (tl_pool l)) \<and>
     accs (tr_tree c) = Some (TreeAccount (tl_tree l)) \<and>
     accs (tr_vault c) = Some (TokenAccount (tl_vault l)) \<and>
     accs (tr_mint c) = Some (MintAccount (tl_mint l)) \<and>
     accs (tr_recipient_ata c) = Some (TokenAccount (tl_recipient l)) \<and>
     tr_payer c \<in> set (tr_signers c) \<and>
     pool_seeds_ok R (tr_pool c) (tl_pool l) \<and> tree_seeds_ok R (tr_pool c) (tr_tree c) \<and>
     ta_owner (tl_vault l) = tr_pool c \<and> ata_address R (tr_pool c) (tr_mint c) = tr_vault c \<and>
     tr_mint c = asset_mint (pool_asset (tl_pool l)) \<and> ta_mint (tl_recipient l) = tr_mint c \<and>
     tr_verifier_program c = pool_verifier (tl_pool l) \<and> executable accs (tr_verifier_program c) \<and>
     tr_token_program c = token_program_id R \<and> executable accs (tr_token_program c) \<and>
     tr_system_program c = system_program_id R \<and> executable accs (tr_system_program c)"

definition nullifiers_fresh ::
    "runtime \<Rightarrow> transact_ctx \<Rightarrow> bytes pair \<Rightarrow> accounts \<Rightarrow> bool" where
  "nullifiers_fresh R c ns accs \<longleftrightarrow>
     tr_nullifier_0_record c =
       fst (find_program_address R (nullifier_seeds (tr_pool c) (fst ns)) pool_program_id) \<and>
     tr_nullifier_1_record c =
       fst (find_program_address R (nullifier_seeds (tr_pool c) (snd ns)) pool_program_id) \<and>
     accs (tr_nullifier_0_record c) = None \<and> accs (tr_nullifier_1_record c) = None \<and>
     tr_nullifier_0_record c \<noteq> tr_nullifier_1_record c"

text \<open>The System program can create both records, the second after the first.\<close>

definition records_creatable :: "runtime \<Rightarrow> transact_ctx \<Rightarrow> accounts \<Rightarrow> bool" where
  "records_creatable R c accs \<longleftrightarrow>
     sys_create R accs (tr_payer c) (tr_nullifier_0_record c) NULLIFIER_SPACE \<and>
     sys_create R (accs(tr_nullifier_0_record c \<mapsto> zeroed_nullifier)) (tr_payer c)
       (tr_nullifier_1_record c) NULLIFIER_SPACE"

text \<open>The checks of \<open>check_arguments\<close> as one condition.\<close>

definition arguments_ok :: "'fr crypto \<Rightarrow> transact_ctx \<Rightarrow> transact_args \<Rightarrow> bool" where
  "arguments_ok L c a \<longleftrightarrow>
     sint (tx_ext_amount a) \<le> 0 \<and> length (tx_proof a) = PROOF_BYTES \<and>
     is_canonical_field L (tx_root a) \<and>
     both (is_canonical_field L) (tx_nullifiers a) \<and>
     both (is_canonical_field L) (tx_out_commitments a) \<and>
     both (\<lambda>n. n \<noteq> replicate 32 0) (tx_nullifiers a) \<and>
     fst (tx_nullifiers a) \<noteq> snd (tx_nullifiers a) \<and>
     both (\<lambda>note. length note \<le> MAX_ENCRYPTED_NOTE_LEN) (ed_encrypted_notes (tx_ext_data a)) \<and>
     (sint (tx_ext_amount a) < 0 \<longrightarrow> tr_recipient_ata c \<noteq> tr_vault c)"

text \<open>The public inputs the program assembles for the verifier.\<close>

definition assembled_inputs ::
    "'fr crypto \<Rightarrow> transact_args \<Rightarrow> bytes \<Rightarrow> public_inputs" where
  "assembled_inputs L a h =
     new_public_inputs (tx_root a) (tx_nullifiers a) (tx_out_commitments a)
       (public_amount_field L (scast (tx_ext_amount a))) h"

text \<open>The effect of the payout on the accounts.\<close>

definition paid_out ::
    "transact_ctx \<Rightarrow> transact_loaded \<Rightarrow> transact_args \<Rightarrow> accounts \<Rightarrow> accounts \<Rightarrow> bool" where
  "paid_out c l a accs accs' \<longleftrightarrow>
     (if sint (tx_ext_amount a) < 0
      then unsigned_abs (tx_ext_amount a) \<le> ta_amount (tl_vault l) \<and>
           ta_owner (tl_recipient l) = ed_recipient (tx_ext_data a) \<and>
           (\<exists>f t. transfer_conditions accs (tr_vault c) (tr_mint c) (tr_recipient_ata c)
                    (unsigned_abs (tx_ext_amount a)) (mint_decimals (tl_mint l)) f t \<and>
                  accs' = transferred accs (tr_vault c) (tr_recipient_ata c)
                    (unsigned_abs (tx_ext_amount a)) f t)
      else accs' = accs)"

definition spent :: "transact_ctx \<Rightarrow> bytes pair \<Rightarrow> accounts \<Rightarrow> accounts" where
  "spent c ns accs = accs(
     tr_nullifier_0_record c \<mapsto> NullifierAccount \<lparr>nr_nullifier = fst ns\<rparr>,
     tr_nullifier_1_record c \<mapsto> NullifierAccount \<lparr>nr_nullifier = snd ns\<rparr>)"

definition output_events :: "transact_args \<Rightarrow> u64 \<Rightarrow> u64 \<Rightarrow> event list" where
  "output_events a i j =
     [NewCommitment \<lparr>nc_commitment = fst (tx_out_commitments a), nc_leaf_index = i,
        nc_encrypted_note = fst (ed_encrypted_notes (tx_ext_data a))\<rparr>,
      NewCommitment \<lparr>nc_commitment = snd (tx_out_commitments a), nc_leaf_index = j,
        nc_encrypted_note = snd (ed_encrypted_notes (tx_ext_data a))\<rparr>,
      NewNullifier \<lparr>nn_nullifier = fst (tx_nullifiers a)\<rparr>,
      NewNullifier \<lparr>nn_nullifier = snd (tx_nullifiers a)\<rparr>]"

lemma check_arguments_eq_Inr [simp]: "check_arguments L c a = Inr u \<longleftrightarrow> arguments_ok L c a"
  by (auto simp: check_arguments_def arguments_ok_def)

lemma check_proof_eq_Inr:
  "check_proof R L c l a = Inr u \<longleftrightarrow>
     contains_root R (tl_tree l) (tx_root a) = Inr True \<and>
     (\<exists>h. ext_data_hash L (tx_ext_data a) (pool_domain (tl_pool l)) (tr_pool c)
            (asset_mint (pool_asset (tl_pool l))) (pool_verifier (tl_pool l)) (tx_ext_amount a) = Inr h \<and>
          cpi_invoke R (tr_verifier_program c) (tx_proof a @ encode (assembled_inputs L a h)))"
  by (auto simp: check_proof_def Let_def assembled_inputs_def)

lemma executable_created:
  assumes "accs a = None" "accs b = None"
  shows "executable (accs(a \<mapsto> zeroed_nullifier, b \<mapsto> zeroed_nullifier)) x = executable accs x"
  using assms by (auto simp: executable_def zeroed_nullifier_def)

lemma transact_loads_iff:
  "transact_loads R c accs = Inr l \<longleftrightarrow>
     accs (tr_pool c) = Some (PoolAccount (tl_pool l)) \<and>
     accs (tr_tree c) = Some (TreeAccount (tl_tree l)) \<and>
     accs (tr_vault c) = Some (TokenAccount (tl_vault l)) \<and>
     accs (tr_mint c) = Some (MintAccount (tl_mint l)) \<and>
     accs (tr_recipient_ata c) = Some (TokenAccount (tl_recipient l)) \<and>
     tr_payer c \<in> set (tr_signers c) \<and>
     (\<exists>d. load_program accs (token_program_id R) (tr_token_program c) = Inr d) \<and>
     (\<exists>d. load_program accs (system_program_id R) (tr_system_program c) = Inr d)"
  by (cases l) (auto simp: transact_loads_def)

lemma transact_created_iff:
  "transact_created R c ns accs = Inr accs' \<longleftrightarrow>
     nullifiers_fresh R c ns accs \<and> records_creatable R c accs \<and>
     accs' = accs(tr_nullifier_0_record c \<mapsto> zeroed_nullifier,
                  tr_nullifier_1_record c \<mapsto> zeroed_nullifier)"
  by (auto simp: transact_created_def nullifiers_fresh_def records_creatable_def split: if_splits)

lemma transact_accounts_iff:
  "transact_accounts R c ns accs = Inr (l, accs') \<longleftrightarrow>
     transact_accounts_ok R c accs l \<and> nullifiers_fresh R c ns accs \<and> records_creatable R c accs \<and>
     accs' = accs(tr_nullifier_0_record c \<mapsto> zeroed_nullifier,
                  tr_nullifier_1_record c \<mapsto> zeroed_nullifier)"
proof -
  have ex: "nullifiers_fresh R c ns accs \<Longrightarrow>
      executable (accs(tr_nullifier_0_record c \<mapsto> zeroed_nullifier,
        tr_nullifier_1_record c \<mapsto> zeroed_nullifier)) x = executable accs x" for x
    by (rule executable_created) (unfold nullifiers_fresh_def, blast+)
  show ?thesis
    by (auto simp: transact_accounts_def transact_loads_iff transact_created_iff
        transact_constraints_def transact_accounts_ok_def ex load_program_executable
        simp del: load_program_eq_Inr)
qed

lemma transact_accounts_eq_Inr:
  assumes "transact_accounts R c ns accs = Inr (l, accs')"
  shows "transact_accounts_ok R c accs l" and "nullifiers_fresh R c ns accs"
    and "accs' = accs(tr_nullifier_0_record c \<mapsto> zeroed_nullifier,
                      tr_nullifier_1_record c \<mapsto> zeroed_nullifier)"
  using assms by (auto simp: transact_accounts_iff)

lemma record_nullifiers_created:
  "accts (record_nullifiers c ns (w\<lparr>accts := accs(tr_nullifier_0_record c \<mapsto> zeroed_nullifier,
      tr_nullifier_1_record c \<mapsto> zeroed_nullifier)\<rparr>)) = spent c ns accs"
  "events (record_nullifiers c ns (w\<lparr>accts := accs'\<rparr>)) = events w"
  by (auto simp: record_nullifiers_def spent_def fun_upd_def)

lemma pay_out_eq_Inr:
  assumes "spl_spec R" and "pay_out R c l a w = Inr w'"
  shows "\<exists>accs. paid_out c l a (accts w) accs \<and> w' = w\<lparr>accts := accs\<rparr>"
proof (cases "sint (tx_ext_amount a) < 0")
  case True
  then have pay: "unsigned_abs (tx_ext_amount a) \<le> ta_amount (tl_vault l)"
      "ta_owner (tl_recipient l) = ed_recipient (tx_ext_data a)"
      "token_transfer R (tr_vault c) (tr_mint c) (tr_recipient_ata c) (tr_pool c)
         (unsigned_abs (tx_ext_amount a)) (mint_decimals (tl_mint l)) w = Inr w'"
    using assms(2) by (simp_all add: pay_out_def Let_def)
  from assms(1) pay(3) obtain f t where
    "transfer_conditions (accts w) (tr_vault c) (tr_mint c) (tr_recipient_ata c)
       (unsigned_abs (tx_ext_amount a)) (mint_decimals (tl_mint l)) f t"
    "w' = w\<lparr>accts := transferred (accts w) (tr_vault c) (tr_recipient_ata c)
       (unsigned_abs (tx_ext_amount a)) f t\<rparr>"
    by (rule token_transfer_effect)
  with True pay(1,2) show ?thesis unfolding paid_out_def by auto
next
  case False
  with assms(2) show ?thesis by (simp add: pay_out_def paid_out_def)
qed

lemma insert_commitment_eq_Inr:
  "insert_commitment R a cm note w = Inr w' \<longleftrightarrow>
     (\<exists>data i data'. accts w a = Some (TreeAccount data) \<and> append_leaf R data cm = Inr (i, data') \<and>
        w' = w\<lparr>accts := (accts w)(a \<mapsto> TreeAccount data'),
               events := events w @ [NewCommitment
                 \<lparr>nc_commitment = cm, nc_leaf_index = i, nc_encrypted_note = note\<rparr>]\<rparr>)"
  by (auto simp: insert_commitment_def tree_data_def emit_def put_account_def
      split: option.splits account.splits)

lemma insert_outputs_eq_Inr:
  "insert_outputs R c a w = Inr w' \<longleftrightarrow>
     (\<exists>data i data1 j data2. accts w (tr_tree c) = Some (TreeAccount data) \<and>
        append_leaf R data (fst (tx_out_commitments a)) = Inr (i, data1) \<and>
        append_leaf R data1 (snd (tx_out_commitments a)) = Inr (j, data2) \<and>
        w' = w\<lparr>accts := (accts w)(tr_tree c \<mapsto> TreeAccount data2),
               events := events w @ take 2 (output_events a i j)\<rparr>)"
  by (auto simp: insert_outputs_def insert_commitment_eq_Inr output_events_def)

text \<open>Everything a successful transaction went through and changed.\<close>

lemma transact_eq_Inr:
  assumes "spl_spec R" and "transact R L c a w = Inr w'"
  obtains l h accs i data1 j data2 where
    "transact_accounts_ok R c (accts w) l"
    and "nullifiers_fresh R c (tx_nullifiers a) (accts w)"
    and "arguments_ok L c a"
    and "contains_root R (tl_tree l) (tx_root a) = Inr True"
    and "ext_data_hash L (tx_ext_data a) (pool_domain (tl_pool l)) (tr_pool c)
           (asset_mint (pool_asset (tl_pool l))) (pool_verifier (tl_pool l)) (tx_ext_amount a) = Inr h"
    and "cpi_invoke R (tr_verifier_program c) (tx_proof a @ encode (assembled_inputs L a h))"
    and "paid_out c l a (spent c (tx_nullifiers a) (accts w)) accs"
    and "append_leaf R (tl_tree l) (fst (tx_out_commitments a)) = Inr (i, data1)"
    and "append_leaf R data1 (snd (tx_out_commitments a)) = Inr (j, data2)"
    and "accts w' = accs(tr_tree c \<mapsto> TreeAccount data2)"
    and "events w' = events w @ output_events a i j"
proof -
  obtain l accs0 where acc: "transact_accounts R c (tx_nullifiers a) (accts w) = Inr (l, accs0)"
    and h: "transact_handle R L c l a (w\<lparr>accts := accs0\<rparr>) = Inr w'"
    using assms(2) by (auto simp: transact_def)
  note ok = transact_accounts_eq_Inr [OF acc]
  let ?w1 = "record_nullifiers c (tx_nullifiers a) (w\<lparr>accts := accs0\<rparr>)"
  have w1: "accts ?w1 = spent c (tx_nullifiers a) (accts w)" "events ?w1 = events w"
    unfolding ok(3) record_nullifiers_created by (rule refl)+
  obtain u v w2 w3 where ch: "check_arguments L c a = Inr u" "check_proof R L c l a = Inr v"
    and pay: "pay_out R c l a ?w1 = Inr w2" and ins: "insert_outputs R c a w2 = Inr w3"
    and w': "w' = emit (NewNullifier \<lparr>nn_nullifier = snd (tx_nullifiers a)\<rparr>)
        (emit (NewNullifier \<lparr>nn_nullifier = fst (tx_nullifiers a)\<rparr>) w3)"
    using h by (auto simp: transact_handle_def)
  obtain accs where po: "paid_out c l a (spent c (tx_nullifiers a) (accts w)) accs"
    and w2: "w2 = ?w1\<lparr>accts := accs\<rparr>"
    using pay_out_eq_Inr [OF assms(1) pay] w1 by auto
  have "accs (tr_tree c) = Some (TreeAccount (tl_tree l))"
  proof -
    have sp: "spent c (tx_nullifiers a) (accts w) (tr_tree c) = Some (TreeAccount (tl_tree l))"
      using ok(1,2) by (auto simp: spent_def transact_accounts_ok_def nullifiers_fresh_def)
    with po show ?thesis
      using transferred_frame [where a = "tr_tree c" and accs = "spent c (tx_nullifiers a) (accts w)"]
      by (auto simp: paid_out_def split: if_splits)
  qed
  with ins w2 obtain i data1 j data2 where
    app: "append_leaf R (tl_tree l) (fst (tx_out_commitments a)) = Inr (i, data1)"
      "append_leaf R data1 (snd (tx_out_commitments a)) = Inr (j, data2)"
    and w3: "w3 = w2\<lparr>accts := accs(tr_tree c \<mapsto> TreeAccount data2),
        events := events w2 @ take 2 (output_events a i j)\<rparr>"
    by (auto simp: insert_outputs_eq_Inr)
  obtain hh where "contains_root R (tl_tree l) (tx_root a) = Inr True"
    "ext_data_hash L (tx_ext_data a) (pool_domain (tl_pool l)) (tr_pool c)
           (asset_mint (pool_asset (tl_pool l))) (pool_verifier (tl_pool l)) (tx_ext_amount a) = Inr hh"
    "cpi_invoke R (tr_verifier_program c) (tx_proof a @ encode (assembled_inputs L a hh))"
    using ch(2) by (auto simp: check_proof_eq_Inr)
  with that [OF ok(1,2) _ _ _ _ po app] ch(1) w3 w2 w1 w' show thesis
    by (simp add: output_events_def)
qed

text \<open>
  Exactly when a transaction is accepted, on a tree that holds the leaves \<open>ls\<close>. The
  withdrawal's conditions speak of the accounts as they are before the instruction: the two
  new nullifier accounts are neither of the token accounts.
\<close>

definition payable :: "transact_ctx \<Rightarrow> transact_loaded \<Rightarrow> transact_args \<Rightarrow> accounts \<Rightarrow> bool" where
  "payable c l a accs \<longleftrightarrow>
     (sint (tx_ext_amount a) < 0 \<longrightarrow>
        ta_owner (tl_recipient l) = ed_recipient (tx_ext_data a) \<and>
        transfer_conditions accs (tr_vault c) (tr_mint c) (tr_recipient_ata c)
          (unsigned_abs (tx_ext_amount a)) (mint_decimals (tl_mint l)) (tl_vault l) (tl_recipient l))"

definition proof_accepted ::
    "runtime \<Rightarrow> 'fr crypto \<Rightarrow> transact_ctx \<Rightarrow> transact_loaded \<Rightarrow> transact_args \<Rightarrow> bool" where
  "proof_accepted R L c l a \<longleftrightarrow>
     (\<exists>h. ext_data_hash L (tx_ext_data a) (pool_domain (tl_pool l)) (tr_pool c)
            (asset_mint (pool_asset (tl_pool l))) (pool_verifier (tl_pool l)) (tx_ext_amount a) = Inr h \<and>
          cpi_invoke R (pool_verifier (tl_pool l)) (tx_proof a @ encode (assembled_inputs L a h)))"

text \<open>What a spend has to meet before it reaches the tree, which holds the leaves \<open>ls\<close>.\<close>

definition transact_admissible ::
    "runtime \<Rightarrow> 'fr crypto \<Rightarrow> node_hash \<Rightarrow> bytes list \<Rightarrow> transact_loaded \<Rightarrow> transact_ctx \<Rightarrow>
     transact_args \<Rightarrow> accounts \<Rightarrow> bool" where
  "transact_admissible R L H ls l c a accs \<longleftrightarrow>
     transact_accounts_ok R c accs l \<and> nullifiers_fresh R c (tx_nullifiers a) accs \<and>
     records_creatable R c accs \<and> arguments_ok L c a \<and>
     tx_root a \<noteq> replicate 32 0 \<and> tx_root a \<in> set (recent_roots H TREE_HEIGHT ROOTS_SIZE ls) \<and>
     proof_accepted R L c l a \<and> payable c l a accs"

definition transact_enabled ::
    "runtime \<Rightarrow> 'fr crypto \<Rightarrow> node_hash \<Rightarrow> (bytes \<Rightarrow> bytes list option) \<Rightarrow> transact_ctx \<Rightarrow>
     transact_args \<Rightarrow> accounts \<Rightarrow> bool" where
  "transact_enabled R L H lv c a accs \<longleftrightarrow>
     (\<exists>l ls. transact_accounts_ok R c accs l \<and> nullifiers_fresh R c (tx_nullifiers a) accs \<and>
        records_creatable R c accs \<and> arguments_ok L c a \<and> tree_leaves lv (tl_tree l) = Some ls \<and>
        tx_root a \<noteq> replicate 32 0 \<and> tx_root a \<in> set (recent_roots H TREE_HEIGHT ROOTS_SIZE ls) \<and>
        proof_accepted R L c l a \<and> payable c l a accs \<and> length ls + 2 \<le> 2 ^ TREE_HEIGHT)"

lemma spent_other:
  assumes "nullifiers_fresh R c ns accs" "accs x = Some v"
  shows "spent c ns accs x = Some v"
proof -
  have "accs (tr_nullifier_0_record c) = None" "accs (tr_nullifier_1_record c) = None"
    using assms(1) unfolding nullifiers_fresh_def by blast+
  with assms(2) show ?thesis by (auto simp: spent_def)
qed

lemma transfer_conditions_spent:
  assumes "nullifiers_fresh R c ns accs"
    and "accs x = Some (TokenAccount f)" "accs z = Some (TokenAccount t)" "accs y = Some (MintAccount m)"
  shows "transfer_conditions (spent c ns accs) x y z n d f t = transfer_conditions accs x y z n d f t"
  using spent_other [OF assms(1,2)] spent_other [OF assms(1,3)] spent_other [OF assms(1,4)] assms(2-)
  by (simp add: transfer_conditions_def)

lemma pay_out_total:
  assumes "spl_spec R" "transact_accounts_ok R c accs l" "nullifiers_fresh R c ns accs"
    and "payable c l a accs" "accts w = spent c ns accs"
  shows "\<exists>accs'. pay_out R c l a w = Inr (w\<lparr>accts := accs'\<rparr>) \<and> paid_out c l a (spent c ns accs) accs'"
proof (cases "sint (tx_ext_amount a) < 0")
  case True
  then have tc: "transfer_conditions accs (tr_vault c) (tr_mint c) (tr_recipient_ata c)
      (unsigned_abs (tx_ext_amount a)) (mint_decimals (tl_mint l)) (tl_vault l) (tl_recipient l)"
    and rec: "ta_owner (tl_recipient l) = ed_recipient (tx_ext_data a)"
    using assms(4) by (simp_all add: payable_def)
  note ta = transfer_conditions_accounts [OF tc]
  have tc': "transfer_conditions (accts w) (tr_vault c) (tr_mint c) (tr_recipient_ata c)
      (unsigned_abs (tx_ext_amount a)) (mint_decimals (tl_mint l)) (tl_vault l) (tl_recipient l)"
    using transfer_conditions_spent [OF assms(3) ta(1,2,3)] tc assms(5) by simp
  have "ta_owner (tl_vault l) = tr_pool c" "pool_seeds_ok R (tr_pool c) (tl_pool l)"
    using assms(2) by (simp_all add: transact_accounts_ok_def)
  with token_transfer_total [OF assms(1) tc'] True rec ta(4) tc' assms(5) show ?thesis
    by (auto simp: pay_out_def paid_out_def)
next
  case False
  then show ?thesis using assms(5) by (simp add: pay_out_def paid_out_def)
qed

lemma paid_out_tree:
  assumes "paid_out c l a (spent c ns accs) accs'" "nullifiers_fresh R c ns accs"
    and "accs (tr_tree c) = Some (TreeAccount data)"
  shows "accs' (tr_tree c) = Some (TreeAccount data)"
proof -
  have "spent c ns accs (tr_tree c) = Some (TreeAccount data)"
    using assms(2,3) by (auto simp: spent_def nullifiers_fresh_def)
  with assms(1) show ?thesis
    using transferred_frame [where a = "tr_tree c" and accs = "spent c ns accs"]
    by (auto simp: paid_out_def split: if_splits)
qed

lemma transact_reaches_tree:
  assumes specs: "spl_spec R" "light_spec R H TREE_HEIGHT lv" "fr_spec L"
    and ad: "transact_admissible R L H ls l c a (accts w)"
    and lv: "tree_leaves lv (tl_tree l) = Some ls"
  obtains w1 where "is_scalar (fst (tx_out_commitments a))" "is_scalar (snd (tx_out_commitments a))"
    and "transact R L c a w = bindE (insert_outputs R c a w1) (\<lambda>w.
      Inr (emit (NewNullifier \<lparr>nn_nullifier = snd (tx_nullifiers a)\<rparr>)
            (emit (NewNullifier \<lparr>nn_nullifier = fst (tx_nullifiers a)\<rparr>) w)))"
    and "accts w1 (tr_tree c) = Some (TreeAccount (tl_tree l))" and "events w1 = events w"
proof -
  have ok: "transact_accounts_ok R c (accts w) l"
    and fr: "nullifiers_fresh R c (tx_nullifiers a) (accts w)"
    and cr: "records_creatable R c (accts w)" and ar: "arguments_ok L c a"
    and root: "tx_root a \<noteq> replicate 32 0" "tx_root a \<in> set (recent_roots H TREE_HEIGHT ROOTS_SIZE ls)"
    and pr: "proof_accepted R L c l a" and pay: "payable c l a (accts w)"
    using ad unfolding transact_admissible_def by blast+
  let ?accs = "(accts w)(tr_nullifier_0_record c \<mapsto> zeroed_nullifier,
      tr_nullifier_1_record c \<mapsto> zeroed_nullifier)"
  let ?w1 = "record_nullifiers c (tx_nullifiers a) (w\<lparr>accts := ?accs\<rparr>)"
  have acc: "transact_accounts R c (tx_nullifiers a) (accts w) = Inr (l, ?accs)"
    using ok fr cr by (simp add: transact_accounts_iff)
  have chk: "check_arguments L c a = Inr ()" "check_proof R L c l a = Inr ()"
    using ar ok pr root contains_root_iff [OF specs(2) lv, of "tx_root a"]
    by (auto simp: check_proof_eq_Inr proof_accepted_def transact_accounts_ok_def)
  obtain accs' where po: "pay_out R c l a ?w1 = Inr (?w1\<lparr>accts := accs'\<rparr>)"
      "paid_out c l a (spent c (tx_nullifiers a) (accts w)) accs'"
    using pay_out_total [OF specs(1) ok fr pay record_nullifiers_created(1)] by blast
  have tree: "accs' (tr_tree c) = Some (TreeAccount (tl_tree l))"
    using paid_out_tree [OF po(2) fr] ok by (simp add: transact_accounts_ok_def)
  have outs: "is_scalar (fst (tx_out_commitments a))" "is_scalar (snd (tx_out_commitments a))"
    using ar is_canonical_field_scalar [OF specs(3)] by (auto simp: arguments_ok_def both_def)
  show thesis
    by (rule that [OF outs, of "?w1\<lparr>accts := accs'\<rparr>"])
      (simp_all add: transact_def transact_handle_def acc chk po(1) tree record_nullifiers_created(2))
qed

text \<open>
  The two outputs on a tree with room for both, and on a tree with room for none or only one:
  then the error of the refused append is the error of the instruction.
\<close>

lemma insert_outputs_free:
  assumes "light_spec R H TREE_HEIGHT lv" "accts w (tr_tree c) = Some (TreeAccount data)"
    and "tree_leaves lv data = Some ls" "length ls + 2 \<le> 2 ^ TREE_HEIGHT"
    and "is_scalar (fst (tx_out_commitments a))" "is_scalar (snd (tx_out_commitments a))"
  shows "\<exists>i j w'. insert_outputs R c a w = Inr w' \<and> events w' = events w @ take 2 (output_events a i j) \<and>
    unat i = length ls \<and> unat j = Suc (length ls)"
proof -
  obtain i w1 data1 where 1: "insert_commitment R (tr_tree c) (fst (tx_out_commitments a))
      (fst (ed_encrypted_notes (tx_ext_data a))) w = Inr w1" "unat i = length ls"
    "accts w1 (tr_tree c) = Some (TreeAccount data1)" "events w1 = events w @ take 1 (output_events a i 0)"
    "tree_leaves lv data1 = Some (ls @ [fst (tx_out_commitments a)])"
    using insert_commitment_free [OF assms(1-3) _ assms(5), of "fst (ed_encrypted_notes (tx_ext_data a))"] assms(4)
    by (auto simp: output_events_def)
  obtain j w2 where "insert_commitment R (tr_tree c) (snd (tx_out_commitments a))
      (snd (ed_encrypted_notes (tx_ext_data a))) w1 = Inr w2" "unat j = Suc (length ls)"
    "events w2 = events w @ take 2 (output_events a i j)"
    using insert_commitment_free [OF assms(1) 1(3,5) _ assms(6), of "snd (ed_encrypted_notes (tx_ext_data a))"]
      assms(4) 1(4)
    by (auto simp: output_events_def)
  with 1(1,2) show ?thesis unfolding insert_outputs_def by auto
qed

lemma insert_outputs_full:
  assumes "light_spec R H TREE_HEIGHT lv" "accts w (tr_tree c) = Some (TreeAccount data)"
    and "tree_leaves lv data = Some ls" "\<not> length ls + 2 \<le> 2 ^ TREE_HEIGHT"
    and "is_scalar (fst (tx_out_commitments a))"
  shows "insert_outputs R c a w = Inl (PoolErr TreeError)"
proof (cases "length ls < 2 ^ TREE_HEIGHT")
  case True
  then obtain w1 data1 where 1: "insert_commitment R (tr_tree c) (fst (tx_out_commitments a))
      (fst (ed_encrypted_notes (tx_ext_data a))) w = Inr w1"
    "accts w1 (tr_tree c) = Some (TreeAccount data1)"
    "tree_leaves lv data1 = Some (ls @ [fst (tx_out_commitments a)])"
    using insert_commitment_free [OF assms(1-3) _ assms(5), of "fst (ed_encrypted_notes (tx_ext_data a))"]
    by auto
  then show ?thesis
    using insert_commitment_full [OF assms(1) 1(2,3)] assms(4) by (simp add: insert_outputs_def)
next
  case False
  then show ?thesis
    using insert_commitment_full [OF assms(1-3)] by (simp add: insert_outputs_def)
qed

lemma transact_at_capacity:
  assumes specs: "spl_spec R" "light_spec R H TREE_HEIGHT lv" "fr_spec L"
    and ad: "transact_admissible R L H ls l c a (accts w)"
    and lv: "tree_leaves lv (tl_tree l) = Some ls"
  shows "if length ls + 2 \<le> 2 ^ TREE_HEIGHT
    then \<exists>w' i j. transact R L c a w = Inr w' \<and>
      events w' = events w @ output_events a i j \<and> unat i = length ls \<and> unat j = length ls + 1
    else transact R L c a w = Inl (PoolErr TreeError)"
  using specs ad lv
proof (rule transact_reaches_tree)
  fix w1
  assume outs: "is_scalar (fst (tx_out_commitments a))" "is_scalar (snd (tx_out_commitments a))"
    and run: "transact R L c a w = bindE (insert_outputs R c a w1) (\<lambda>w.
      Inr (emit (NewNullifier \<lparr>nn_nullifier = snd (tx_nullifiers a)\<rparr>)
            (emit (NewNullifier \<lparr>nn_nullifier = fst (tx_nullifiers a)\<rparr>) w)))"
    and w1: "accts w1 (tr_tree c) = Some (TreeAccount (tl_tree l))" "events w1 = events w"
  show ?thesis
  proof (cases "length ls + 2 \<le> 2 ^ TREE_HEIGHT")
    case True
    from insert_outputs_free [where a = a, OF specs(2) w1(1) lv True outs] obtain i j w2 where
      "insert_outputs R c a w1 = Inr w2" "events w2 = events w @ take 2 (output_events a i j)"
      "unat i = length ls" "unat j = Suc (length ls)"
      using w1(2) by auto
    with True run show ?thesis by (auto simp: output_events_def)
  next
    case False
    with run insert_outputs_full [where a = a, OF specs(2) w1(1) lv False outs(1)] show ?thesis by simp
  qed
qed

lemma transact_succeeds:
  assumes specs: "spl_spec R" "light_spec R H TREE_HEIGHT lv" "fr_spec L"
    and en: "transact_enabled R L H lv c a (accts w)"
  shows "\<exists>w'. transact R L c a w = Inr w'"
proof -
  obtain l ls where "transact_admissible R L H ls l c a (accts w)"
    and "tree_leaves lv (tl_tree l) = Some ls" "length ls + 2 \<le> 2 ^ TREE_HEIGHT"
    using en unfolding transact_enabled_def transact_admissible_def by blast
  with transact_at_capacity [OF specs this(1,2)] show ?thesis by auto
qed

text \<open>The assembled witness is well formed: every field it lays out has 32 bytes.\<close>

lemma ext_data_hash_total:
  assumes "fr_spec L" "both (\<lambda>note. length note \<le> MAX_ENCRYPTED_NOTE_LEN) (ed_encrypted_notes ed)"
  shows "\<exists>h. ext_data_hash L ed domain pool mint verifier amount = Inr h \<and> is_scalar h"
  using assms by (auto simp: ext_data_hash_def both_def MAX_ENCRYPTED_NOTE_LEN_def u32_try_from_def
      keccak_field_scalar)

lemma assembled_inputs_wf:
  assumes "fr_spec L" "arguments_ok L c a" "is_scalar h"
  shows "wf_public_inputs (assembled_inputs L a h)"
  using assms is_canonical_field_scalar [OF assms(1), THEN is_scalar_length]
    pool_amount.enc_is_scalar [OF assms(1), THEN is_scalar_length, of "tx_ext_amount a"]
    is_scalar_length [OF assms(3)]
  by (simp add: wf_public_inputs_def witness_fields_def assembled_inputs_def new_public_inputs_def
      arguments_ok_def both_def)

section \<open>What the binding hash commits to\<close>

text \<open>
  The preimage of \<open>ExtData::hash\<close> determines its parts: the fixed-width fields come first
  and each note is preceded by its length.
\<close>

lemma binding_preimage_inj:
  assumes eq: "concat (binding_slices t d p q m v r x l0 n0 l1 n1) =
      concat (binding_slices t d' p q' m' v' r' x' l0' n0' l1' n1')"
    and fixed: "length d = 32" "length q = 32" "length m = 32" "length v = 32" "length r = 32"
      "length d' = 32" "length q' = 32" "length m' = 32" "length v' = 32" "length r' = 32"
    and lens: "unat l0 = length n0" "unat l0' = length n0'" "unat l1 = length n1" "unat l1' = length n1'"
  shows "(d, q, m, v, r, x, n0, n1) = (d', q', m', v', r', x', n0', n1')"
proof -
  have e: "d = d'" "q = q'" "m = m'" "v = v'" "r = r'" "x = x'" "l0 = l0'"
      "n0 @ u32_be l1 @ n1 = n0' @ u32_be l1' @ n1'"
    using eq fixed by (simp_all add: binding_slices_def)
  then have "n0 = n0'" "l1 = l1'" "n1 = n1'"
    using lens by simp_all
  with e show ?thesis by simp
qed

definition binding_collision :: "'fr crypto \<Rightarrow> bytes list \<Rightarrow> bytes list \<Rightarrow> bool" where
  "binding_collision L xs ys \<longleftrightarrow> concat xs \<noteq> concat ys \<and> keccak_field L xs = keccak_field L ys"

definition binding_of :: "ext_data \<Rightarrow> bytes \<Rightarrow> pubkey \<Rightarrow> pubkey \<Rightarrow> pubkey \<Rightarrow> i64 \<Rightarrow> bytes list" where
  "binding_of ed domain pool mint verifier amount =
     binding_slices BINDING_DOMAIN domain pool_program_id pool mint verifier (ed_recipient ed) amount
       (word_of_nat (length (fst (ed_encrypted_notes ed)))) (fst (ed_encrypted_notes ed))
       (word_of_nat (length (snd (ed_encrypted_notes ed)))) (snd (ed_encrypted_notes ed))"

lemma ext_data_hash_eq_Inr:
  "ext_data_hash L ed domain pool mint verifier amount = Inr h \<longleftrightarrow>
     length (fst (ed_encrypted_notes ed)) < 2 ^ 32 \<and> length (snd (ed_encrypted_notes ed)) < 2 ^ 32 \<and>
     h = keccak_field L (binding_of ed domain pool mint verifier amount)"
  by (auto simp: ext_data_hash_def binding_of_def u32_try_from_def)

lemma binding_of_inj:
  assumes "concat (binding_of ed d p m v x) = concat (binding_of ed' d' p' m' v' x')"
    and "length d = 32" "length p = 32" "length m = 32" "length v = 32" "length (ed_recipient ed) = 32"
      "length d' = 32" "length p' = 32" "length m' = 32" "length v' = 32" "length (ed_recipient ed') = 32"
    and "length (fst (ed_encrypted_notes ed)) < 2 ^ 32" "length (snd (ed_encrypted_notes ed)) < 2 ^ 32"
      "length (fst (ed_encrypted_notes ed')) < 2 ^ 32" "length (snd (ed_encrypted_notes ed')) < 2 ^ 32"
  shows "ed = ed' \<and> d = d' \<and> p = p' \<and> m = m' \<and> v = v' \<and> x = x'"
  using binding_preimage_inj [OF assms(1) [unfolded binding_of_def]] assms(2-)
  by (simp add: unat_of_nat prod_eq_iff)

lemma paid_out_payable:
  assumes "transact_accounts_ok R c accs l" "nullifiers_fresh R c ns accs"
    and "paid_out c l a (spent c ns accs) accs'"
  shows "payable c l a accs"
proof (cases "sint (tx_ext_amount a) < 0")
  case True
  with assms(3) obtain f t where rec: "ta_owner (tl_recipient l) = ed_recipient (tx_ext_data a)"
    and tc: "transfer_conditions (spent c ns accs) (tr_vault c) (tr_mint c) (tr_recipient_ata c)
       (unsigned_abs (tx_ext_amount a)) (mint_decimals (tl_mint l)) f t"
    by (auto simp: paid_out_def)
  have v: "accs (tr_vault c) = Some (TokenAccount (tl_vault l))"
    and r: "accs (tr_recipient_ata c) = Some (TokenAccount (tl_recipient l))"
    and m: "accs (tr_mint c) = Some (MintAccount (tl_mint l))"
    using assms(1) unfolding transact_accounts_ok_def by blast+
  have "f = tl_vault l" "t = tl_recipient l"
    using transfer_conditions_accounts(1,2) [OF tc] spent_other [OF assms(2) v] spent_other [OF assms(2) r]
    by simp_all
  with tc rec True transfer_conditions_spent [OF assms(2) v r m] show ?thesis
    by (simp add: payable_def)
qed (simp add: payable_def)

lemma transact_only_enabled:
  assumes specs: "spl_spec R" "light_spec R H TREE_HEIGHT lv"
    and wf: "\<And>data. accts w (tr_tree c) = Some (TreeAccount data) \<Longrightarrow> tree_ok lv data"
    and ok: "transact R L c a w = Inr w'"
  shows "transact_enabled R L H lv c a (accts w)"
  using specs(1) ok
proof (rule transact_eq_Inr)
  fix l h accs i data1 j data2
  assume acc: "transact_accounts_ok R c (accts w) l" "nullifiers_fresh R c (tx_nullifiers a) (accts w)"
      "arguments_ok L c a"
    and root: "contains_root R (tl_tree l) (tx_root a) = Inr True"
    and pr: "ext_data_hash L (tx_ext_data a) (pool_domain (tl_pool l)) (tr_pool c)
           (asset_mint (pool_asset (tl_pool l))) (pool_verifier (tl_pool l)) (tx_ext_amount a) = Inr h"
      "cpi_invoke R (tr_verifier_program c) (tx_proof a @ encode (assembled_inputs L a h))"
    and po: "paid_out c l a (spent c (tx_nullifiers a) (accts w)) accs"
    and app: "append_leaf R (tl_tree l) (fst (tx_out_commitments a)) = Inr (i, data1)"
      "append_leaf R data1 (snd (tx_out_commitments a)) = Inr (j, data2)"
  obtain ls where ls: "tree_leaves lv (tl_tree l) = Some ls"
    using wf acc(1) by (auto simp: tree_ok_def transact_accounts_ok_def)
  have "records_creatable R c (accts w)"
    using ok by (auto simp: transact_def transact_accounts_iff)
  moreover have "tx_root a \<noteq> replicate 32 0 \<and> tx_root a \<in> set (recent_roots H TREE_HEIGHT ROOTS_SIZE ls)"
    using root contains_root_iff [OF specs(2) ls] by simp
  moreover have "length ls + 2 \<le> 2 ^ TREE_HEIGHT"
    using tree_log.push_twice [of R H TREE_HEIGHT lv "tl_tree l"] app ls specs(2) TREE_HEIGHT_small
    by (simp add: append_leaf_def tree_ok_def)
  moreover have "proof_accepted R L c l a"
    using pr acc(1) by (auto simp: proof_accepted_def transact_accounts_ok_def)
  ultimately show ?thesis
    unfolding transact_enabled_def using acc ls paid_out_payable [OF acc(1,2) po] by blast
qed

section \<open>What a payout moves\<close>

lemma paid_out_frame:
  assumes "paid_out c l a accs accs'" "x \<noteq> tr_vault c" "x \<noteq> tr_recipient_ata c"
  shows "accs' x = accs x"
  using assms by (auto simp: paid_out_def transferred_def split: if_splits)

lemma unsigned_abs_nonpos:
  "sint (x :: i64) \<le> 0 \<Longrightarrow> \<not> sint x < 0 \<Longrightarrow> unat (unsigned_abs x) = 0"
  by (simp add: unat_unsigned_abs)

lemma paid_out_balances:
  assumes "paid_out c l a accs accs'" "arguments_ok L c a"
  shows "balance accs' (tr_vault c) + unat (unsigned_abs (tx_ext_amount a)) = balance accs (tr_vault c)"
    and "balance accs' (tr_recipient_ata c) =
      balance accs (tr_recipient_ata c) + unat (unsigned_abs (tx_ext_amount a))"
proof -
  have "balance accs' (tr_vault c) + unat (unsigned_abs (tx_ext_amount a)) = balance accs (tr_vault c) \<and>
      balance accs' (tr_recipient_ata c) =
      balance accs (tr_recipient_ata c) + unat (unsigned_abs (tx_ext_amount a))"
  proof (cases "sint (tx_ext_amount a) < 0")
    case True
    with assms(1) obtain f t where tc: "transfer_conditions accs (tr_vault c) (tr_mint c) (tr_recipient_ata c)
        (unsigned_abs (tx_ext_amount a)) (mint_decimals (tl_mint l)) f t"
      and accs': "accs' = transferred accs (tr_vault c) (tr_recipient_ata c)
        (unsigned_abs (tx_ext_amount a)) f t"
      by (auto simp: paid_out_def)
    have "tr_vault c \<noteq> tr_recipient_ata c" using assms(2) True by (auto simp: arguments_ok_def)
    from transferred_balances(1,2) [OF tc this] transfer_conditions_accounts(1,4) [OF tc] show ?thesis
      by (simp add: accs' word_le_nat_alt)
  next
    case False
    then have "unat (unsigned_abs (tx_ext_amount a)) = 0"
      using assms(2) by (intro unsigned_abs_nonpos) (simp_all add: arguments_ok_def)
    with False assms(1) show ?thesis by (simp add: paid_out_def)
  qed
  then show "balance accs' (tr_vault c) + unat (unsigned_abs (tx_ext_amount a)) = balance accs (tr_vault c)"
    and "balance accs' (tr_recipient_ata c) =
      balance accs (tr_recipient_ata c) + unat (unsigned_abs (tx_ext_amount a))" by blast+
qed

text \<open>
  The whole effect of a transaction on a tree that holds \<open>ls\<close>, as one predicate of the two
  worlds.
\<close>

definition transact_effect ::
    "(bytes \<Rightarrow> bytes list option) \<Rightarrow> bytes list \<Rightarrow> transact_ctx \<Rightarrow> transact_args \<Rightarrow> world \<Rightarrow> world \<Rightarrow> bool" where
  "transact_effect lv ls c a w w' \<longleftrightarrow>
     (\<exists>data. accts w' (tr_tree c) = Some (TreeAccount data) \<and>
        tree_leaves lv data = Some (ls @ [fst (tx_out_commitments a), snd (tx_out_commitments a)])) \<and>
     events w' = events w @ output_events a (word_of_nat (length ls)) (word_of_nat (Suc (length ls))) \<and>
     accts w' (tr_nullifier_0_record c) = Some (NullifierAccount \<lparr>nr_nullifier = fst (tx_nullifiers a)\<rparr>) \<and>
     accts w' (tr_nullifier_1_record c) = Some (NullifierAccount \<lparr>nr_nullifier = snd (tx_nullifiers a)\<rparr>) \<and>
     balance (accts w') (tr_vault c) + unat (unsigned_abs (tx_ext_amount a)) = balance (accts w) (tr_vault c) \<and>
     balance (accts w') (tr_recipient_ata c) =
       balance (accts w) (tr_recipient_ata c) + unat (unsigned_abs (tx_ext_amount a)) \<and>
     (\<forall>x. x \<notin> {tr_tree c, tr_nullifier_0_record c, tr_nullifier_1_record c, tr_vault c, tr_recipient_ata c}
        \<longrightarrow> accts w' x = accts w x)"

lemma transact_has_effect:
  assumes "spl_spec R" "light_spec R H TREE_HEIGHT lv"
    and tree: "accts w (tr_tree c) = Some (TreeAccount data)" "tree_leaves lv data = Some ls"
    and "transact R L c a w = Inr w'"
  shows "transact_effect lv ls c a w w'"
proof -
  let ?sp = "spent c (tx_nullifiers a) (accts w)"
  obtain l accs i data1 j data2 where ok: "transact_accounts_ok R c (accts w) l"
    and fr: "nullifiers_fresh R c (tx_nullifiers a) (accts w)" and ar: "arguments_ok L c a"
    and po: "paid_out c l a ?sp accs"
    and app: "append_leaf R (tl_tree l) (fst (tx_out_commitments a)) = Inr (i, data1)"
      "append_leaf R data1 (snd (tx_out_commitments a)) = Inr (j, data2)"
    and w': "accts w' = accs(tr_tree c \<mapsto> TreeAccount data2)" "events w' = events w @ output_events a i j"
    using assms(1,5) by (rule transact_eq_Inr)
  have tok: "accts w (tr_vault c) = Some (TokenAccount (tl_vault l))"
      "accts w (tr_recipient_ata c) = Some (TokenAccount (tl_recipient l))"
      "tl_tree l = data"
    using ok tree by (auto simp: transact_accounts_ok_def)
  have ne: "tr_tree c \<noteq> tr_vault c" "tr_tree c \<noteq> tr_recipient_ata c"
      "tr_tree c \<noteq> tr_nullifier_0_record c" "tr_tree c \<noteq> tr_nullifier_1_record c"
      "tr_vault c \<noteq> tr_nullifier_0_record c" "tr_vault c \<noteq> tr_nullifier_1_record c"
      "tr_recipient_ata c \<noteq> tr_nullifier_0_record c" "tr_recipient_ata c \<noteq> tr_nullifier_1_record c"
      "tr_nullifier_0_record c \<noteq> tr_nullifier_1_record c"
    using tok tree fr unfolding nullifiers_fresh_def by force+
  have bal: "balance ?sp (tr_vault c) = balance (accts w) (tr_vault c)"
      "balance ?sp (tr_recipient_ata c) = balance (accts w) (tr_recipient_ata c)"
    using tok spent_other [OF fr] by simp_all
  have idx: "unat i = length ls" "unat j = Suc (length ls)"
      "tree_leaves lv data2 = Some (ls @ [fst (tx_out_commitments a), snd (tx_out_commitments a)])"
    using tree_log.push_twice [of R H TREE_HEIGHT lv, OF _ app [unfolded append_leaf_def tok(3)]]
      tree(2) assms(2) TREE_HEIGHT_small
    by (auto simp: tree_ok_def)
  have "i = word_of_nat (length ls)" unfolding idx(1) [symmetric] by simp
  moreover have "j = word_of_nat (Suc (length ls))" unfolding idx(2) [symmetric] by simp
  moreover have "accts w' (tr_nullifier_0_record c) = ?sp (tr_nullifier_0_record c)"
      "accts w' (tr_nullifier_1_record c) = ?sp (tr_nullifier_1_record c)"
    using paid_out_frame [OF po, of "tr_nullifier_0_record c"] ne ne [symmetric]
      paid_out_frame [OF po, of "tr_nullifier_1_record c"] by (simp_all add: w'(1))
  moreover have "accts w' x = accts w x"
    if "x \<notin> {tr_tree c, tr_nullifier_0_record c, tr_nullifier_1_record c, tr_vault c, tr_recipient_ata c}" for x
    using that paid_out_frame [OF po, of x] w'(1) by (simp add: spent_def)
  ultimately show ?thesis
    using paid_out_balances [OF po ar] bal idx(3) w' ne
    unfolding transact_effect_def by (simp add: spent_def)
qed

end
