(* ===== verification/Pool_Chain.thy ===== *)
theory Pool_Chain
  imports Pool_Initialize Pool_Shield Pool_Transact
begin

text \<open>
  The program on the chain (\<^verbatim>\<open>lib.rs\<close>): the three entry points as one instruction
  type, their execution with the rollback of a failed transaction, and the steps the world
  can make, whoever submits an instruction and whatever other programs do in between.
\<close>

section \<open>Instructions and execution\<close>

datatype instruction =
    InitPool init_pool_ctx bytes
  | Shield shield_ctx bytes u64 bytes
  | Transact transact_ctx transact_args

fun exec :: "runtime \<Rightarrow> 'fr crypto \<Rightarrow> instruction \<Rightarrow> world \<Rightarrow> prog_error + world" where
  "exec R L (InitPool c domain) w = init_pool R L c domain w"
| "exec R L (Shield c npk amount encrypted_note) w = shield R L c npk amount encrypted_note w"
| "exec R L (Transact c a) w = transact R L c a w"

fun instruction_signers :: "instruction \<Rightarrow> pubkey list" where
  "instruction_signers (InitPool c _) = ip_signers c"
| "instruction_signers (Shield c _ _ _) = sh_signers c"
| "instruction_signers (Transact c _) = tr_signers c"

section \<open>Steps of the world\<close>

text \<open>
  What the Solana runtime guarantees of a transaction that does not call this program:
  accounts the program owns are neither written nor created, and a token account whose
  authority is the pool's address keeps its mint and owner and is not debited, since no one
  else can sign for that address. It may be frozen or thawed, and credited; \<open>credit\<close> says
  by how much.
\<close>

fun program_owned :: "account \<Rightarrow> bool" where
  "program_owned (PoolAccount _) = True"
| "program_owned (TreeAccount _) = True"
| "program_owned (NullifierAccount _) = True"
| "program_owned _ = False"

definition env_ok :: "runtime \<Rightarrow> (pubkey \<Rightarrow> nat) \<Rightarrow> world \<Rightarrow> world \<Rightarrow> bool" where
  "env_ok R credit w w' \<longleftrightarrow>
     events w' = events w \<and>
     (\<forall>a x. program_owned x \<longrightarrow> accts w a = Some x \<longleftrightarrow> accts w' a = Some x) \<and>
     (\<forall>a t. accts w a = Some (TokenAccount t) \<longrightarrow> ta_owner t = pool_address R \<longrightarrow>
        (\<exists>t'. accts w' a = Some (TokenAccount t') \<and> ta_owner t' = ta_owner t \<and>
              ta_mint t' = ta_mint t \<and> unat (ta_amount t') = unat (ta_amount t) + credit a))"

datatype label =
    Accepted instruction
  | Rejected instruction prog_error
  | Environment "pubkey \<Rightarrow> nat"

text \<open>
  A submitted instruction is signed by keys, and the pool's address has none, so it is never
  among the signers. An error rolls the whole transaction back.
\<close>

inductive chain_step :: "runtime \<Rightarrow> 'fr crypto \<Rightarrow> world \<Rightarrow> label \<Rightarrow> world \<Rightarrow> bool"
  for R :: runtime and L :: "'fr crypto" where
  accepted: "exec R L ins w = Inr w' \<Longrightarrow> pool_address R \<notin> set (instruction_signers ins) \<Longrightarrow>
     chain_step R L w (Accepted ins) w'"
| rejected: "exec R L ins w = Inl e \<Longrightarrow> pool_address R \<notin> set (instruction_signers ins) \<Longrightarrow>
     chain_step R L w (Rejected ins e) w"
| environment: "env_ok R credit w w' \<Longrightarrow> chain_step R L w (Environment credit) w'"

inductive_cases acceptedE [elim!]: "chain_step R L w (Accepted ins) w'"
inductive_cases rejectedE [elim!]: "chain_step R L w (Rejected ins e) w'"
inductive_cases environmentE [elim!]: "chain_step R L w (Environment credit) w'"
inductive_simps chain_step_rejected: "chain_step R L w (Rejected ins e) w'"

text \<open>Before the program's first instruction it owns no account and has logged nothing.\<close>

definition genesis :: "world \<Rightarrow> bool" where
  "genesis w \<longleftrightarrow> events w = [] \<and> (\<forall>a x. accts w a = Some x \<longrightarrow> \<not> program_owned x)"

section \<open>Accounts that never change once written\<close>

text \<open>
  Pool configurations and nullifier records are write-once: no step of the world changes or
  removes one.
\<close>

fun write_once :: "account \<Rightarrow> bool" where
  "write_once (PoolAccount _) = True"
| "write_once (NullifierAccount _) = True"
| "write_once _ = False"

lemma write_once_owned: "write_once x \<Longrightarrow> program_owned x"
  by (cases x) auto

lemma transferred_write_once:
  assumes "transfer_conditions accs from_a mint to_a amount d f t" "write_once x"
    and "accs a = Some x"
  shows "transferred accs from_a to_a amount f t a = Some x"
  using transferred_frame [OF assms(1), of a] assms by fastforce

lemma exec_write_once:
  assumes "spl_spec R" "exec R L ins w = Inr w'" "write_once x" "accts w a = Some x"
  shows "accts w' a = Some x"
proof (cases ins)
  case (InitPool c d)
  with assms(2) have "init_pool R L c d w = Inr w'" by simp
  then show ?thesis
    by (rule init_pool_eq_Inr) (insert assms(4), auto)
next
  case (Shield c npk amount enc)
  with assms(2) have "shield R L c npk amount enc w = Inr w'" by simp
  with assms(1) show ?thesis
    by (rule shield_eq_Inr) (insert assms(3,4), auto dest: transferred_write_once)
next
  case (Transact c b)
  with assms(2) have "transact R L c b w = Inr w'" by simp
  with assms(1) obtain l accs data2 where
    fr: "transact_accounts_ok R c (accts w) l" "nullifiers_fresh R c (tx_nullifiers b) (accts w)"
    and po: "paid_out c l b (spent c (tx_nullifiers b) (accts w)) accs"
    and w': "accts w' = accs(tr_tree c \<mapsto> TreeAccount data2)"
    by (rule transact_eq_Inr)
  have "spent c (tx_nullifiers b) (accts w) a = Some x"
    using fr(2) assms(4) by (auto simp: spent_def nullifiers_fresh_def)
  then have "accs a = Some x"
    using po assms(3) by (auto simp: paid_out_def split: if_splits dest: transferred_write_once)
  then show ?thesis
    using w' fr(1) assms(3,4) by (auto simp: transact_accounts_ok_def)
qed

lemma step_write_once:
  assumes "spl_spec R" "write_once x" "accts w a = Some x" "chain_step R L w l w'"
  shows "accts w' a = Some x"
  using assms(4)
proof cases
  case (accepted ins)
  then show ?thesis using exec_write_once assms by blast
next
  case (environment credit)
  then show ?thesis using assms write_once_owned [OF assms(2)] by (auto simp: env_ok_def)
qed (use assms in simp)

interpretation write_once: transition_invariant "chain_step R L"
  "\<lambda>w. spl_spec R \<and> write_once x \<and> accts w a = Some x" for R L x a
  by unfold_locales (blast intro: step_write_once)

section \<open>Where the program's accounts are\<close>

text \<open>
  The pool account is a singleton at its canonical address, and the tree account exists only
  with it; so every accepted instruction works on the one pool and the one tree.
\<close>

definition singleton :: "runtime \<Rightarrow> world \<Rightarrow> bool" where
  "singleton R w \<longleftrightarrow>
     (\<forall>a p. accts w a = Some (PoolAccount p) \<longrightarrow> a = pool_address R)"

lemma transferred_program_owned:
  assumes "transfer_conditions accs from_a mint to_a amount d f t" "program_owned x"
  shows "transferred accs from_a to_a amount f t a = Some x \<longleftrightarrow> accs a = Some x"
  using assms by (auto simp: transferred_def transfer_conditions_def)

lemma exec_pool_account:
  assumes "spl_spec R" "exec R L ins w = Inr w'" "accts w' a = Some (PoolAccount p)"
  shows "accts w a = Some (PoolAccount p) \<or> a = pool_address R"
proof (cases ins)
  case (InitPool c d)
  with assms(2) have "init_pool R L c d w = Inr w'" by simp
  then show ?thesis
    by (rule init_pool_eq_Inr) (insert assms(3), auto split: if_splits)
next
  case (Shield c npk amount enc)
  with assms(2) have "shield R L c npk amount enc w = Inr w'" by simp
  with assms(1) show ?thesis
    by (rule shield_eq_Inr)
      (insert assms(3), auto simp: transferred_program_owned split: if_splits)
next
  case (Transact c b)
  with assms(2) have "transact R L c b w = Inr w'" by simp
  with assms(1) show ?thesis
    by (rule transact_eq_Inr)
      (insert assms(3), auto simp: paid_out_def transferred_program_owned spent_def split: if_splits)
qed

interpretation singleton: transition_invariant "chain_step R L"
  "\<lambda>w. spl_spec R \<and> singleton R w" for R L
proof unfold_locales
  fix w l w'
  assume inv: "spl_spec R \<and> singleton R w" and step: "chain_step R L w l w'"
  have "a = pool_address R" if "accts w' a = Some (PoolAccount p)" for a p
    using step
  proof cases
    case (accepted ins)
    then show ?thesis
      using exec_pool_account [OF conjunct1 [OF inv] accepted(2) that] inv by (auto simp: singleton_def)
  next
    case (rejected ins e)
    then show ?thesis using that inv by (auto simp: singleton_def)
  next
    case (environment credit)
    then have "accts w a = Some (PoolAccount p)"
      using that by (simp add: env_ok_def)
    then show ?thesis using inv by (auto simp: singleton_def)
  qed
  then show "spl_spec R \<and> singleton R w'"
    using inv by (auto simp: singleton_def)
qed

lemma shield_at:
  assumes "singleton R w" "shield_accounts_ok R c (accts w) p m v d"
  shows "sh_pool c = pool_address R" and "sh_tree c = tree_address R"
    and "sh_vault c = ata_address R (pool_address R) (asset_mint (pool_asset p))"
  using assms by (auto simp: singleton_def shield_accounts_ok_def tree_seeds_ok_def tree_address_def)

lemma transact_at:
  assumes "singleton R w" "transact_accounts_ok R c (accts w) l"
  shows "tr_pool c = pool_address R" and "tr_tree c = tree_address R"
    and "tr_vault c = ata_address R (pool_address R) (asset_mint (pool_asset (tl_pool l)))"
  using assms by (auto simp: singleton_def transact_accounts_ok_def tree_seeds_ok_def tree_address_def)

section \<open>Nullifiers\<close>

fun spent_nullifiers :: "label \<Rightarrow> bytes list" where
  "spent_nullifiers (Accepted (Transact c a)) = [fst (tx_nullifiers a), snd (tx_nullifiers a)]"
| "spent_nullifiers _ = []"

definition nullifier_spent :: "runtime \<Rightarrow> world \<Rightarrow> bytes \<Rightarrow> bool" where
  "nullifier_spent R w n \<longleftrightarrow>
     accts w (nullifier_address R n) = Some (NullifierAccount \<lparr>nr_nullifier = n\<rparr>)"

text \<open>
  A step that spends a nullifier found no account at its address and leaves its record there;
  the two nullifiers of a step differ.
\<close>

lemma transact_spends:
  assumes "spl_spec R" "singleton R w" "transact R L c a w = Inr w'"
  shows "fst (tx_nullifiers a) \<noteq> snd (tx_nullifiers a)"
    and "accts w (nullifier_address R (fst (tx_nullifiers a))) = None"
    and "accts w (nullifier_address R (snd (tx_nullifiers a))) = None"
    and "nullifier_spent R w' (fst (tx_nullifiers a))"
    and "nullifier_spent R w' (snd (tx_nullifiers a))"
proof -
  obtain l accs data2 where ok: "transact_accounts_ok R c (accts w) l"
    and fr: "nullifiers_fresh R c (tx_nullifiers a) (accts w)" and ar: "arguments_ok L c a"
    and po: "paid_out c l a (spent c (tx_nullifiers a) (accts w)) accs"
    and w': "accts w' = accs(tr_tree c \<mapsto> TreeAccount data2)"
    using assms(1,3) by (rule transact_eq_Inr)
  note at = transact_at [OF assms(2) ok]
  have na: "tr_nullifier_0_record c = nullifier_address R (fst (tx_nullifiers a))"
      "tr_nullifier_1_record c = nullifier_address R (snd (tx_nullifiers a))"
    using fr at by (simp_all add: nullifiers_fresh_def nullifier_address_def)
  show "fst (tx_nullifiers a) \<noteq> snd (tx_nullifiers a)"
    using ar by (simp add: arguments_ok_def)
  show "accts w (nullifier_address R (fst (tx_nullifiers a))) = None"
    and "accts w (nullifier_address R (snd (tx_nullifiers a))) = None"
    unfolding na [symmetric] using fr unfolding nullifiers_fresh_def by blast+
  have keep: "accs b = Some x" if "spent c (tx_nullifiers a) (accts w) b = Some x" "write_once x" for b x
    using po that by (auto simp: paid_out_def split: if_splits dest: transferred_write_once)
  have "accs (tr_nullifier_0_record c) = Some (NullifierAccount \<lparr>nr_nullifier = fst (tx_nullifiers a)\<rparr>)"
    and "accs (tr_nullifier_1_record c) = Some (NullifierAccount \<lparr>nr_nullifier = snd (tx_nullifiers a)\<rparr>)"
    using fr by (auto intro!: keep simp: spent_def nullifiers_fresh_def)
  moreover have "tr_tree c \<noteq> tr_nullifier_0_record c" "tr_tree c \<noteq> tr_nullifier_1_record c"
    using ok fr by (auto simp: transact_accounts_ok_def nullifiers_fresh_def)
  ultimately show "nullifier_spent R w' (fst (tx_nullifiers a))"
    and "nullifier_spent R w' (snd (tx_nullifiers a))"
    using w' na by (simp_all add: nullifier_spent_def)
qed

lemma step_spends:
  assumes "spl_spec R" "singleton R w" "chain_step R L w l w'"
  shows "distinct (spent_nullifiers l)"
    and "n \<in> set (spent_nullifiers l) \<Longrightarrow> \<not> nullifier_spent R w n \<and> nullifier_spent R w' n"
  using assms(3) transact_spends [OF assms(1,2)]
  by (cases rule: spent_nullifiers.cases [of l]; fastforce simp: nullifier_spent_def)+

lemma run_spends:
  assumes "run (chain_step R L) w ls w'" "spl_spec R" "singleton R w"
  shows "distinct (concat (map spent_nullifiers ls)) \<and>
    (\<forall>n \<in> set (concat (map spent_nullifiers ls)). \<not> nullifier_spent R w n \<and> nullifier_spent R w' n)"
  using assms
proof (induction rule: run.induct)
  case (run_cons w l t ls u)
  have inv: "singleton R t"
    using singleton.step_inv [of R w L l t] run_cons by simp
  have keep: "nullifier_spent R v n \<Longrightarrow> run (chain_step R L) v ms x \<Longrightarrow> nullifier_spent R x n" for v ms x n
    using write_once.run_inv [of R L v ms x "NullifierAccount \<lparr>nr_nullifier = n\<rparr>"]
      run_cons.prems(1) by (simp add: nullifier_spent_def)
  have one: "run (chain_step R L) w [l] t"
    using run_cons.hyps(1) by (rule run_single)
  note IH = run_cons.IH [OF run_cons.prems(1) inv]
  note st = step_spends [OF run_cons.prems run_cons.hyps(1)]
  show ?case
  proof (intro conjI ballI)
    show "distinct (concat (map spent_nullifiers (l # ls)))"
      using IH st by (auto simp: disjoint_iff)
  next
    fix n assume "n \<in> set (concat (map spent_nullifiers (l # ls)))"
    then have "n \<in> set (spent_nullifiers l) \<or> n \<in> set (concat (map spent_nullifiers ls))" by simp
    then show "\<not> nullifier_spent R w n" and "nullifier_spent R u n"
      using IH st keep [OF _ one, of n] keep [OF _ run_cons.hyps(2), of n] by blast+
  qed
qed simp

section \<open>The vault\<close>

text \<open>
  The vault of a configured pool, and what each step adds to it: a deposit its amount, a
  transaction its signed external amount, another program's transaction its credits.
\<close>

definition vault_of :: "runtime \<Rightarrow> pool \<Rightarrow> pubkey" where
  "vault_of R p = ata_address R (pool_address R) (asset_mint (pool_asset p))"

fun vault_delta :: "pubkey \<Rightarrow> label \<Rightarrow> int" where
  "vault_delta v (Accepted (Shield c npk amount enc)) = int (unat amount)"
| "vault_delta v (Accepted (Transact c a)) = sint (tx_ext_amount a)"
| "vault_delta v (Environment credit) = int (credit v)"
| "vault_delta v _ = 0"

definition vault_inv :: "runtime \<Rightarrow> pool \<Rightarrow> world \<Rightarrow> bool" where
  "vault_inv R p w \<longleftrightarrow>
     spl_spec R \<and> singleton R w \<and> accts w (pool_address R) = Some (PoolAccount p) \<and>
     (\<exists>t. accts w (vault_of R p) = Some (TokenAccount t) \<and> ta_owner t = pool_address R)"

lemma transferred_token:
  assumes "transfer_conditions accs from_a mint to_a amount d f t"
    and "accs a = Some (TokenAccount k)"
  shows "\<exists>k'. transferred accs from_a to_a amount f t a = Some (TokenAccount k') \<and> ta_owner k' = ta_owner k"
  using assms by (auto simp: transferred_def transfer_conditions_def)

lemma shield_vault:
  assumes "vault_inv R p w" "shield R L c npk amount enc w = Inr w'"
    and "pool_address R \<notin> set (sh_signers c)"
  shows "vault_inv R p w' \<and> balance (accts w') (vault_of R p) = balance (accts w) (vault_of R p) + unat amount"
proof -
  have spl: "spl_spec R" and sing: "singleton R w" and pa: "accts w (pool_address R) = Some (PoolAccount p)"
    using assms(1) by (auto simp: vault_inv_def)
  obtain k where k: "accts w (vault_of R p) = Some (TokenAccount k)" "ta_owner k = pool_address R"
    using assms(1) by (auto simp: vault_inv_def)
  obtain q m v d f t data' where ok: "shield_accounts_ok R c (accts w) q m v d"
    and tc: "transfer_conditions (accts w) (sh_depositor_ata c) (sh_mint c) (sh_vault c) amount
           (mint_decimals m) f t"
    and w': "accts w' = (transferred (accts w) (sh_depositor_ata c) (sh_vault c) amount f t)
           (sh_tree c \<mapsto> TreeAccount data')"
    using spl assms(2) by (rule shield_eq_Inr)
  note at = shield_at [OF sing ok]
  have "q = p" using ok at pa by (simp add: shield_accounts_ok_def)
  then have va: "sh_vault c = vault_of R p" using at by (simp add: vault_of_def)
  have ne: "sh_depositor_ata c \<noteq> sh_vault c"
    using ok at assms(3) by (auto simp: shield_accounts_ok_def)
  have tree: "vault_of R p \<noteq> sh_tree c" "pool_address R \<noteq> sh_tree c"
    using ok k pa by (auto simp: shield_accounts_ok_def)
  have ex: "exec R L (Shield c npk amount enc) w = Inr w'" using assms(2) by simp
  have step: "chain_step R L w (Accepted (Shield c npk amount enc)) w'"
    using ex assms(3) by (intro chain_step.accepted) auto
  have "singleton R w'" using singleton.step_inv [OF _ step] spl sing by blast
  moreover have "accts w' (pool_address R) = Some (PoolAccount p)"
    by (rule exec_write_once [OF spl ex _ pa]) simp
  moreover obtain k' where "transferred (accts w) (sh_depositor_ata c) (sh_vault c) amount f t (vault_of R p)
      = Some (TokenAccount k')" "ta_owner k' = ta_owner k"
    using transferred_token [OF tc k(1)] by blast
  ultimately show ?thesis
    using transferred_balances(2) [OF tc ne] tree k va spl
    by (auto simp: vault_inv_def w' balance_def)
qed

lemma transact_vault:
  assumes "vault_inv R p w" "transact R L c a w = Inr w'"
    and "pool_address R \<notin> set (tr_signers c)"
  shows "vault_inv R p w' \<and>
    int (balance (accts w') (vault_of R p)) = int (balance (accts w) (vault_of R p)) + sint (tx_ext_amount a)"
proof -
  have spl: "spl_spec R" and sing: "singleton R w" and pa: "accts w (pool_address R) = Some (PoolAccount p)"
    using assms(1) by (auto simp: vault_inv_def)
  obtain k where k: "accts w (vault_of R p) = Some (TokenAccount k)" "ta_owner k = pool_address R"
    using assms(1) by (auto simp: vault_inv_def)
  let ?sp = "spent c (tx_nullifiers a) (accts w)"
  obtain l accs data2 where ok: "transact_accounts_ok R c (accts w) l"
    and fr: "nullifiers_fresh R c (tx_nullifiers a) (accts w)" and ar: "arguments_ok L c a"
    and po: "paid_out c l a ?sp accs"
    and w': "accts w' = accs(tr_tree c \<mapsto> TreeAccount data2)"
    using spl assms(2) by (rule transact_eq_Inr)
  note at = transact_at [OF sing ok]
  have "tl_pool l = p" using ok at pa by (simp add: transact_accounts_ok_def)
  then have va: "tr_vault c = vault_of R p" using at by (simp add: vault_of_def)
  have spv: "?sp (vault_of R p) = Some (TokenAccount k)"
    using fr k by (auto simp: spent_def nullifiers_fresh_def)
  have tree: "vault_of R p \<noteq> tr_tree c" "pool_address R \<noteq> tr_tree c"
    using ok k pa by (auto simp: transact_accounts_ok_def)
  have bal: "int (balance accs (vault_of R p)) = int (balance (accts w) (vault_of R p)) + sint (tx_ext_amount a)
      \<and> (\<exists>k'. accs (vault_of R p) = Some (TokenAccount k') \<and> ta_owner k' = ta_owner k)"
  proof (cases "sint (tx_ext_amount a) < 0")
    case True
    with po obtain f t where tc: "transfer_conditions ?sp (tr_vault c) (tr_mint c) (tr_recipient_ata c)
        (unsigned_abs (tx_ext_amount a)) (mint_decimals (tl_mint l)) f t"
      and accs: "accs = transferred ?sp (tr_vault c) (tr_recipient_ata c) (unsigned_abs (tx_ext_amount a)) f t"
      by (auto simp: paid_out_def)
    have ne: "tr_vault c \<noteq> tr_recipient_ata c" using ar True by (auto simp: arguments_ok_def)
    have "unat (unsigned_abs (tx_ext_amount a)) \<le> balance ?sp (vault_of R p)"
      using tc spv va by (simp add: transfer_conditions_def balance_def)
    with transferred_balances(1) [OF tc ne] transferred_token [OF tc spv] va True k(1) spv
    show ?thesis by (simp add: accs unat_unsigned_abs balance_def of_nat_diff)
  next
    case False
    then have "sint (tx_ext_amount a) = 0" using ar by (simp add: arguments_ok_def)
    with po False spv k show ?thesis by (simp add: paid_out_def balance_def)
  qed
  have ex: "exec R L (Transact c a) w = Inr w'" using assms(2) by simp
  have step: "chain_step R L w (Accepted (Transact c a)) w'"
    using ex assms(3) by (intro chain_step.accepted) auto
  have "singleton R w'" using singleton.step_inv [OF _ step] spl sing by blast
  moreover have "accts w' (pool_address R) = Some (PoolAccount p)"
    by (rule exec_write_once [OF spl ex _ pa]) simp
  ultimately show ?thesis
    using bal tree k spl by (auto simp: vault_inv_def w' balance_def)
qed

lemma vault_step:
  assumes "vault_inv R p w" "chain_step R L w l w'"
  shows "vault_inv R p w' \<and> int (balance (accts w') (vault_of R p)) =
    int (balance (accts w) (vault_of R p)) + vault_delta (vault_of R p) l"
  using assms(2)
proof cases
  case (accepted ins)
  show ?thesis
  proof (cases ins)
    case (InitPool c d)
    with accepted have "init_pool R L c d w = Inr w'" by simp
    then have False
      by (rule init_pool_eq_Inr) (use assms(1) in \<open>simp add: vault_inv_def\<close>)
    then show ?thesis ..
  next
    case (Shield c npk amount enc)
    with accepted shield_vault [OF assms(1)] show ?thesis by fastforce
  next
    case (Transact c a)
    with accepted transact_vault [OF assms(1)] show ?thesis by fastforce
  qed
next
  case (rejected ins e)
  with assms(1) show ?thesis by simp
next
  case (environment credit)
  have "spl_spec R \<and> singleton R w'"
    using singleton.step_inv [OF _ assms(2)] assms(1) by (auto simp: vault_inv_def)
  then show ?thesis
    using environment assms(1) by (fastforce simp: vault_inv_def env_ok_def balance_def)
qed

interpretation vault: measured_transition "chain_step R L" "vault_inv R p"
  "\<lambda>w. int (balance (accts w) (vault_of R p))" "vault_delta (vault_of R p)" for R L p
  by unfold_locales (simp_all add: vault_step)

end
