(* ===== verification/Pool_Ledger.thy ===== *)
theory Pool_Ledger
  imports Pool_Chain
begin

text \<open>
  What the pool promises to an observer of the chain. First the event log: the emitted
  events are an exact transcript of the tree and of the spent nullifiers, which is what an
  indexer relies on. Then an abstract ledger (a leaf list, a list of spent nullifiers and a
  balance) and the simulation that every step of the chain is a step of the ledger.
\<close>

section \<open>The event log\<close>

fun commitments_of :: "event list \<Rightarrow> new_commitment list" where
  "commitments_of [] = []"
| "commitments_of (NewCommitment nc # es) = nc # commitments_of es"
| "commitments_of (NewNullifier _ # es) = commitments_of es"

fun nullifiers_of :: "event list \<Rightarrow> bytes list" where
  "nullifiers_of [] = []"
| "nullifiers_of (NewCommitment _ # es) = nullifiers_of es"
| "nullifiers_of (NewNullifier nn # es) = nn_nullifier nn # nullifiers_of es"

lemma commitments_of_append [simp]:
  "commitments_of (xs @ ys) = commitments_of xs @ commitments_of ys"
  by (induction xs rule: commitments_of.induct) auto

lemma nullifiers_of_append [simp]:
  "nullifiers_of (xs @ ys) = nullifiers_of xs @ nullifiers_of ys"
  by (induction xs rule: nullifiers_of.induct) auto

definition tree_logged :: "(bytes \<Rightarrow> bytes list option) \<Rightarrow> bytes \<Rightarrow> event list \<Rightarrow> bool" where
  "tree_logged lv data es \<longleftrightarrow>
     (let cs = commitments_of es in
      tree_leaves lv data = Some (map nc_commitment cs) \<and>
      map (\<lambda>nc. unat (nc_leaf_index nc)) cs = [0..<length cs])"

definition log_inv :: "runtime \<Rightarrow> node_hash \<Rightarrow> (bytes \<Rightarrow> bytes list option) \<Rightarrow> world \<Rightarrow> bool" where
  "log_inv R H lv w \<longleftrightarrow>
     light_spec R H TREE_HEIGHT lv \<and> spl_spec R \<and> singleton R w \<and>
     (if \<exists>p. accts w (pool_address R) = Some (PoolAccount p)
      then \<exists>data. accts w (tree_address R) = Some (TreeAccount data) \<and> tree_logged lv data (events w)
      else events w = [])"

lemma tree_logged_append:
  assumes "light_spec R H TREE_HEIGHT lv" "tree_logged lv data es"
    and "append_leaf R data cm = Inr (i, data')"
  shows "tree_logged lv data'
    (es @ [NewCommitment \<lparr>nc_commitment = cm, nc_leaf_index = i, nc_encrypted_note = enc\<rparr>])"
  using append_with_height_ok [OF assms(1), of data "map nc_commitment (commitments_of es)" cm i data'] assms(2,3)
  by (simp add: tree_logged_def Let_def append_leaf_def)

lemma tree_logged_nullifier [simp]:
  "tree_logged lv data (es @ [NewNullifier x]) \<longleftrightarrow> tree_logged lv data es"
  "tree_logged lv data (es @ [NewNullifier x, NewNullifier y]) \<longleftrightarrow> tree_logged lv data es"
  by (simp_all add: tree_logged_def)

lemma log_shield:
  assumes "log_inv R H lv w" "shield R L c npk amount enc w = Inr w'"
  shows "\<exists>data. accts w' (tree_address R) = Some (TreeAccount data) \<and> tree_logged lv data (events w')"
proof -
  have inv: "light_spec R H TREE_HEIGHT lv" "spl_spec R" "singleton R w"
    using assms(1) by (auto simp: log_inv_def)
  from inv(2) assms(2) show ?thesis
  proof (rule shield_eq_Inr)
    fix p m v d f t data i data' commitment
    assume ok: "shield_accounts_ok R c (accts w) p m v d"
      and tree: "accts w (sh_tree c) = Some (TreeAccount data)"
      and app: "append_leaf R data commitment = Inr (i, data')"
      and w': "accts w' = (transferred (accts w) (sh_depositor_ata c) (sh_vault c) amount f t)
           (sh_tree c \<mapsto> TreeAccount data')"
      and ev: "events w' = events w @ [NewCommitment
           \<lparr>nc_commitment = commitment, nc_leaf_index = i, nc_encrypted_note = enc\<rparr>]"
    note at = shield_at [OF inv(3) ok]
    have "tree_logged lv data (events w)"
      using assms(1) ok at tree by (auto simp: log_inv_def shield_accounts_ok_def split: if_splits)
    from tree_logged_append [OF inv(1) this app, of enc] at w' ev show ?thesis by simp
  qed
qed

lemma log_transact:
  assumes "log_inv R H lv w" "transact R L c a w = Inr w'"
  shows "\<exists>data. accts w' (tree_address R) = Some (TreeAccount data) \<and> tree_logged lv data (events w')"
proof -
  have inv: "light_spec R H TREE_HEIGHT lv" "spl_spec R" "singleton R w"
    using assms(1) by (auto simp: log_inv_def)
  from inv(2) assms(2) show ?thesis
  proof (rule transact_eq_Inr)
    fix l accs i data1 j data2
    assume ok: "transact_accounts_ok R c (accts w) l"
      and app: "append_leaf R (tl_tree l) (fst (tx_out_commitments a)) = Inr (i, data1)"
        "append_leaf R data1 (snd (tx_out_commitments a)) = Inr (j, data2)"
      and w': "accts w' = accs(tr_tree c \<mapsto> TreeAccount data2)"
      and ev: "events w' = events w @ output_events a i j"
    note at = transact_at [OF inv(3) ok]
    have "tree_logged lv (tl_tree l) (events w)"
      using assms(1) ok at by (auto simp: log_inv_def transact_accounts_ok_def split: if_splits)
    note tl1 = tree_logged_append [OF inv(1) this app(1), of "fst (ed_encrypted_notes (tx_ext_data a))"]
    note tl2 = tree_logged_append [OF inv(1) tl1 app(2), of "snd (ed_encrypted_notes (tx_ext_data a))"]
    have "tree_logged lv data2 (events w')"
      using tl2 by (simp add: ev output_events_def tree_logged_def)
    with at w' show ?thesis by simp
  qed
qed

lemma log_init:
  assumes "log_inv R H lv w" "init_pool R L c d w = Inr w'"
  shows "\<exists>data. accts w' (tree_address R) = Some (TreeAccount data) \<and> tree_logged lv data (events w')"
  using assms(2)
proof (rule init_pool_eq_Inr)
  fix aid data
  assume ac: "ip_pool c = pool_address R" "ip_tree c = tree_address R"
      "accts w (ip_pool c) = None" "distinct [ip_pool c, ip_tree c, ip_vault c]"
    and ini: "initialize R (replicate (account_space R) 0) = Inr data"
    and w': "accts w' = (accts w)(ip_pool c \<mapsto> PoolAccount (configured_pool R c aid d),
           ip_tree c \<mapsto> TreeAccount data,
           ip_vault c \<mapsto> TokenAccount \<lparr>ta_mint = ip_mint c, ta_owner = ip_pool c,
                            ta_amount = 0, ta_frozen = False\<rparr>)"
      "events w' = events w"
  have light: "light_spec R H TREE_HEIGHT lv" and ev: "events w = []"
    using assms(1) ac(1,3) by (auto simp: log_inv_def)
  obtain data0 where "initialize R (replicate (account_space R) 0) = Inr data0"
      "tree_leaves lv data0 = Some []"
    using initialize_with_height_fresh [OF light, of "replicate (account_space R) 0"]
    by (auto simp: initialize_def account_space_def)
  with ini ev w' ac show ?thesis by (simp add: tree_logged_def)
qed

lemma exec_pool_exists:
  assumes "spl_spec R" "exec R L ins w = Inr w'" "singleton R w"
  shows "\<exists>p. accts w' (pool_address R) = Some (PoolAccount p)"
proof (cases ins)
  case (InitPool c d)
  with assms(2) have "init_pool R L c d w = Inr w'" by simp
  then show ?thesis by (rule init_pool_eq_Inr) auto
next
  case (Shield c npk amount enc)
  then have "shield R L c npk amount enc w = Inr w'" using assms(2) by simp
  with assms(1) obtain p m v d where ok: "shield_accounts_ok R c (accts w) p m v d"
    by (rule shield_eq_Inr)
  then have "accts w (pool_address R) = Some (PoolAccount p)"
    using shield_at [OF assms(3) ok] by (simp add: shield_accounts_ok_def)
  from exec_write_once [OF assms(1,2) _ this] show ?thesis by auto
next
  case (Transact c a)
  then have "transact R L c a w = Inr w'" using assms(2) by simp
  with assms(1) obtain l where ok: "transact_accounts_ok R c (accts w) l"
    by (rule transact_eq_Inr)
  then have "accts w (pool_address R) = Some (PoolAccount (tl_pool l))"
    using transact_at [OF assms(3) ok] by (simp add: transact_accounts_ok_def)
  from exec_write_once [OF assms(1,2) _ this] show ?thesis by auto
qed

interpretation log: transition_invariant "chain_step R L" "log_inv R H lv" for R L H lv
proof unfold_locales
  fix w l w'
  assume inv: "log_inv R H lv w" and step: "chain_step R L w l w'"
  then have base: "light_spec R H TREE_HEIGHT lv" "spl_spec R" "singleton R w'"
    using singleton.step_inv [OF _ step] by (auto simp: log_inv_def)
  from step show "log_inv R H lv w'"
  proof cases
    case (accepted ins)
    have "\<exists>data. accts w' (tree_address R) = Some (TreeAccount data) \<and> tree_logged lv data (events w')"
      using accepted(2) log_init [OF inv] log_shield [OF inv] log_transact [OF inv]
      by (cases ins) auto
    moreover have "\<exists>p. accts w' (pool_address R) = Some (PoolAccount p)"
      using exec_pool_exists [OF base(2) accepted(2)] inv by (auto simp: log_inv_def)
    ultimately show ?thesis using base by (simp add: log_inv_def)
  next
    case (rejected ins e)
    with inv show ?thesis by simp
  next
    case (environment credit)
    then show ?thesis using inv base by (auto simp: log_inv_def env_ok_def split: if_splits)
  qed
qed

lemma genesis_log_inv:
  "genesis w \<Longrightarrow> light_spec R H TREE_HEIGHT lv \<Longrightarrow> spl_spec R \<Longrightarrow> log_inv R H lv w"
  by (fastforce simp: genesis_def log_inv_def singleton_def)

text \<open>The nullifier events of a run are the nullifiers it spent, in order.\<close>

lemma step_nullifier_events:
  assumes "spl_spec R" "chain_step R L w l w'"
  shows "nullifiers_of (events w') = nullifiers_of (events w) @ spent_nullifiers l"
  using assms(2)
proof cases
  case (accepted ins)
  show ?thesis
  proof (cases ins)
    case (InitPool c d)
    with accepted have "init_pool R L c d w = Inr w'" by simp
    then show ?thesis
      by (rule init_pool_eq_Inr) (use accepted InitPool in simp)
  next
    case (Shield c npk amount enc)
    with accepted have "shield R L c npk amount enc w = Inr w'" by simp
    with assms(1) show ?thesis
      by (rule shield_eq_Inr) (use accepted Shield in simp)
  next
    case (Transact c a)
    with accepted have "transact R L c a w = Inr w'" by simp
    with assms(1) show ?thesis
      by (rule transact_eq_Inr) (use accepted Transact in \<open>simp add: output_events_def\<close>)
  qed
qed (simp_all add: env_ok_def)

lemma run_nullifier_events:
  assumes "run (chain_step R L) w ls w'" "spl_spec R"
  shows "nullifiers_of (events w') = nullifiers_of (events w) @ concat (map spent_nullifiers ls)"
  using assms by (induction rule: run.induct) (auto simp: step_nullifier_events)


text \<open>Every nullifier that was announced has its record.\<close>

definition nullifiers_recorded :: "runtime \<Rightarrow> world \<Rightarrow> bool" where
  "nullifiers_recorded R w \<longleftrightarrow> (\<forall>n \<in> set (nullifiers_of (events w)). nullifier_spent R w n)"

lemma nullifier_spent_step:
  assumes "spl_spec R" "chain_step R L w l w'" "nullifier_spent R w n"
  shows "nullifier_spent R w' n"
  using step_write_once [OF assms(1) _ _ assms(2)] assms(3) by (simp add: nullifier_spent_def)

interpretation recorded: transition_invariant "chain_step R L"
  "\<lambda>w. spl_spec R \<and> singleton R w \<and> nullifiers_recorded R w" for R L
proof unfold_locales
  fix w l w'
  assume inv: "spl_spec R \<and> singleton R w \<and> nullifiers_recorded R w"
    and step: "chain_step R L w l w'"
  have "nullifiers_recorded R w'"
    using inv step_nullifier_events [OF _ step] nullifier_spent_step [OF _ step] step_spends [OF _ _ step]
    by (auto simp: nullifiers_recorded_def)
  with inv singleton.step_inv [OF _ step] show "spl_spec R \<and> singleton R w' \<and> nullifiers_recorded R w'"
    by blast
qed

section \<open>The abstract ledger\<close>

text \<open>
  What a user of the pool is promised, without accounts, addresses or buffers: a list of
  commitments that only grows, a list of spent nullifiers that never repeats, and a balance.
  A spend names one of the last \<open>ROOTS_SIZE\<close> roots of the commitment list.
\<close>

record ledger =
  led_leaves :: "bytes list"
  led_spent :: "bytes list"
  led_balance :: nat

datatype ledger_label =
    Deposit "prog_error + bytes" nat
  | Spend bytes "bytes pair" "bytes pair" nat
  | Donate nat
  | Idle

inductive ledger_step :: "node_hash \<Rightarrow> ledger \<Rightarrow> ledger_label \<Rightarrow> ledger \<Rightarrow> bool"
  for H :: node_hash where
  deposit: "0 < k \<Longrightarrow> length (led_leaves s) < 2 ^ TREE_HEIGHT \<Longrightarrow>
     ledger_step H s (Deposit (Inr cm) k)
       (s\<lparr>led_leaves := led_leaves s @ [cm], led_balance := led_balance s + k\<rparr>)"
| spend: "r \<in> set (recent_roots H TREE_HEIGHT ROOTS_SIZE (led_leaves s)) \<Longrightarrow> r \<noteq> replicate 32 0 \<Longrightarrow>
     n0 \<noteq> n1 \<Longrightarrow> n0 \<notin> set (led_spent s) \<Longrightarrow> n1 \<notin> set (led_spent s) \<Longrightarrow>
     length (led_leaves s) + 2 \<le> 2 ^ TREE_HEIGHT \<Longrightarrow> k \<le> led_balance s \<Longrightarrow>
     ledger_step H s (Spend r (n0, n1) (c0, c1) k)
       (s\<lparr>led_leaves := led_leaves s @ [c0, c1], led_spent := led_spent s @ [n0, n1],
          led_balance := led_balance s - k\<rparr>)"
| donate: "ledger_step H s (Donate k) (s\<lparr>led_balance := led_balance s + k\<rparr>)"
| idle: "ledger_step H s Idle s"

inductive_cases depositE [elim!]: "ledger_step H s (Deposit c k) t"
inductive_cases spendE [elim!]: "ledger_step H s (Spend r ns cs k) t"
inductive_simps ledger_step_idle: "ledger_step H s Idle t"

definition ledger_of :: "runtime \<Rightarrow> pool \<Rightarrow> world \<Rightarrow> ledger" where
  "ledger_of R p w =
     \<lparr>led_leaves = map nc_commitment (commitments_of (events w)),
      led_spent = nullifiers_of (events w),
      led_balance = balance (accts w) (vault_of R p)\<rparr>"

fun ledger_label_of :: "runtime \<Rightarrow> 'fr crypto \<Rightarrow> pool \<Rightarrow> label \<Rightarrow> ledger_label" where
  "ledger_label_of R L p (Accepted (Shield c npk amount enc)) =
     Deposit (note_commitment L npk (asset_id (pool_asset p)) amount) (unat amount)"
| "ledger_label_of R L p (Accepted (Transact c a)) =
     Spend (tx_root a) (tx_nullifiers a) (tx_out_commitments a) (unat (unsigned_abs (tx_ext_amount a)))"
| "ledger_label_of R L p (Accepted (InitPool c d)) = Idle"
| "ledger_label_of R L p (Rejected ins e) = Idle"
| "ledger_label_of R L p (Environment credit) = Donate (credit (vault_of R p))"

definition ledger_inv ::
    "runtime \<Rightarrow> node_hash \<Rightarrow> (bytes \<Rightarrow> bytes list option) \<Rightarrow> pool \<Rightarrow> world \<Rightarrow> bool" where
  "ledger_inv R H lv p w \<longleftrightarrow>
     log_inv R H lv w \<and> vault_inv R p w \<and> nullifiers_recorded R w"

text \<open>The tree account of a configured pool holds exactly the announced commitments.\<close>

lemma log_inv_tree:
  assumes "log_inv R H lv w" "accts w (pool_address R) = Some (PoolAccount p)"
    and "accts w (tree_address R) = Some (TreeAccount data)"
  shows "tree_leaves lv data = Some (map nc_commitment (commitments_of (events w)))"
  using assms by (auto simp: log_inv_def tree_logged_def Let_def)

lemma ledger_of_shield:
  assumes "ledger_inv R H lv p w" "shield R L c npk amount enc w = Inr w'"
    and "pool_address R \<notin> set (sh_signers c)"
  shows "ledger_step H (ledger_of R p w)
    (ledger_label_of R L p (Accepted (Shield c npk amount enc))) (ledger_of R p w')"
proof -
  have inv: "light_spec R H TREE_HEIGHT lv" "spl_spec R" "singleton R w" "vault_inv R p w"
      "log_inv R H lv w" "accts w (pool_address R) = Some (PoolAccount p)"
    using assms(1) by (auto simp: ledger_inv_def log_inv_def vault_inv_def)
  note bal = shield_vault [OF inv(4) assms(2,3)]
  from inv(2) assms(2) show ?thesis
  proof (rule shield_eq_Inr)
    fix q m v d f t data i data' commitment
    assume ok: "shield_accounts_ok R c (accts w) q m v d" and amt: "0 < amount"
      and cm: "note_commitment L npk (asset_id (pool_asset q)) amount = Inr commitment"
      and tree: "accts w (sh_tree c) = Some (TreeAccount data)"
      and app: "append_leaf R data commitment = Inr (i, data')"
      and ev: "events w' = events w @ [NewCommitment
           \<lparr>nc_commitment = commitment, nc_leaf_index = i, nc_encrypted_note = enc\<rparr>]"
    note at = shield_at [OF inv(3) ok]
    have "q = p" using ok at inv(6) by (simp add: shield_accounts_ok_def)
    have "length (commitments_of (events w)) < 2 ^ TREE_HEIGHT"
      using append_with_height_ok [OF inv(1) log_inv_tree [OF inv(5,6)] app [unfolded append_leaf_def]]
        tree at by simp
    then show ?thesis
      using ledger_step.deposit [of "unat amount" "ledger_of R p w" H commitment] amt cm bal ev \<open>q = p\<close>
      by (simp add: ledger_of_def unat_gt_0)
  qed
qed

lemma ledger_of_transact:
  assumes "ledger_inv R H lv p w" "transact R L c a w = Inr w'"
    and "pool_address R \<notin> set (tr_signers c)"
  shows "ledger_step H (ledger_of R p w)
    (ledger_label_of R L p (Accepted (Transact c a))) (ledger_of R p w')"
proof -
  have inv: "light_spec R H TREE_HEIGHT lv" "spl_spec R" "singleton R w" "vault_inv R p w"
      "log_inv R H lv w" "accts w (pool_address R) = Some (PoolAccount p)" "nullifiers_recorded R w"
    using assms(1) by (auto simp: ledger_inv_def log_inv_def vault_inv_def)
  note bal = transact_vault [OF inv(4) assms(2,3)]
  note sp = transact_spends [OF inv(2,3) assms(2)]
  have fresh: "fst (tx_nullifiers a) \<notin> set (nullifiers_of (events w))"
      "snd (tx_nullifiers a) \<notin> set (nullifiers_of (events w))"
    using sp(2,3) inv(7) by (auto simp: nullifiers_recorded_def nullifier_spent_def)
  from inv(2) assms(2) show ?thesis
  proof (rule transact_eq_Inr)
    fix l i data1 j data2
    assume ok: "transact_accounts_ok R c (accts w) l" and ar: "arguments_ok L c a"
      and root: "contains_root R (tl_tree l) (tx_root a) = Inr True"
      and app: "append_leaf R (tl_tree l) (fst (tx_out_commitments a)) = Inr (i, data1)"
        "append_leaf R data1 (snd (tx_out_commitments a)) = Inr (j, data2)"
      and ev: "events w' = events w @ output_events a i j"
    note at = transact_at [OF inv(3) ok]
    have tl: "tree_leaves lv (tl_tree l) = Some (map nc_commitment (commitments_of (events w)))"
      using log_inv_tree [OF inv(5,6)] ok at by (simp add: transact_accounts_ok_def)
    have cap: "length (commitments_of (events w)) + 2 \<le> 2 ^ TREE_HEIGHT"
      using tree_log.push_twice [of R H TREE_HEIGHT lv "tl_tree l"] app tl inv(1)
      by (simp add: append_leaf_def tree_ok_def TREE_HEIGHT_def)
    have neg: "int (unat (unsigned_abs (tx_ext_amount a))) = - sint (tx_ext_amount a)"
      using ar by (simp add: arguments_ok_def unat_unsigned_abs)
    have le: "unat (unsigned_abs (tx_ext_amount a)) \<le> balance (accts w) (vault_of R p)"
        "balance (accts w') (vault_of R p) =
         balance (accts w) (vault_of R p) - unat (unsigned_abs (tx_ext_amount a))"
      using neg bal by linarith+
    have r: "tx_root a \<noteq> replicate 32 0"
        "tx_root a \<in> set (recent_roots H TREE_HEIGHT ROOTS_SIZE (led_leaves (ledger_of R p w)))"
      using root contains_root_iff [OF inv(1) tl, of "tx_root a"] by (auto simp: ledger_of_def)
    obtain n0 n1 c0 c1 where p: "tx_nullifiers a = (n0, n1)" "tx_out_commitments a = (c0, c1)"
      by (metis surj_pair)
    show ?thesis
      using ledger_step.spend [OF r(2,1), of n0 n1 "unat (unsigned_abs (tx_ext_amount a))" c0 c1]
        sp(1) fresh cap le ev p
      by (simp add: ledger_of_def output_events_def)
  qed
qed

lemma ledger_simulates:
  assumes inv: "ledger_inv R H lv p w" and step: "chain_step R L w l w'"
  shows "ledger_step H (ledger_of R p w) (ledger_label_of R L p l) (ledger_of R p w')"
  using step
proof cases
  case (accepted ins)
  show ?thesis
  proof (cases ins)
    case (InitPool c d)
    with accepted have "init_pool R L c d w = Inr w'" by simp
    then have False
      by (rule init_pool_eq_Inr) (use inv in \<open>simp add: ledger_inv_def vault_inv_def\<close>)
    then show ?thesis ..
  next
    case (Shield c npk amount enc)
    with accepted ledger_of_shield [OF inv, of L c npk amount enc w'] show ?thesis by simp
  next
    case (Transact c a)
    with accepted ledger_of_transact [OF inv, of L c a w'] show ?thesis by simp
  qed
next
  case (rejected ins e)
  then show ?thesis by (simp add: ledger_step_idle)
next
  case (environment credit)
  moreover have "balance (accts w') (vault_of R p) = balance (accts w) (vault_of R p) + credit (vault_of R p)"
    using vault_step [of R p w L l w'] inv environment step by (simp add: ledger_inv_def)
  ultimately show ?thesis
    using ledger_step.donate [of H "ledger_of R p w" "credit (vault_of R p)"]
    by (simp add: ledger_of_def env_ok_def)
qed

interpretation ledger: simulation "chain_step R L" "ledger_inv R H lv p" "ledger_step H"
  "ledger_of R p" "ledger_label_of R L p" for R L H lv p
proof unfold_locales
  fix w l w'
  assume inv: "ledger_inv R H lv p w" and step: "chain_step R L w l w'"
  then show "ledger_inv R H lv p w'"
    using log.step_inv [OF _ step] vault.step_inv [OF _ step] recorded.step_inv [OF _ step]
    by (auto simp: ledger_inv_def log_inv_def)
  show "ledger_step H (ledger_of R p w) (ledger_label_of R L p l) (ledger_of R p w')"
    by (rule ledger_simulates [OF inv step])
qed

text \<open>A successful initialisation of an untouched program starts the ledger empty.\<close>

lemma genesis_recorded: "genesis w \<Longrightarrow> nullifiers_recorded R w"
  by (simp add: genesis_def nullifiers_recorded_def)

lemma genesis_singleton: "genesis w \<Longrightarrow> singleton R w"
  by (fastforce simp: genesis_def singleton_def)

end
