(* ===== verification/Pool_Typing.thy ===== *)
theory Pool_Typing
  imports Pool_Ledger
begin

text \<open>
  What the program's own accounts look like in every reachable state, how an accepted spend
  leaves the accounts it used, and how long a root stays known: three invariants over the steps
  of \<open>Pool_Chain\<close>.
\<close>

section \<open>The program's accounts are typed\<close>

text \<open>
  The configuration is at the pool's address with a canonical asset identifier; the tree account
  is at the tree's address and holds a tree of canonical leaves; a nullifier record is at the
  address derived from the nullifier it holds, which is canonical and not zero.
\<close>

fun account_typed :: "runtime \<Rightarrow> (bytes \<Rightarrow> bytes list option) \<Rightarrow> pubkey \<Rightarrow> account \<Rightarrow> bool" where
  "account_typed R lv a (PoolAccount p) \<longleftrightarrow> a = pool_address R \<and> is_scalar (asset_id (pool_asset p))"
| "account_typed R lv a (TreeAccount data) \<longleftrightarrow>
     a = tree_address R \<and>
     (case tree_leaves lv data of Some ls \<Rightarrow> list_all is_scalar ls | None \<Rightarrow> False)"
| "account_typed R lv a (NullifierAccount n) \<longleftrightarrow>
     a = nullifier_address R (nr_nullifier n) \<and> is_scalar (nr_nullifier n) \<and>
     nr_nullifier n \<noteq> replicate 32 0"
| "account_typed R lv a _ \<longleftrightarrow> True"

definition world_typed :: "runtime \<Rightarrow> (bytes \<Rightarrow> bytes list option) \<Rightarrow> world \<Rightarrow> bool" where
  "world_typed R lv w \<longleftrightarrow> (\<forall>a x. accts w a = Some x \<longrightarrow> account_typed R lv a x)"

definition crates_ok :: "runtime \<Rightarrow> 'fr crypto \<Rightarrow> node_hash \<Rightarrow> (bytes \<Rightarrow> bytes list option) \<Rightarrow> bool" where
  "crates_ok R L H lv \<longleftrightarrow> spl_spec R \<and> light_spec R H TREE_HEIGHT lv \<and> fr_spec L \<and> poseidon_spec L"

lemma account_typed_unowned: "\<not> program_owned x \<Longrightarrow> account_typed R lv a x"
  by (cases x) simp_all

lemma world_typedD: "world_typed R lv w \<Longrightarrow> accts w a = Some x \<Longrightarrow> account_typed R lv a x"
  by (simp add: world_typed_def)

lemma world_typed_genesis: "genesis w \<Longrightarrow> world_typed R lv w"
  by (auto simp: genesis_def world_typed_def intro: account_typed_unowned)

lemma world_typed_singleton: "world_typed R lv w \<Longrightarrow> singleton R w"
  by (force simp: world_typed_def singleton_def)

lemma transferred_typed:
  assumes "transfer_conditions accs from_a mint to_a amount d f t"
    and "\<And>x. accs a = Some x \<Longrightarrow> account_typed R lv a x"
    and "transferred accs from_a to_a amount f t a = Some x"
  shows "account_typed R lv a x"
  using transferred_program_owned [OF assms(1), of x a] account_typed_unowned assms(2,3) by blast

lemma tree_typed_append:
  assumes "light_spec R H TREE_HEIGHT lv" "account_typed R lv a (TreeAccount data)" "is_scalar cm"
    and "append_leaf R data cm = Inr (i, data')"
  shows "account_typed R lv a (TreeAccount data')"
proof -
  obtain ls where ls: "tree_leaves lv data = Some ls" "list_all is_scalar ls"
    using assms(2) by (auto split: option.splits)
  from append_with_height_ok [OF assms(1) ls(1) assms(4) [unfolded append_leaf_def]] assms(2,3) ls(2)
  show ?thesis by simp
qed

lemma typed_init:
  assumes "crates_ok R L H lv" "world_typed R lv w" "init_pool R L c d w = Inr w'"
    and "length (ip_mint c) = 32"
  shows "world_typed R lv w'"
  using assms(3)
proof (rule init_pool_eq_Inr)
  fix aid data
  assume ac: "ip_pool c = pool_address R" "ip_tree c = tree_address R"
    and aid: "asset_id_of L (ip_mint c) = Inr aid"
    and ini: "initialize R (replicate (account_space R) 0) = Inr data"
    and w': "accts w' = (accts w)(ip_pool c \<mapsto> PoolAccount (configured_pool R c aid d),
           ip_tree c \<mapsto> TreeAccount data,
           ip_vault c \<mapsto> TokenAccount \<lparr>ta_mint = ip_mint c, ta_owner = ip_pool c,
                            ta_amount = 0, ta_frozen = False\<rparr>)"
  have light: "light_spec R H TREE_HEIGHT lv" and "is_scalar aid"
    using assms(1,4) aid asset_id_of_total [of L "ip_mint c"] by (auto simp: crates_ok_def)
  obtain data0 where "initialize R (replicate (account_space R) 0) = Inr data0"
      "tree_leaves lv data0 = Some []"
    using initialize_with_height_fresh [OF light, of "replicate (account_space R) 0"]
    by (auto simp: initialize_def account_space_def)
  with ini \<open>is_scalar aid\<close> assms(2) ac show ?thesis
    by (auto simp: world_typed_def w' configured_pool_def)
qed

lemma typed_shield:
  assumes "crates_ok R L H lv" "world_typed R lv w" "shield R L c npk amount note w = Inr w'"
  shows "world_typed R lv w'"
proof -
  have specs: "spl_spec R" "light_spec R H TREE_HEIGHT lv" "fr_spec L" "poseidon_spec L"
    using assms(1) by (simp_all add: crates_ok_def)
  from specs(1) assms(3) show ?thesis
  proof (rule shield_eq_Inr)
    fix p m v d f t data i data' commitment
    assume tc: "transfer_conditions (accts w) (sh_depositor_ata c) (sh_mint c) (sh_vault c) amount
           (mint_decimals m) f t"
      and cm: "note_commitment L npk (asset_id (pool_asset p)) amount = Inr commitment"
      and tree: "accts w (sh_tree c) = Some (TreeAccount data)"
      and app: "append_leaf R data commitment = Inr (i, data')"
      and w': "accts w' = (transferred (accts w) (sh_depositor_ata c) (sh_vault c) amount f t)
           (sh_tree c \<mapsto> TreeAccount data')"
    have "is_scalar commitment"
      using cm poseidon_scalar [OF specs(4)] by (auto simp: note_commitment_def poseidon_def)
    from tree_typed_append [OF specs(2) world_typedD [OF assms(2) tree] this app]
    show ?thesis
      using transferred_typed [OF tc world_typedD [OF assms(2)]] unfolding world_typed_def w'
      by (auto split: if_splits)
  qed
qed

lemma typed_transact:
  assumes "crates_ok R L H lv" "world_typed R lv w" "transact R L c b w = Inr w'"
  shows "world_typed R lv w'"
proof -
  have specs: "spl_spec R" "light_spec R H TREE_HEIGHT lv" "fr_spec L"
    using assms(1) by (simp_all add: crates_ok_def)
  from specs(1) assms(3) show ?thesis
  proof (rule transact_eq_Inr)
    fix l accs i data1 j data2
    assume ok: "transact_accounts_ok R c (accts w) l"
      and fr: "nullifiers_fresh R c (tx_nullifiers b) (accts w)" and ar: "arguments_ok L c b"
      and po: "paid_out c l b (spent c (tx_nullifiers b) (accts w)) accs"
      and app: "append_leaf R (tl_tree l) (fst (tx_out_commitments b)) = Inr (i, data1)"
        "append_leaf R data1 (snd (tx_out_commitments b)) = Inr (j, data2)"
      and w': "accts w' = accs(tr_tree c \<mapsto> TreeAccount data2)"
    have can: "is_canonical_field L x \<Longrightarrow> is_scalar x" for x
      by (rule is_canonical_field_scalar [OF specs(3)])
    have tree: "account_typed R lv (tr_tree c) (TreeAccount (tl_tree l))"
      using ok by (intro world_typedD [OF assms(2)]) (simp add: transact_accounts_ok_def)
    have out: "is_scalar (fst (tx_out_commitments b))" "is_scalar (snd (tx_out_commitments b))"
      using ar can by (simp_all add: arguments_ok_def both_def)
    note tree2 = tree_typed_append [OF specs(2) tree_typed_append [OF specs(2) tree out(1) app(1)] out(2) app(2)]
    have pool: "tr_pool c = pool_address R"
      by (rule transact_at(1) [OF world_typed_singleton [OF assms(2)] ok])
    have spent: "account_typed R lv a x" if "spent c (tx_nullifiers b) (accts w) a = Some x" for a x
      using that fr ar pool can world_typedD [OF assms(2), of a x]
      by (auto simp: spent_def nullifiers_fresh_def nullifier_address_def arguments_ok_def both_def
          split: if_splits)
    have "account_typed R lv a x" if "accs a = Some x" for a x
    proof (cases "sint (tx_ext_amount b) < 0")
      case True
      then obtain f t where tc: "transfer_conditions (spent c (tx_nullifiers b) (accts w)) (tr_vault c) (tr_mint c)
          (tr_recipient_ata c) (unsigned_abs (tx_ext_amount b)) (mint_decimals (tl_mint l)) f t"
        and accs: "accs = transferred (spent c (tx_nullifiers b) (accts w)) (tr_vault c) (tr_recipient_ata c)
          (unsigned_abs (tx_ext_amount b)) f t"
        using po by (auto simp: paid_out_def)
      show ?thesis by (rule transferred_typed [OF tc spent that [unfolded accs]])
    next
      case False
      then show ?thesis using po spent that by (simp add: paid_out_def)
    qed
    with tree2 show ?thesis unfolding world_typed_def w' by (auto split: if_splits)
  qed
qed

text \<open>An address is 32 bytes, whoever builds the transaction.\<close>

fun mint_is_address :: "label \<Rightarrow> bool" where
  "mint_is_address (Accepted (InitPool c d)) \<longleftrightarrow> length (ip_mint c) = 32"
| "mint_is_address _ \<longleftrightarrow> True"

definition typed_step :: "runtime \<Rightarrow> 'fr crypto \<Rightarrow> world \<Rightarrow> label \<Rightarrow> world \<Rightarrow> bool" where
  "typed_step R L w l w' \<longleftrightarrow> chain_step R L w l w' \<and> mint_is_address l"

lemma step_typed:
  assumes "crates_ok R L H lv" "world_typed R lv w" "chain_step R L w l w'" "mint_is_address l"
  shows "world_typed R lv w'"
  using assms(3)
proof cases
  case (accepted ins)
  then show ?thesis
    using typed_init [OF assms(1,2)] typed_shield [OF assms(1,2)] typed_transact [OF assms(1,2)] assms(4)
    by (cases ins) auto
next
  case (environment credit)
  have "account_typed R lv a x" if "accts w' a = Some x" for a x
    using that environment(2) world_typedD [OF assms(2), of a x] account_typed_unowned [of x R lv a]
    unfolding env_ok_def by blast
  then show ?thesis by (simp add: world_typed_def)
qed (use assms(2) in simp)

interpretation typed: transition_invariant "typed_step R L"
  "\<lambda>w. crates_ok R L H lv \<and> world_typed R lv w" for R L H lv
  by unfold_locales (auto simp: typed_step_def intro: step_typed)

lemma run_typed_step:
  "run (chain_step R L) w ls w' \<Longrightarrow> list_all mint_is_address ls \<Longrightarrow> run (typed_step R L) w ls w'"
  by (induction rule: run.induct) (auto simp: typed_step_def intro: run.intros)

section \<open>What an accepted spend leaves\<close>

text \<open>
  Every account a spend was given is still of its kind afterwards, so the same instruction loads
  again; its records now exist.
\<close>

lemma paid_out_keeps:
  assumes "paid_out c l a accs accs'"
  shows "accs b = Some x \<Longrightarrow> (\<And>t. x \<noteq> TokenAccount t) \<Longrightarrow> accs' b = Some x"
    and "accs b = Some (TokenAccount t) \<Longrightarrow> \<exists>t'. accs' b = Some (TokenAccount t')"
proof -
  have paid: "accs' = accs \<or> (\<exists>f t. transfer_conditions accs (tr_vault c) (tr_mint c) (tr_recipient_ata c)
      (unsigned_abs (tx_ext_amount a)) (mint_decimals (tl_mint l)) f t \<and>
      accs' = transferred accs (tr_vault c) (tr_recipient_ata c) (unsigned_abs (tx_ext_amount a)) f t)"
    using assms by (auto simp: paid_out_def split: if_splits)
  show "accs' b = Some x" if "accs b = Some x" "\<And>t. x \<noteq> TokenAccount t"
    using paid that transferred_frame [of accs] by fastforce
  show "\<exists>t'. accs' b = Some (TokenAccount t')" if "accs b = Some (TokenAccount t)"
    using paid that transferred_token [of accs] by fastforce
qed

lemma accepted_loads_again:
  assumes "spl_spec R" "transact R L c a w = Inr w'"
  shows "\<exists>l. transact_loads R c (accts w') = Inr l" and "accts w' (tr_nullifier_0_record c) \<noteq> None"
    and "fst (find_program_address R (nullifier_seeds (tr_pool c) (fst (tx_nullifiers a))) pool_program_id) =
      tr_nullifier_0_record c"
proof -
  obtain l accs data2 where ok: "transact_accounts_ok R c (accts w) l"
    and fr: "nullifiers_fresh R c (tx_nullifiers a) (accts w)"
    and po: "paid_out c l a (spent c (tx_nullifiers a) (accts w)) accs"
    and w': "accts w' = accs(tr_tree c \<mapsto> TreeAccount data2)"
    using assms by (rule transact_eq_Inr)
  note acc = ok [unfolded transact_accounts_ok_def]
  have keep: "accts w' b = Some x" if "accts w b = Some x" "\<And>t. x \<noteq> TokenAccount t" "\<And>d. x \<noteq> TreeAccount d" for b x
    using paid_out_keeps(1) [OF po spent_other [OF fr that(1)] that(2)] that(1) that(3) [of "tl_tree l"] acc w'
    by auto
  have token: "\<exists>t'. accts w' b = Some (TokenAccount t')" if "accts w b = Some (TokenAccount t)" for b t
    using paid_out_keeps(2) [OF po spent_other [OF fr that]] that acc w' by auto
  obtain t t' where "accts w' (tr_vault c) = Some (TokenAccount t)" "accts w' (tr_recipient_ata c) = Some (TokenAccount t')"
    using token acc by blast
  moreover have "accts w' (tr_pool c) = Some (PoolAccount (tl_pool l))"
    "accts w' (tr_mint c) = Some (MintAccount (tl_mint l))"
    using acc by (intro keep; simp)+
  moreover have "executable (accts w') (tr_token_program c)" "executable (accts w') (tr_system_program c)"
    using acc keep unfolding executable_iff by blast+
  then have "\<exists>d. load_program (accts w') (token_program_id R) (tr_token_program c) = Inr d"
    "\<exists>d. load_program (accts w') (system_program_id R) (tr_system_program c) = Inr d"
    using acc by (simp_all only: load_program_executable simp_thms)
  moreover have "accts w' (tr_tree c) = Some (TreeAccount data2)" by (simp add: w')
  ultimately have "transact_loads R c (accts w') =
      Inr \<lparr>tl_pool = tl_pool l, tl_tree = data2, tl_vault = t, tl_mint = tl_mint l, tl_recipient = t'\<rparr>"
    using acc by (simp add: transact_loads_iff del: load_program_eq_Inr)
  then show "\<exists>l. transact_loads R c (accts w') = Inr l" by blast
  have "spent c (tx_nullifiers a) (accts w) (tr_nullifier_0_record c) =
      Some (NullifierAccount \<lparr>nr_nullifier = fst (tx_nullifiers a)\<rparr>)"
    using fr by (auto simp: spent_def nullifiers_fresh_def)
  from paid_out_keeps(1) [OF po this] w' show "accts w' (tr_nullifier_0_record c) \<noteq> None" by simp
  show "fst (find_program_address R (nullifier_seeds (tr_pool c) (fst (tx_nullifiers a))) pool_program_id) =
      tr_nullifier_0_record c"
    using fr by (simp add: nullifiers_fresh_def)
qed

lemma spent_record_refused:
  assumes "transact_loads R c (accts w) = Inr l" "accts w (tr_nullifier_0_record c) \<noteq> None"
    and "fst (find_program_address R (nullifier_seeds (tr_pool c) (fst (tx_nullifiers a))) pool_program_id) =
      tr_nullifier_0_record c"
  shows "transact R L c a w = Inl (AnchorErr AccountInUse)"
proof -
  obtain x where "accts w (tr_nullifier_0_record c) = Some x" using assms(2) by blast
  with assms(1,3) show ?thesis
    by (simp add: transact_def transact_accounts_def transact_created_def init_pda_def init_account_def)
qed

section \<open>How long a root stays known\<close>

lemma step_events_grow:
  assumes "spl_spec R" "chain_step R L w l w'"
  shows "\<exists>es. events w' = events w @ es"
  using assms(2)
proof cases
  case (accepted ins)
  show ?thesis
  proof (cases ins)
    case (InitPool c d)
    with accepted have "init_pool R L c d w = Inr w'" by simp
    then show ?thesis by (rule init_pool_eq_Inr) auto
  next
    case (Shield c npk amount enc)
    with accepted have "shield R L c npk amount enc w = Inr w'" by simp
    with assms(1) show ?thesis by (rule shield_eq_Inr) auto
  next
    case (Transact c a)
    with accepted have "transact R L c a w = Inr w'" by simp
    with assms(1) show ?thesis by (rule transact_eq_Inr) auto
  qed
qed (auto simp: env_ok_def)

lemma run_events_grow:
  "run (chain_step R L) w ls w' \<Longrightarrow> spl_spec R \<Longrightarrow> \<exists>es. events w' = events w @ es"
proof (induction rule: run.induct)
  case (run_cons w l t ls u)
  then show ?case using step_events_grow [of R L w l t] by fastforce
qed simp

lemma logged_leaves_grow:
  assumes "tree_logged lv data (events w)" "tree_logged lv data' (events w')" "events w' = events w @ es"
    and "tree_leaves lv data = Some ls"
  shows "\<exists>new. tree_leaves lv data' = Some (ls @ new) \<and> length new = length (commitments_of es)"
  using assms by (auto simp: tree_logged_def Let_def)

lemma prefix_root_contained:
  assumes "light_spec R H TREE_HEIGHT lv" "tree_leaves lv data = Some (ls @ new)" "length new < ROOTS_SIZE"
    and "root = mroot H TREE_HEIGHT ls"
  shows "contains_root R data root = Inr (root \<noteq> replicate 32 0)"
proof -
  have "root \<in> set (recent_roots H TREE_HEIGHT ROOTS_SIZE (ls @ new))"
    unfolding recent_roots_iff using assms(3,4) by (intro exI [of _ "length ls"]) simp
  then show ?thesis unfolding contains_root_iff [OF assms(1,2)] by simp
qed

lemma prefix_root_known:
  assumes "light_spec R H TREE_HEIGHT lv" "tree_leaves lv data = Some (ls @ new)" "length new < ROOTS_SIZE"
    and "root = mroot H TREE_HEIGHT ls" "root \<noteq> replicate 32 0"
  shows "contains_root R data root = Inr True"
  using prefix_root_contained [OF assms(1-4)] assms(5) by simp

end
