(* ===== verification/Pool_Reference.thy ===== *)
theory Pool_Reference
  imports Pool_Chain
begin

text \<open>
  A computable instance of \<open>runtime\<close> that satisfies every contract the theorems assume of
  Solana, SPL Token and Light, and a concrete history on it: an initialisation, a deposit of
  1000 and a spend that withdraws 300. The theorems about the pool are applied to it, so
  their hypotheses can be met together.
\<close>

section \<open>Addresses\<close>

definition addr :: "nat \<Rightarrow> pubkey" where
  "addr k = be_bytes 32 k"

lemma length_addr [simp]: "length (addr k) = 32"
  by (simp add: addr_def)

lemma be_val_addr [simp]: "be_val (addr k) = k mod 256 ^ 32"
  unfolding addr_def by (rule be_val_be_bytes)

lemma addr_eq_iff [simp]: "k < 256 ^ 32 \<Longrightarrow> l < 256 ^ 32 \<Longrightarrow> addr k = addr l \<longleftrightarrow> k = l"
  unfolding addr_def by (rule be_bytes_inj)

lemma addr_zero_iff: "k < 256 ^ 32 \<Longrightarrow> addr k = replicate 32 0 \<longleftrightarrow> k = 0"
  using addr_eq_iff [of k 0] by (simp add: addr_def)

lemma addr_scalar: "k < bn254_r \<Longrightarrow> is_scalar (addr k)"
  by (simp add: addr_def is_scalar_be_bytes)

text \<open>A derivation that keeps the program's addresses apart, with the bump 255.\<close>

definition ref_derive :: "bytes list \<Rightarrow> pubkey" where
  "ref_derive seeds = addr ((be_val (concat seeds) + length (concat seeds)) mod 256 ^ 32)"

section \<open>Light's tree on a growing buffer\<close>

fun chunks32 :: "bytes \<Rightarrow> bytes list" where
  "chunks32 [] = []"
| "chunks32 (b # bs) = (b # take 31 bs) # chunks32 (drop 31 bs)"

lemma length_chunks32: "32 dvd length buf \<Longrightarrow> length (chunks32 buf) = length buf div 32"
proof (induction buf rule: chunks32.induct)
  case (2 b bs)
  then have "length (b # bs) \<ge> 32" by (intro dvd_imp_le) auto
  moreover from this have "32 dvd length (drop 31 bs)"
    using 2(2) dvd_diff_nat [of 32 "length (b # bs)" 32] by simp
  ultimately show ?case using 2(1) by (simp add: le_div_geq)
qed simp

lemma chunks32_append:
  assumes "32 dvd length buf" "length leaf = 32"
  shows "chunks32 (buf @ leaf) = chunks32 buf @ [leaf]"
  using assms
proof (induction buf rule: chunks32.induct)
  case 1
  then show ?case by (cases leaf) auto
next
  case (2 b bs)
  then have "length (b # bs) \<ge> 32" by (intro dvd_imp_le) auto
  moreover from this have "32 dvd length (drop 31 bs)"
    using 2(2) dvd_diff_nat [of 32 "length (b # bs)" 32] by simp
  ultimately show ?case using 2 by simp
qed

definition ref_node :: node_hash where
  "ref_node = poseidon_node ref_crypto"

definition ref_leaves :: "bytes \<Rightarrow> bytes list option" where
  "ref_leaves buf =
     (if 32 dvd length buf \<and> length buf div 32 \<le> 2 ^ TREE_HEIGHT then Some (chunks32 buf) else None)"

section \<open>The reference runtime\<close>

definition ref_transfer ::
    "accounts \<Rightarrow> pubkey \<Rightarrow> pubkey \<Rightarrow> pubkey \<Rightarrow> pubkey \<Rightarrow> u64 \<Rightarrow> u8 \<Rightarrow> accounts option" where
  "ref_transfer accs from_a mint to_a authority amount decimals =
     (case (accs from_a, accs to_a) of
        (Some (TokenAccount f), Some (TokenAccount t)) \<Rightarrow>
          if transfer_conditions accs from_a mint to_a amount decimals f t \<and> ta_owner f = authority
          then Some (transferred accs from_a to_a amount f t) else None
      | _ \<Rightarrow> None)"

definition ref_runtime :: runtime where
  "ref_runtime =
     \<lparr>find_program_address = (\<lambda>seeds program. (ref_derive seeds, 255)),
      create_program_address = (\<lambda>seeds program.
        if seeds \<noteq> [] \<and> last seeds = [255] then Some (ref_derive (butlast seeds)) else None),
      ata_address = (\<lambda>wallet mint. addr ((be_val wallet + be_val mint + 1000) mod 256 ^ 32)),
      token_program_id = addr 10, ata_program_id = addr 11, system_program_id = addr 0,
      sys_create = (\<lambda>accs payer a space. True),
      cpi_invoke = (\<lambda>program data. length data = 624 \<and> hd data = 1),
      transfer_checked = ref_transfer,
      zc_size_in_account = (\<lambda>h changelog roots canopy. 0),
      zc_from_bytes_init = (\<lambda>h buf height canopy changelog roots. Some buf),
      zc_tree_init = (\<lambda>h buf. Some buf),
      zc_from_bytes = (\<lambda>h buf. 32 dvd length buf),
      zc_next_index = (\<lambda>buf. length buf div 32),
      zc_append = (\<lambda>h buf leaf.
        if is_scalar leaf \<and> length buf div 32 < 2 ^ h then Some (buf @ leaf) else None),
      zc_roots = (\<lambda>h buf. recent_roots ref_node h ROOTS_SIZE (chunks32 buf))\<rparr>"

lemma ref_runtime_simps [simp]:
  "find_program_address ref_runtime seeds program = (ref_derive seeds, 255)"
  "create_program_address ref_runtime seeds program =
     (if seeds \<noteq> [] \<and> last seeds = [255] then Some (ref_derive (butlast seeds)) else None)"
  "ata_address ref_runtime wallet mint = addr ((be_val wallet + be_val mint + 1000) mod 256 ^ 32)"
  "token_program_id ref_runtime = addr 10"
  "ata_program_id ref_runtime = addr 11"
  "system_program_id ref_runtime = addr 0"
  "sys_create ref_runtime accs payer a space"
  "cpi_invoke ref_runtime program data \<longleftrightarrow> length data = 624 \<and> hd data = 1"
  "transfer_checked ref_runtime = ref_transfer"
  "zc_size_in_account ref_runtime h cl rs cn = 0"
  by (simp_all add: ref_runtime_def)

lemma ref_pda_spec: "pda_spec ref_runtime"
  by (simp add: pda_spec_def)

lemma ref_spl_spec: "spl_spec ref_runtime"
  unfolding spl_spec_def
proof (intro conjI allI impI)
  fix accs from_a mint to_a authority amount decimals accs'
  assume "transfer_checked ref_runtime accs from_a mint to_a authority amount decimals = Some accs'"
  then show "\<exists>f t. transfer_conditions accs from_a mint to_a amount decimals f t \<and>
      accs' = transferred accs from_a to_a amount f t"
    by (auto simp: ref_transfer_def split: option.splits account.splits if_splits)
next
  fix accs from_a mint to_a amount decimals f t
  assume tc: "transfer_conditions accs from_a mint to_a amount decimals f t"
  with transfer_conditions_accounts [OF tc]
  show "transfer_checked ref_runtime accs from_a mint to_a (ta_owner f) amount decimals \<noteq> None"
    by (simp add: ref_transfer_def)
qed

lemma ref_light_spec: "light_spec ref_runtime ref_node TREE_HEIGHT ref_leaves"
  unfolding light_spec_def
proof (intro conjI allI impI)
  fix buf ls leaf t
  assume lv: "ref_leaves buf = Some ls" and ap: "zc_append ref_runtime TREE_HEIGHT buf leaf = Some t"
  have b: "32 dvd length buf" "ls = chunks32 buf"
    using lv by (auto simp: ref_leaves_def split: if_splits)
  have a: "is_scalar leaf" "length buf div 32 < 2 ^ TREE_HEIGHT" "t = buf @ leaf"
    using ap by (auto simp: ref_runtime_def split: if_splits)
  have "length leaf = 32" using a(1) by (rule is_scalar_length)
  then show "ref_leaves t = Some (ls @ [leaf])"
    using a b chunks32_append [of buf leaf] by (simp add: ref_leaves_def)
  show "length ls < 2 ^ TREE_HEIGHT"
    using a b by (simp add: length_chunks32)
qed (auto simp: ref_leaves_def ref_runtime_def length_chunks32 split: if_splits)

section \<open>A concrete history\<close>

lemma pool_program_id_addr: "pool_program_id = addr 81145657238235303524933475528894384072213415588940573023040210031520962692284"
proof -
  have "be_val pool_program_id = 81145657238235303524933475528894384072213415588940573023040210031520962692284"
    by (simp add: pool_program_id_def)
  then show ?thesis unfolding addr_def using be_bytes_be_val [OF length_pool_program_id] by simp
qed

lemma ref_pool_address: "pool_address ref_runtime = addr 123623913059898"
  by (simp add: pool_address_def pool_seeds_def ref_derive_def VERSION_SEED_def ascii_def)

lemma ref_tree_address: "tree_address ref_runtime = addr 123623913059934"
  unfolding tree_address_def ref_pool_address
  by (simp add: tree_seeds_def ref_derive_def ascii_def be_val_append)

lemma ref_nullifier_address:
  "nullifier_address ref_runtime (addr 501) = addr 574"
  "nullifier_address ref_runtime (addr 502) = addr 575"
  unfolding nullifier_address_def ref_pool_address
  by (simp_all add: nullifier_seeds_def ref_derive_def ascii_def be_val_append)

lemma ref_vault_address: "ata_address ref_runtime (addr 123623913059898) (addr 1) = addr 123623913060899"
  by simp

text \<open>
  The accounts before the program's first instruction: the mint 1, a depositor 2 with the
  token account 3, a recipient 4 with the token account 5, the verifier 6, the upgrade
  authority 7, the program data 8, the programs 10 and 11 and the System program 0.
\<close>

definition demo_world :: world where
  "demo_world = \<lparr>accts =
     [pool_program_id \<mapsto> ProgramAccount (Some (addr 8)),
      addr 1 \<mapsto> MintAccount \<lparr>mint_decimals = 6\<rparr>,
      addr 3 \<mapsto> TokenAccount \<lparr>ta_mint = addr 1, ta_owner = addr 2, ta_amount = 5000, ta_frozen = False\<rparr>,
      addr 5 \<mapsto> TokenAccount \<lparr>ta_mint = addr 1, ta_owner = addr 4, ta_amount = 0, ta_frozen = False\<rparr>,
      addr 6 \<mapsto> ProgramAccount None,
      addr 8 \<mapsto> ProgramDataAccount (Some (addr 7)),
      addr 10 \<mapsto> ProgramAccount None, addr 11 \<mapsto> ProgramAccount None,
      addr 0 \<mapsto> ProgramAccount None],
     events = []\<rparr>"

definition demo_init :: init_pool_ctx where
  "demo_init =
     \<lparr>ip_pool = addr 123623913059898, ip_tree = addr 123623913059934, ip_mint = addr 1, ip_vault = addr 123623913060899,
      ip_verifier_program = addr 6, ip_authority = addr 7, ip_pool_program = pool_program_id,
      ip_program_data = addr 8, ip_token_program = addr 10, ip_associated_token_program = addr 11,
      ip_system_program = addr 0, ip_signers = [addr 7]\<rparr>"

definition demo_shield :: shield_ctx where
  "demo_shield =
     \<lparr>sh_pool = addr 123623913059898, sh_tree = addr 123623913059934, sh_vault = addr 123623913060899, sh_mint = addr 1,
      sh_depositor = addr 2, sh_depositor_ata = addr 3, sh_token_program = addr 10,
      sh_signers = [addr 2]\<rparr>"

definition demo_transact :: transact_ctx where
  "demo_transact =
     \<lparr>tr_pool = addr 123623913059898, tr_tree = addr 123623913059934, tr_vault = addr 123623913060899, tr_mint = addr 1,
      tr_nullifier_0_record = addr 574, tr_nullifier_1_record = addr 575, tr_recipient_ata = addr 5,
      tr_verifier_program = addr 6, tr_payer = addr 2, tr_token_program = addr 10,
      tr_system_program = addr 0, tr_signers = [addr 2]\<rparr>"

definition demo_domain :: bytes where "demo_domain = addr 900"
definition demo_npk :: bytes where "demo_npk = addr 901"

definition demo_asset_id :: bytes where
  "demo_asset_id = projr (asset_id_of ref_crypto (addr 1))"

definition demo_commitment :: bytes where
  "demo_commitment = projr (note_commitment ref_crypto demo_npk demo_asset_id 1000)"

definition demo_args :: transact_args where
  "demo_args =
     \<lparr>tx_proof = 1 # replicate 387 0,
      tx_root = mroot ref_node TREE_HEIGHT [demo_commitment],
      tx_nullifiers = (addr 501, addr 502), tx_out_commitments = (addr 601, addr 602),
      tx_ext_amount = - 300,
      tx_ext_data = \<lparr>ed_recipient = addr 4, ed_encrypted_notes = ([7], [8, 9])\<rparr>\<rparr>"

lemmas demo_defs = demo_init_def demo_shield_def demo_transact_def

lemma demo_asset_id: "asset_id_of ref_crypto (addr 1) = Inr demo_asset_id" "is_scalar demo_asset_id"
  using asset_id_of_total [OF ref_poseidon_spec, of "addr 1"] by (auto simp: demo_asset_id_def)

lemma demo_commitment:
  "note_commitment ref_crypto demo_npk demo_asset_id 1000 = Inr demo_commitment"
  "is_scalar demo_commitment"
  using note_commitment_total [OF ref_poseidon_spec _ demo_asset_id(2), of demo_npk 1000]
  by (auto simp: demo_commitment_def demo_npk_def addr_scalar bn254_r_def)

lemma demo_genesis: "genesis demo_world"
  by (auto simp: genesis_def demo_world_def split: if_splits)

section \<open>The history runs\<close>

definition demo_w1 :: world where
  "demo_w1 = projr (init_pool ref_runtime ref_crypto demo_init demo_domain demo_world)"

definition demo_w2 :: world where
  "demo_w2 = projr (shield ref_runtime ref_crypto demo_shield demo_npk 1000 [1, 2, 3] demo_w1)"

definition demo_w3 :: world where
  "demo_w3 = projr (transact ref_runtime ref_crypto demo_transact demo_args demo_w2)"

definition demo_pool :: pool where
  "demo_pool =
     \<lparr>pool_verifier = addr 6, pool_asset = \<lparr>asset_mint = addr 1, asset_id = demo_asset_id\<rparr>,
      pool_domain = demo_domain, pool_bump = 255\<rparr>"

lemma ref_pool_seeds: "ref_derive pool_seeds = addr 123623913059898"
  using ref_pool_address by (simp add: pool_address_def)

lemma ref_tree_seeds: "ref_derive (tree_seeds (addr 123623913059898)) = addr 123623913059934"
  using ref_tree_address by (simp add: tree_address_def ref_pool_address)

lemma ref_nullifier_seeds:
  "ref_derive (nullifier_seeds (addr 123623913059898) (addr 501)) = addr 574"
  "ref_derive (nullifier_seeds (addr 123623913059898) (addr 502)) = addr 575"
  using ref_nullifier_address by (simp_all add: nullifier_address_def ref_pool_address)

lemmas ref_addresses = ref_pool_seeds ref_tree_seeds ref_nullifier_seeds

lemma demo_init_enabled: "init_pool_enabled ref_runtime demo_init (accts demo_world)"
proof -
  have "init_addresses_ok ref_runtime demo_init"
    using ref_addresses
    by (simp add: init_addresses_ok_def demo_init_def pool_seeds_def tree_seeds_def VERSION_SEED_def)
  then show ?thesis
    by (simp add: init_pool_enabled_def init_creatable_def Let_def demo_init_def demo_world_def
        executable_iff pool_program_id_addr)
qed

lemma demo_init_ok:
  "init_pool ref_runtime ref_crypto demo_init demo_domain demo_world = Inr demo_w1"
  using init_pool_succeeds [OF ref_light_spec ref_poseidon_spec _ demo_init_enabled, of demo_domain]
  by (auto simp: demo_w1_def demo_init_def)

lemma demo_w1:
  "accts demo_w1 = (accts demo_world)(
     addr 123623913059898 \<mapsto> PoolAccount demo_pool, addr 123623913059934 \<mapsto> TreeAccount (replicate 8 0),
     addr 123623913060899 \<mapsto> TokenAccount \<lparr>ta_mint = addr 1, ta_owner = addr 123623913059898,
       ta_amount = 0, ta_frozen = False\<rparr>)"
  "events demo_w1 = []"
proof -
  have ini: "initialize ref_runtime (replicate (account_space ref_runtime) 0) = Inr (replicate 8 0)"
    by (simp add: initialize_def initialize_with_height_def slice_from_def account_space_def
        DISCRIMINATOR_def ref_runtime_def)
  from demo_init_ok show "accts demo_w1 = (accts demo_world)(
     addr 123623913059898 \<mapsto> PoolAccount demo_pool, addr 123623913059934 \<mapsto> TreeAccount (replicate 8 0),
     addr 123623913060899 \<mapsto> TokenAccount \<lparr>ta_mint = addr 1, ta_owner = addr 123623913059898,
       ta_amount = 0, ta_frozen = False\<rparr>)" and "events demo_w1 = []"
    by (rule init_pool_eq_Inr, use ini demo_asset_id in
        \<open>simp add: demo_init_def configured_pool_def demo_pool_def demo_world_def\<close>)+
qed

lemma demo_shield_enabled:
  assumes "be_val npk < bn254_r" "length payload \<le> MAX_ENCRYPTED_NOTE_LEN"
  shows "shield_enabled ref_runtime ref_leaves demo_shield npk 1000 payload (accts demo_w1)"
proof -
  let ?v = "\<lparr>ta_mint = addr 1, ta_owner = addr 123623913059898, ta_amount = 0, ta_frozen = False\<rparr>"
  let ?d = "\<lparr>ta_mint = addr 1, ta_owner = addr 2, ta_amount = 5000, ta_frozen = False\<rparr>"
  let ?m = "\<lparr>mint_decimals = 6\<rparr>"
  have "shield_accounts_ok ref_runtime demo_shield (accts demo_w1) demo_pool ?m ?v ?d"
    by (simp add: shield_accounts_ok_def demo_w1 demo_world_def demo_shield_def demo_pool_def
        pool_seeds_ok_def tree_seeds_ok_def ref_addresses executable_iff pool_program_id_addr)
  moreover have "transfer_conditions (accts demo_w1) (sh_depositor_ata demo_shield) (sh_mint demo_shield)
      (sh_vault demo_shield) 1000 (mint_decimals ?m) ?d ?v"
    by (simp add: transfer_conditions_def demo_w1 demo_world_def demo_shield_def pool_program_id_addr)
  moreover have "accts demo_w1 (sh_tree demo_shield) = Some (TreeAccount (replicate 8 0))"
    by (simp add: demo_w1 demo_shield_def)
  moreover have "tree_leaves ref_leaves (replicate 8 0) = Some []"
    by (simp add: tree_leaves_def DISCRIMINATOR_def ref_leaves_def)
  ultimately show ?thesis
    unfolding shield_enabled_def using assms by (intro exI conjI) (assumption | simp)+
qed

lemma demo_shield_total:
  assumes "is_scalar npk" "length payload \<le> MAX_ENCRYPTED_NOTE_LEN"
  shows "\<exists>w'. shield ref_runtime ref_crypto demo_shield npk 1000 payload demo_w1 = Inr w'"
proof -
  have "\<And>p. accts demo_w1 (sh_pool demo_shield) = Some (PoolAccount p) \<Longrightarrow> is_scalar (asset_id (pool_asset p))"
    using demo_asset_id by (auto simp: demo_w1 demo_shield_def demo_pool_def)
  from shield_succeeds [OF ref_spl_spec ref_light_spec ref_fr_spec ref_poseidon_spec _ this demo_shield_enabled]
  show ?thesis using assms by (simp add: is_scalar_def)
qed

lemma demo_shield_ok:
  "shield ref_runtime ref_crypto demo_shield demo_npk 1000 [1, 2, 3] demo_w1 = Inr demo_w2"
  using demo_shield_total [of demo_npk "[1, 2, 3]"]
  by (auto simp: demo_w2_def demo_npk_def addr_scalar bn254_r_def MAX_ENCRYPTED_NOTE_LEN_def)

lemma demo_w2:
  "accts demo_w2 = (accts demo_w1)(
     addr 3 \<mapsto> TokenAccount \<lparr>ta_mint = addr 1, ta_owner = addr 2, ta_amount = 4000, ta_frozen = False\<rparr>,
     addr 123623913060899 \<mapsto> TokenAccount \<lparr>ta_mint = addr 1, ta_owner = addr 123623913059898,
       ta_amount = 1000, ta_frozen = False\<rparr>,
     addr 123623913059934 \<mapsto> TreeAccount (replicate 8 0 @ demo_commitment))"
  "events demo_w2 = [NewCommitment
     \<lparr>nc_commitment = demo_commitment, nc_leaf_index = 0, nc_encrypted_note = [1, 2, 3]\<rparr>]"
proof -
  have ap: "append_leaf ref_runtime (replicate 8 0) demo_commitment = Inr (0, replicate 8 0 @ demo_commitment)"
    using demo_commitment(2)
    by (simp add: append_leaf_def append_with_height_def slice_from_def DISCRIMINATOR_def ref_runtime_def
        u64_try_from_def)
  from ref_spl_spec demo_shield_ok obtain p m v d f t data i data' commitment where
    ok: "shield_accounts_ok ref_runtime demo_shield (accts demo_w1) p m v d"
    and tc: "transfer_conditions (accts demo_w1) (sh_depositor_ata demo_shield) (sh_mint demo_shield)
        (sh_vault demo_shield) 1000 (mint_decimals m) f t"
    and cm: "note_commitment ref_crypto demo_npk (asset_id (pool_asset p)) 1000 = Inr commitment"
    and tree: "accts demo_w1 (sh_tree demo_shield) = Some (TreeAccount data)"
    and app: "append_leaf ref_runtime data commitment = Inr (i, data')"
    and w: "accts demo_w2 = (transferred (accts demo_w1) (sh_depositor_ata demo_shield)
        (sh_vault demo_shield) 1000 f t)(sh_tree demo_shield \<mapsto> TreeAccount data')"
      "events demo_w2 = events demo_w1 @ [NewCommitment
           \<lparr>nc_commitment = commitment, nc_leaf_index = i, nc_encrypted_note = [1, 2, 3]\<rparr>]"
    by (rule shield_eq_Inr)
  have "p = demo_pool"
    using ok by (simp add: shield_accounts_ok_def demo_w1 demo_shield_def)
  then have c: "commitment = demo_commitment"
    using cm demo_commitment(1) by (simp add: demo_pool_def)
  have "data = replicate 8 0"
    using tree by (simp add: demo_w1 demo_shield_def)
  with app ap c have i: "i = 0" "data' = replicate 8 0 @ demo_commitment" by simp_all
  have ft: "f = \<lparr>ta_mint = addr 1, ta_owner = addr 2, ta_amount = 5000, ta_frozen = False\<rparr>"
      "t = \<lparr>ta_mint = addr 1, ta_owner = addr 123623913059898, ta_amount = 0, ta_frozen = False\<rparr>"
    using transfer_conditions_accounts(1,2) [OF tc]
    by (simp_all add: demo_w1 demo_shield_def demo_world_def pool_program_id_addr)
  show "accts demo_w2 = (accts demo_w1)(
     addr 3 \<mapsto> TokenAccount \<lparr>ta_mint = addr 1, ta_owner = addr 2, ta_amount = 4000, ta_frozen = False\<rparr>,
     addr 123623913060899 \<mapsto> TokenAccount \<lparr>ta_mint = addr 1, ta_owner = addr 123623913059898,
       ta_amount = 1000, ta_frozen = False\<rparr>,
     addr 123623913059934 \<mapsto> TreeAccount (replicate 8 0 @ demo_commitment))"
    using w(1) by (simp add: i ft demo_shield_def transferred_def)
  show "events demo_w2 = [NewCommitment
     \<lparr>nc_commitment = demo_commitment, nc_leaf_index = 0, nc_encrypted_note = [1, 2, 3]\<rparr>]"
    using w(2) by (simp add: c i demo_w1)
qed

lemma sint_neg_300: "sint (- 300 :: i64) = - 300"
  by simp

lemma unsigned_abs_neg_300: "unsigned_abs (- 300 :: i64) = 300"
  by (simp add: unsigned_abs_def)

definition demo_loaded :: transact_loaded where
  "demo_loaded =
     \<lparr>tl_pool = demo_pool, tl_tree = replicate 8 0 @ demo_commitment,
      tl_vault = \<lparr>ta_mint = addr 1, ta_owner = addr 123623913059898, ta_amount = 1000, ta_frozen = False\<rparr>,
      tl_mint = \<lparr>mint_decimals = 6\<rparr>,
      tl_recipient = \<lparr>ta_mint = addr 1, ta_owner = addr 4, ta_amount = 0, ta_frozen = False\<rparr>\<rparr>"

lemma demo_accounts_ok: "transact_accounts_ok ref_runtime demo_transact (accts demo_w2) demo_loaded"
  by (simp add: transact_accounts_ok_def demo_w2 demo_w1 demo_world_def demo_transact_def demo_loaded_def
      demo_pool_def pool_seeds_ok_def tree_seeds_ok_def ref_addresses executable_iff pool_program_id_addr)

lemma demo_fresh: "nullifiers_fresh ref_runtime demo_transact (tx_nullifiers demo_args) (accts demo_w2)"
  by (simp add: nullifiers_fresh_def demo_w2 demo_w1 demo_world_def demo_transact_def demo_args_def
      ref_addresses pool_program_id_addr)

lemma ref_mroot:
  assumes "list_all is_scalar ls"
  shows "is_scalar (mroot ref_node TREE_HEIGHT ls)" and "mroot ref_node TREE_HEIGHT ls \<noteq> replicate 32 0"
proof -
  have parts: "list_all is_scalar (take (2 ^ 19) ls)" "list_all is_scalar (drop (2 ^ 19) ls)"
    using assms by (auto simp: list_all_iff dest: in_set_takeD in_set_dropD)
  show "is_scalar (mroot ref_node TREE_HEIGHT ls)"
    using mroot_scalar [OF ref_poseidon_spec assms] by (simp add: ref_node_def)
  have 20: "TREE_HEIGHT = Suc 19" by (simp add: TREE_HEIGHT_def)
  have "ref_poseidon [mroot ref_node 19 (take (2 ^ 19) ls), mroot ref_node 19 (drop (2 ^ 19) ls)] =
      Some (mroot ref_node TREE_HEIGHT ls)"
    using poseidon_node_scalar(1) [OF ref_poseidon_spec mroot_scalar [OF ref_poseidon_spec parts(1)]
        mroot_scalar [OF ref_poseidon_spec parts(2)], of 19 19]
    unfolding 20 mroot_Suc ref_node_def by simp
  then show "mroot ref_node TREE_HEIGHT ls \<noteq> replicate 32 0"
    by (rule ref_poseidon_nonzero)
qed

lemma ref_root:
  assumes "is_scalar l"
  shows "is_scalar (mroot ref_node TREE_HEIGHT [l])" and "mroot ref_node TREE_HEIGHT [l] \<noteq> replicate 32 0"
  using ref_mroot [of "[l]"] assms by simp_all

lemma demo_root: "is_scalar (tx_root demo_args)" "tx_root demo_args \<noteq> replicate 32 0"
  using ref_root [OF demo_commitment(2)] by (simp_all add: demo_args_def)

lemma demo_canonical: "k < bn254_r \<Longrightarrow> is_canonical_field ref_crypto (addr k)"
  using is_canonical_field_iff [OF ref_fr_spec, of "addr k"] addr_scalar [of k] by (simp add: is_scalar_def)

lemma demo_arguments_ok: "arguments_ok ref_crypto demo_transact demo_args"
proof -
  have "is_canonical_field ref_crypto (tx_root demo_args)"
    using is_canonical_field_iff [OF ref_fr_spec, of "tx_root demo_args"] demo_root(1)
    by (simp add: is_scalar_def)
  then show ?thesis
    by (simp add: arguments_ok_def both_def demo_canonical addr_zero_iff bn254_r_def PROOF_BYTES_def
        MAX_ENCRYPTED_NOTE_LEN_def demo_transact_def demo_args_def)
qed

lemma demo_proof: "proof_accepted ref_runtime ref_crypto demo_transact demo_loaded demo_args"
proof -
  obtain h where h: "ext_data_hash ref_crypto (tx_ext_data demo_args) (pool_domain (tl_pool demo_loaded))
      (tr_pool demo_transact) (asset_mint (pool_asset (tl_pool demo_loaded)))
      (pool_verifier (tl_pool demo_loaded)) (tx_ext_amount demo_args) = Inr h" "is_scalar h"
    using ext_data_hash_total [OF ref_fr_spec] demo_arguments_ok by (fastforce simp: arguments_ok_def)
  have "length (encode (assembled_inputs ref_crypto demo_args h)) = 236"
    by (rule length_encode [OF assembled_inputs_wf [OF ref_fr_spec demo_arguments_ok h(2)]])
  with h(1) show ?thesis
    unfolding proof_accepted_def by (intro exI [of _ h]) (simp add: demo_args_def)
qed

lemma demo_payable: "payable demo_transact demo_loaded demo_args (accts demo_w2)"
  by (simp add: payable_def transfer_conditions_def demo_w2 demo_w1 demo_world_def demo_transact_def
      demo_loaded_def demo_args_def pool_program_id_addr unsigned_abs_neg_300)

lemma demo_tree: "tree_leaves ref_leaves (tl_tree demo_loaded) = Some [demo_commitment]"
proof -
  have l: "length demo_commitment = 32" using demo_commitment(2) by (rule is_scalar_length)
  then have "chunks32 demo_commitment = [demo_commitment]"
    using chunks32_append [of "[]" demo_commitment] by simp
  with l show ?thesis
    by (simp add: tree_leaves_def ref_leaves_def demo_loaded_def DISCRIMINATOR_def TREE_HEIGHT_def)
qed

lemma demo_transact_enabled:
  "transact_enabled ref_runtime ref_crypto ref_node ref_leaves demo_transact demo_args (accts demo_w2)"
proof -
  have "tx_root demo_args \<in> set (recent_roots ref_node TREE_HEIGHT ROOTS_SIZE [demo_commitment])"
    by (auto simp: recent_roots_iff demo_args_def ROOTS_SIZE_def intro!: exI [of _ 1])
  moreover have "length [demo_commitment] + 2 \<le> 2 ^ TREE_HEIGHT"
    by (simp add: TREE_HEIGHT_def)
  moreover have "records_creatable ref_runtime demo_transact (accts demo_w2)"
    by (simp add: records_creatable_def)
  ultimately show ?thesis
    unfolding transact_enabled_def
    using demo_accounts_ok demo_fresh demo_arguments_ok demo_tree demo_root(2) demo_proof demo_payable
    by blast
qed

lemma demo_transact_ok:
  "transact ref_runtime ref_crypto demo_transact demo_args demo_w2 = Inr demo_w3"
  using transact_succeeds [OF ref_spl_spec ref_light_spec ref_fr_spec demo_transact_enabled]
  by (auto simp: demo_w3_def)

definition demo_labels :: "label list" where
  "demo_labels =
     [Accepted (InitPool demo_init demo_domain),
      Accepted (Shield demo_shield demo_npk 1000 [1, 2, 3]),
      Accepted (Transact demo_transact demo_args)]"

lemma demo_step_init:
  "chain_step ref_runtime ref_crypto demo_world (Accepted (InitPool demo_init demo_domain)) demo_w1"
  using demo_init_ok by (intro chain_step.accepted) (simp_all add: demo_init_def ref_pool_address)

lemma demo_step_shield:
  "chain_step ref_runtime ref_crypto demo_w1 (Accepted (Shield demo_shield demo_npk 1000 [1, 2, 3])) demo_w2"
  using demo_shield_ok by (intro chain_step.accepted) (simp_all add: demo_shield_def ref_pool_address)

lemma demo_step_transact:
  "chain_step ref_runtime ref_crypto demo_w2 (Accepted (Transact demo_transact demo_args)) demo_w3"
  using demo_transact_ok by (intro chain_step.accepted) (simp_all add: demo_transact_def ref_pool_address)

lemma demo_run: "run (chain_step ref_runtime ref_crypto) demo_world demo_labels demo_w3"
  unfolding demo_labels_def
  by (rule run_cons run_nil demo_step_init demo_step_shield demo_step_transact)+

lemma demo_run_pool:
  "run (chain_step ref_runtime ref_crypto) demo_w1
     [Accepted (Shield demo_shield demo_npk 1000 [1, 2, 3]), Accepted (Transact demo_transact demo_args)] demo_w3"
  by (rule run_cons run_nil demo_step_shield demo_step_transact)+

section \<open>A tree with one leaf left\<close>

text \<open>
  The chain after the deposit, but with a tree that holds one leaf less than it can: there is room
  for the output of a deposit and not for the two of a spend.
\<close>

definition last_leaves :: "bytes list" where
  "last_leaves = replicate (2 ^ 20 - 1) (replicate 32 0)"

definition last_tree :: bytes where
  "last_tree = replicate 8 0 @ replicate (32 * (2 ^ 20 - 1)) 0"

definition last_world :: world where
  "last_world = put_account (addr 123623913059934) (TreeAccount last_tree) demo_w2"

definition last_loaded :: transact_loaded where
  "last_loaded = demo_loaded\<lparr>tl_tree := last_tree\<rparr>"

definition last_args :: transact_args where
  "last_args = demo_args\<lparr>tx_root := mroot ref_node TREE_HEIGHT last_leaves\<rparr>"

lemma chunks32_zeros: "chunks32 (replicate (32 * n) 0) = replicate n (replicate 32 0)"
proof (induction n)
  case (Suc n)
  have "replicate (32 * Suc n) (0 :: u8) = replicate (32 * n) 0 @ replicate 32 0"
    by (simp flip: replicate_add add: add.commute)
  with Suc chunks32_append [of "replicate (32 * n) 0" "replicate 32 0"] show ?case
    by (simp add: replicate_append_same)
qed simp

lemma last_leaves: "length last_leaves = 2 ^ 20 - 1" "list_all is_scalar last_leaves"
  by (simp_all add: last_leaves_def list_all_iff)

lemma last_tree: "tree_leaves ref_leaves last_tree = Some last_leaves"
proof -
  have "drop DISCRIMINATOR last_tree = replicate (32 * (2 ^ 20 - 1)) 0" "DISCRIMINATOR \<le> length last_tree"
    by (simp_all add: last_tree_def DISCRIMINATOR_def)
  then show ?thesis
    unfolding tree_leaves_Some last_leaves_def ref_leaves_def chunks32_zeros [symmetric]
    by (simp add: TREE_HEIGHT_def)
qed

lemma last_accts: "accts last_world = (accts demo_w2)(addr 123623913059934 \<mapsto> TreeAccount last_tree)"
  by (simp add: last_world_def put_account_def)

lemmas last_defs = last_accts demo_w2 demo_w1 demo_world_def pool_program_id_addr

lemma last_shield: "shield_admissible ref_runtime demo_shield demo_npk 1000 [1, 2, 3] (accts last_world)"
proof -
  let ?v = "\<lparr>ta_mint = addr 1, ta_owner = addr 123623913059898, ta_amount = 1000, ta_frozen = False\<rparr>"
  let ?d = "\<lparr>ta_mint = addr 1, ta_owner = addr 2, ta_amount = 4000, ta_frozen = False\<rparr>"
  let ?m = "\<lparr>mint_decimals = 6\<rparr>"
  have "shield_accounts_ok ref_runtime demo_shield (accts last_world) demo_pool ?m ?v ?d"
    by (simp add: shield_accounts_ok_def last_defs demo_shield_def demo_pool_def pool_seeds_ok_def
        tree_seeds_ok_def ref_addresses executable_iff)
  moreover have "transfer_conditions (accts last_world) (sh_depositor_ata demo_shield) (sh_mint demo_shield)
      (sh_vault demo_shield) 1000 (mint_decimals ?m) ?d ?v"
    by (simp add: transfer_conditions_def last_defs demo_shield_def)
  moreover have "(0 :: u64) < 1000" "be_val demo_npk < bn254_r" "length [1, 2, 3 :: u8] \<le> MAX_ENCRYPTED_NOTE_LEN"
    by (simp_all add: demo_npk_def bn254_r_def MAX_ENCRYPTED_NOTE_LEN_def)
  ultimately show ?thesis unfolding shield_admissible_def by blast
qed

lemma last_arguments_ok: "arguments_ok ref_crypto demo_transact last_args"
proof -
  have "is_canonical_field ref_crypto (tx_root last_args)"
    using is_canonical_field_iff [OF ref_fr_spec, of "tx_root last_args"] ref_mroot(1) [OF last_leaves(2)]
    by (simp add: is_scalar_def last_args_def)
  then show ?thesis using demo_arguments_ok by (simp add: arguments_ok_def last_args_def)
qed

lemma last_proof: "proof_accepted ref_runtime ref_crypto demo_transact last_loaded last_args"
proof -
  obtain h where h: "ext_data_hash ref_crypto (tx_ext_data last_args) (pool_domain (tl_pool last_loaded))
      (tr_pool demo_transact) (asset_mint (pool_asset (tl_pool last_loaded)))
      (pool_verifier (tl_pool last_loaded)) (tx_ext_amount last_args) = Inr h" "is_scalar h"
    using ext_data_hash_total [OF ref_fr_spec] last_arguments_ok by (fastforce simp: arguments_ok_def)
  have "length (encode (assembled_inputs ref_crypto last_args h)) = 236"
    by (rule length_encode [OF assembled_inputs_wf [OF ref_fr_spec last_arguments_ok h(2)]])
  with h(1) show ?thesis
    unfolding proof_accepted_def by (intro exI [of _ h]) (simp add: last_args_def demo_args_def)
qed

lemma last_transact:
  "transact_admissible ref_runtime ref_crypto ref_node last_leaves last_loaded demo_transact last_args
     (accts last_world)"
  unfolding transact_admissible_def
proof (intro conjI)
  show "transact_accounts_ok ref_runtime demo_transact (accts last_world) last_loaded"
    by (simp add: transact_accounts_ok_def last_defs last_loaded_def demo_transact_def demo_loaded_def
        demo_pool_def pool_seeds_ok_def tree_seeds_ok_def ref_addresses executable_iff)
  show "nullifiers_fresh ref_runtime demo_transact (tx_nullifiers last_args) (accts last_world)"
    by (simp add: nullifiers_fresh_def last_defs demo_transact_def last_args_def demo_args_def ref_addresses)
  show "records_creatable ref_runtime demo_transact (accts last_world)"
    by (simp add: records_creatable_def)
  show "tx_root last_args \<noteq> replicate 32 0"
    using ref_mroot(2) [OF last_leaves(2)] by (simp add: last_args_def)
  have "mroot ref_node TREE_HEIGHT (take (length last_leaves) last_leaves)
      \<in> set (recent_roots ref_node TREE_HEIGHT ROOTS_SIZE last_leaves)"
    unfolding recent_roots_iff ROOTS_SIZE_def by (rule exI [of _ "length last_leaves"]) simp
  then show "tx_root last_args \<in> set (recent_roots ref_node TREE_HEIGHT ROOTS_SIZE last_leaves)"
    by (simp add: last_args_def)
  show "payable demo_transact last_loaded last_args (accts last_world)"
    by (simp add: payable_def transfer_conditions_def last_defs demo_transact_def last_loaded_def
        demo_loaded_def last_args_def demo_args_def unsigned_abs_neg_300)
qed (rule last_arguments_ok last_proof)+

end
