(* ===== verification/Pool_Properties.thy ===== *)
theory Pool_Properties
  imports Pool_Typing Pool_Reference
begin

text \<open>
  The properties of the on-chain program that span its components, each with an application
  to the concrete history of \<open>Pool_Reference\<close>.
\<close>

text \<open>
  C1. No double spend. Over any run of the chain, whoever submits instructions and whatever
  other programs do in between, no nullifier is spent twice: the nullifiers of all accepted
  transactions are pairwise distinct, and none of them was spent before the run.
\<close>

theorem no_double_spend:
  assumes "spl_spec R" and "singleton R w" and "run (chain_step R L) w ls w'"
  shows "distinct (concat (map spent_nullifiers ls)) \<and>
    (\<forall>n \<in> set (concat (map spent_nullifiers ls)). \<not> nullifier_spent R w n \<and> nullifier_spent R w' n)"
  by (rule run_spends [OF assms(3,1,2)])

theorem no_double_spend_witness:
  "concat (map spent_nullifiers demo_labels) = [addr 501, addr 502] \<and>
   nullifier_spent ref_runtime demo_w3 (addr 501) \<and> \<not> nullifier_spent ref_runtime demo_world (addr 501)"
proof -
  have "concat (map spent_nullifiers demo_labels) = [addr 501, addr 502]"
    by (simp add: demo_labels_def demo_args_def)
  with no_double_spend [OF ref_spl_spec genesis_singleton [OF demo_genesis] demo_run] show ?thesis
    by simp
qed

text \<open>
  C4. The vault is accounted for exactly. From a configured pool on, after any run the vault
  holds what it held before, plus the deposits, plus the (non-positive) external amounts of
  the accepted transactions, plus what other programs paid in; and the pool still owns it.
\<close>

theorem vault_accounted:
  assumes "vault_inv R p w" and "run (chain_step R L) w ls w'"
  shows "int (balance (accts w') (vault_of R p)) =
      int (balance (accts w) (vault_of R p)) + sum_list (map (vault_delta (vault_of R p)) ls) \<and>
    vault_inv R p w'"
  using vault.run_amount [OF assms(2,1)] vault.run_inv [OF assms(2,1)] by simp

lemma demo_vault_inv: "vault_inv ref_runtime demo_pool demo_w1"
proof -
  have "singleton ref_runtime demo_w1"
    using singleton.step_inv [OF _ demo_step_init] ref_spl_spec genesis_singleton [OF demo_genesis] by blast
  then show ?thesis
    by (simp add: vault_inv_def ref_spl_spec ref_pool_address vault_of_def demo_pool_def demo_w1)
qed

theorem vault_accounted_witness:
  "balance (accts demo_w3) (vault_of ref_runtime demo_pool) = 700"
  using vault_accounted [OF demo_vault_inv demo_run_pool]
  by (simp add: demo_args_def vault_of_def demo_pool_def ref_pool_address demo_w1)

text \<open>
  C3. The program refines the abstract ledger: read through \<open>ledger_of\<close> (the announced
  commitments, the announced nullifiers and the vault's balance), every run of the chain from
  a configured pool is a run of the ledger, in which commitments are only appended, a spend
  names a root among the last 64, repeats no nullifier and takes no more than the balance.
\<close>

theorem chain_refines_ledger:
  assumes "ledger_inv R H lv p w" and "run (chain_step R L) w ls w'"
  shows "run (ledger_step H) (ledger_of R p w) (map (ledger_label_of R L p) ls) (ledger_of R p w')"
  by (rule ledger.run_simulates [OF assms(2,1)])

lemma demo_ledger_inv: "ledger_inv ref_runtime ref_node ref_leaves demo_pool demo_w1"
  unfolding ledger_inv_def
  using log.step_inv [OF genesis_log_inv [OF demo_genesis ref_light_spec ref_spl_spec] demo_step_init]
    demo_vault_inv
  by (simp add: nullifiers_recorded_def demo_w1)

theorem chain_refines_ledger_witness:
  "run (ledger_step ref_node) (ledger_of ref_runtime demo_pool demo_w1)
     [Deposit (Inr demo_commitment) 1000,
      Spend (mroot ref_node TREE_HEIGHT [demo_commitment]) (addr 501, addr 502) (addr 601, addr 602) 300]
     (ledger_of ref_runtime demo_pool demo_w3)"
  using chain_refines_ledger [OF demo_ledger_inv demo_run_pool] demo_commitment(1)
  by (simp add: demo_pool_def demo_args_def unsigned_abs_neg_300)

text \<open>
  C5. Exactly which spends are accepted. On a tree account that is a tree, \<open>transact\<close>
  succeeds if and only if \<open>transact_enabled\<close>: the account constraints hold, both nullifier
  addresses are canonical and unused, the arguments pass every check, the root is one of the
  last 64 and not zero, the configured verifier accepts the proof on the assembled public
  inputs, a withdrawal goes to the bound recipient and can be transferred, and two leaves are free.
\<close>

theorem transact_accepts_iff:
  assumes "spl_spec R" "light_spec R H TREE_HEIGHT lv" "fr_spec L"
    and "\<And>data. accts w (tr_tree c) = Some (TreeAccount data) \<Longrightarrow> tree_ok lv data"
  shows "(\<exists>w'. transact R L c a w = Inr w') \<longleftrightarrow> transact_enabled R L H lv c a (accts w)"
  using transact_succeeds [OF assms(1-3)] transact_only_enabled [OF assms(1,2,4)] by blast

theorem transact_accepts_iff_witness:
  "\<exists>w'. transact ref_runtime ref_crypto demo_transact demo_args demo_w2 = Inr w'"
proof -
  have "tree_ok ref_leaves data" if "accts demo_w2 (tr_tree demo_transact) = Some (TreeAccount data)" for data
    using that demo_tree demo_accounts_ok
    by (simp add: tree_ok_def transact_accounts_ok_def)
  from transact_accepts_iff [OF ref_spl_spec ref_light_spec ref_fr_spec this] demo_transact_enabled
  show ?thesis by blast
qed

text \<open>
  C6. The effect of a spend is exactly this: the two commitments are appended, with the events
  that announce them at the next two indices and the two nullifier events after them; the two
  nullifier records are written; the vault loses and the recipient gains the withdrawn amount;
  every other account is untouched.
\<close>

theorem transact_effects:
  assumes "spl_spec R" "light_spec R H TREE_HEIGHT lv"
    and "accts w (tr_tree c) = Some (TreeAccount data)" "tree_leaves lv data = Some ls"
    and "transact R L c a w = Inr w'"
  shows "transact_effect lv ls c a w w'"
  by (rule transact_has_effect [OF assms])

theorem transact_effects_witness:
  "transact_effect ref_leaves [demo_commitment] demo_transact demo_args demo_w2 demo_w3"
proof (rule transact_effects [OF ref_spl_spec ref_light_spec _ demo_tree demo_transact_ok])
  show "accts demo_w2 (tr_tree demo_transact) = Some (TreeAccount (tl_tree demo_loaded))"
    using demo_accounts_ok by (simp add: transact_accounts_ok_def)
qed

text \<open>
  C11. The event log is an exact transcript. From an untouched program on, after any run that
  configured the pool, the tree account holds exactly the announced commitments, announced at
  the indices 0, 1, 2 and so on; and the announced nullifiers are the nullifiers the accepted
  transactions spent, in order. An indexer that follows the log rebuilds the tree.
\<close>

theorem event_log_transcript:
  assumes "genesis w" "spl_spec R" "light_spec R H TREE_HEIGHT lv"
    and "run (chain_step R L) w ls w'" "accts w' (pool_address R) = Some (PoolAccount p)"
  shows "(\<exists>data. accts w' (tree_address R) = Some (TreeAccount data) \<and> tree_logged lv data (events w')) \<and>
    nullifiers_of (events w') = concat (map spent_nullifiers ls)"
proof -
  have "log_inv R H lv w'"
    using log.run_inv [OF assms(4)] genesis_log_inv [OF assms(1,3,2)] by blast
  moreover have "nullifiers_of (events w) = []"
    using assms(1) by (simp add: genesis_def)
  ultimately show ?thesis
    using run_nullifier_events [OF assms(4,2)] assms(5) by (auto simp: log_inv_def)
qed

lemma demo_w3_pool: "accts demo_w3 (pool_address ref_runtime) = Some (PoolAccount demo_pool)"
  using vault.run_inv [OF demo_run_pool demo_vault_inv] by (simp add: vault_inv_def)

theorem event_log_transcript_witness:
  "(\<exists>data. accts demo_w3 (tree_address ref_runtime) = Some (TreeAccount data) \<and>
      tree_logged ref_leaves data (events demo_w3)) \<and>
   nullifiers_of (events demo_w3) = [addr 501, addr 502]"
  using event_log_transcript [OF demo_genesis ref_spl_spec ref_light_spec demo_run demo_w3_pool]
  by (simp add: demo_labels_def demo_args_def)

text \<open>
  C12. Exactly which deposits are accepted: a positive amount, a canonical public key, a short
  note, the account constraints, a transfer that the token program can make, and a free leaf.
\<close>

theorem shield_accepts_iff:
  assumes "spl_spec R" "light_spec R H TREE_HEIGHT lv" "fr_spec L" "poseidon_spec L"
    and "length npk = 32"
    and "\<And>data. accts w (sh_tree c) = Some (TreeAccount data) \<Longrightarrow> tree_ok lv data"
    and "\<And>p. accts w (sh_pool c) = Some (PoolAccount p) \<Longrightarrow> is_scalar (asset_id (pool_asset p))"
  shows "(\<exists>w'. shield R L c npk amount note w = Inr w') \<longleftrightarrow>
    shield_enabled R lv c npk amount note (accts w)"
  using shield_succeeds [OF assms(1-5) assms(7)] shield_only_enabled [OF assms(1,2,3,5) assms(6)] by blast

theorem shield_accepts_iff_witness:
  "\<exists>w'. shield ref_runtime ref_crypto demo_shield demo_npk 1000 [1, 2, 3] demo_w1 = Inr w'"
proof -
  have "tree_ok ref_leaves data" if "accts demo_w1 (sh_tree demo_shield) = Some (TreeAccount data)" for data
    using that by (auto simp: demo_w1 demo_shield_def tree_ok_def tree_leaves_def ref_leaves_def DISCRIMINATOR_def)
  moreover have "is_scalar (asset_id (pool_asset p))"
    if "accts demo_w1 (sh_pool demo_shield) = Some (PoolAccount p)" for p
    using that demo_asset_id(2) by (auto simp: demo_w1 demo_shield_def demo_pool_def)
  moreover have "length demo_npk = 32" by (simp add: demo_npk_def)
  moreover have "shield_enabled ref_runtime ref_leaves demo_shield demo_npk 1000 [1, 2, 3] (accts demo_w1)"
    by (rule demo_shield_enabled) (simp_all add: demo_npk_def bn254_r_def MAX_ENCRYPTED_NOTE_LEN_def)
  ultimately show ?thesis
    using shield_accepts_iff [OF ref_spl_spec ref_light_spec ref_fr_spec ref_poseidon_spec] by blast
qed

text \<open>
  C13. Exactly who can configure the pool, when, and how. \<open>init_pool\<close> succeeds if and only if the
  signer is the upgrade authority that the program-data account of this very program names, the
  named programs are the real ones, the pool and the tree are at the addresses derived from
  \<open>pool\<close>, \<open>v4\<close> and from \<open>tree\<close> with the pool, the vault is the pool's own associated token
  account, none of the three is in use and the System program can create them. Then the pool holds
  the caller's configuration, the tree is empty, and so is the vault, which the pool owns; nothing
  else changes.
\<close>

theorem init_accepts_iff:
  assumes "light_spec R H TREE_HEIGHT lv" "poseidon_spec L" "length (ip_mint c) = 32"
  shows "((\<exists>w'. init_pool R L c domain w = Inr w') \<longleftrightarrow> init_pool_enabled R c (accts w)) \<and>
    (\<forall>w'. init_pool R L c domain w = Inr w' \<longrightarrow> init_pool_effect R L lv c domain w w')"
  using init_pool_succeeds [OF assms] init_pool_only_enabled init_pool_has_effect [OF assms(1)] by blast

theorem init_accepts_iff_witness:
  "init_pool_effect ref_runtime ref_crypto ref_leaves demo_init demo_domain demo_world demo_w1 \<and>
   (\<exists>w'. init_pool ref_runtime ref_crypto demo_init demo_domain demo_world = Inr w')"
proof -
  have "length (ip_mint demo_init) = 32" by (simp add: demo_init_def)
  from init_accepts_iff [OF ref_light_spec ref_poseidon_spec this] demo_init_enabled demo_init_ok
  show ?thesis by blast
qed

lemma step_no_init:
  assumes "accts w (pool_address R) = Some x" "chain_step R L w l w'"
  shows "l \<noteq> Accepted (InitPool c d)"
proof
  assume "l = Accepted (InitPool c d)"
  with assms(2) have "init_pool R L c d w = Inr w'" by auto
  then show False by (rule init_pool_eq_Inr) (use assms(1) in simp)
qed

lemma run_no_init:
  assumes "run (chain_step R L) w ls w'" "spl_spec R" "accts w (pool_address R) = Some (PoolAccount p)"
  shows "Accepted (InitPool c d) \<notin> set ls"
  using assms
proof (induction rule: run.induct)
  case (run_cons w l t ls u)
  have "accts t (pool_address R) = Some (PoolAccount p)"
    using step_write_once [OF run_cons.prems(1) _ run_cons.prems(2) run_cons.hyps(1)] by simp
  with run_cons.IH [OF run_cons.prems(1)] step_no_init [OF run_cons.prems(2) run_cons.hyps(1)]
  show ?case by auto
qed simp

text \<open>
  C25. The configuration is unique and final: once the pool account exists, no run changes it,
  no run creates another pool account, and \<open>init_pool\<close> is never accepted again.
\<close>

theorem pool_config_final:
  assumes "spl_spec R" "singleton R w" "accts w (pool_address R) = Some (PoolAccount p)"
    and "run (chain_step R L) w ls w'"
  shows "accts w' (pool_address R) = Some (PoolAccount p) \<and>
    (\<forall>a q. accts w' a = Some (PoolAccount q) \<longrightarrow> a = pool_address R \<and> q = p) \<and>
    (\<forall>c d. Accepted (InitPool c d) \<notin> set ls)"
proof -
  have "accts w' (pool_address R) = Some (PoolAccount p)"
    using write_once.run_inv [OF assms(4)] assms(1,3) by fastforce
  moreover have "singleton R w'"
    using singleton.run_inv [OF assms(4)] assms(1,2) by blast
  ultimately show ?thesis
    using run_no_init [OF assms(4,1,3)] by (fastforce simp: singleton_def)
qed

theorem pool_config_final_witness:
  "accts demo_w3 (pool_address ref_runtime) = Some (PoolAccount demo_pool) \<and>
   accts demo_w3 (tree_address ref_runtime) \<noteq> Some (PoolAccount demo_pool)"
proof -
  have "singleton ref_runtime demo_w1" "accts demo_w1 (pool_address ref_runtime) = Some (PoolAccount demo_pool)"
    using demo_vault_inv by (auto simp: vault_inv_def)
  from pool_config_final [OF ref_spl_spec this demo_run_pool]
  have "accts demo_w3 (pool_address ref_runtime) = Some (PoolAccount demo_pool)"
    and "accts demo_w3 (tree_address ref_runtime) = Some (PoolAccount demo_pool) \<Longrightarrow>
      tree_address ref_runtime = pool_address ref_runtime"
    by blast+
  then show ?thesis by (auto simp: ref_tree_address ref_pool_address)
qed

text \<open>
  C22. A spend proves against a root in the window: over a tree with the leaves \<open>ls\<close> the
  program knows a root exactly when it is the root of a prefix of \<open>ls\<close> that at most 63
  leaves followed, and it is not the zero root.
\<close>

theorem known_root_window:
  assumes "light_spec R H TREE_HEIGHT lv" "tree_leaves lv data = Some ls"
  shows "contains_root R data root = Inr True \<longleftrightarrow>
    root \<noteq> replicate 32 0 \<and>
    (\<exists>n \<le> length ls. length ls - n < 64 \<and> root = mroot H 20 (take n ls))"
  unfolding contains_root_iff [OF assms] recent_roots_iff TREE_HEIGHT_def ROOTS_SIZE_def
  by (auto simp: less_diff_conv2)

theorem known_root_window_witness:
  "contains_root ref_runtime (tl_tree demo_loaded) (tx_root demo_args) = Inr True \<and>
   contains_root ref_runtime (tl_tree demo_loaded) (replicate 32 0) \<noteq> Inr True"
proof -
  have "\<exists>n \<le> length [demo_commitment]. length [demo_commitment] - n < 64 \<and>
      tx_root demo_args = mroot ref_node 20 (take n [demo_commitment])"
    by (auto simp: demo_args_def TREE_HEIGHT_def intro!: exI [of _ 1])
  then show ?thesis
    unfolding known_root_window [OF ref_light_spec demo_tree] using demo_root(2) by simp
qed

text \<open>
  C38. The end of the tree. Take a deposit and a spend that meet every condition but room in the
  tree, which holds \<open>ls\<close>. The deposit succeeds if one leaf is free and the spend if two are, and
  the events announce the exact positions of the new leaves, so the index never wraps. Otherwise
  the whole instruction is refused with \<open>TreeError\<close>: after the deposit's tokens have moved, and
  for a spend with one free leaf after the proof, the records, the payout and the first output.
\<close>

theorem full_tree_refuses:
  assumes specs: "spl_spec R" "light_spec R H TREE_HEIGHT lv" "fr_spec L" "poseidon_spec L"
    and "accts w t = Some (TreeAccount data)" "tree_leaves lv data = Some ls"
    and "\<And>p. accts w (sh_pool c) = Some (PoolAccount p) \<Longrightarrow> is_scalar (asset_id (pool_asset p))"
    and "sh_tree c = t" "length npk = 32" "tr_tree d = t"
  shows "(shield_admissible R c npk amount note (accts w) \<longrightarrow>
      (if length ls < 2 ^ 20
       then \<exists>w' nc. shield R L c npk amount note w = Inr w' \<and>
         events w' = events w @ [NewCommitment nc] \<and> unat (nc_leaf_index nc) = length ls
       else shield R L c npk amount note w = Inl (PoolErr TreeError))) \<and>
    (transact_admissible R L H ls l d a (accts w) \<longrightarrow>
      (if length ls + 2 \<le> 2 ^ 20
       then \<exists>w' i j. transact R L d a w = Inr w' \<and>
         events w' = events w @ output_events a i j \<and> unat i = length ls \<and> unat j = length ls + 1
       else transact R L d a w = Inl (PoolErr TreeError)))"
proof (intro conjI impI)
  assume ad: "shield_admissible R c npk amount note (accts w)"
  have "accts w (sh_tree c) = Some (TreeAccount data)" using assms(5,8) by simp
  from shield_at_capacity [OF specs assms(9,7) ad this assms(6)]
  show "if length ls < 2 ^ 20
       then \<exists>w' nc. shield R L c npk amount note w = Inr w' \<and>
         events w' = events w @ [NewCommitment nc] \<and> unat (nc_leaf_index nc) = length ls
       else shield R L c npk amount note w = Inl (PoolErr TreeError)"
    by (simp add: TREE_HEIGHT_def)
next
  assume ad: "transact_admissible R L H ls l d a (accts w)"
  then have "tl_tree l = data"
    using assms(5,10) by (simp add: transact_admissible_def transact_accounts_ok_def)
  with transact_at_capacity [OF specs(1-3) ad] assms(6)
  show "if length ls + 2 \<le> 2 ^ 20
       then \<exists>w' i j. transact R L d a w = Inr w' \<and>
         events w' = events w @ output_events a i j \<and> unat i = length ls \<and> unat j = length ls + 1
       else transact R L d a w = Inl (PoolErr TreeError)"
    by (simp add: TREE_HEIGHT_def)
qed

theorem full_tree_refuses_witness:
  "(\<exists>w' nc. shield ref_runtime ref_crypto demo_shield demo_npk 1000 [1, 2, 3] last_world = Inr w' \<and>
      events w' = events last_world @ [NewCommitment nc] \<and> unat (nc_leaf_index nc) = 2 ^ 20 - 1) \<and>
   transact ref_runtime ref_crypto demo_transact last_args last_world = Inl (PoolErr TreeError)"
proof -
  have "accts last_world (addr 123623913059934) = Some (TreeAccount last_tree)" by (simp add: last_accts)
  moreover have "is_scalar (asset_id (pool_asset p))" if "accts last_world (sh_pool demo_shield) = Some (PoolAccount p)" for p
    using that demo_asset_id(2) by (auto simp: last_defs demo_shield_def demo_pool_def)
  moreover have "sh_tree demo_shield = addr 123623913059934" "tr_tree demo_transact = addr 123623913059934"
    "length demo_npk = 32"
    by (simp_all add: demo_shield_def demo_transact_def demo_npk_def)
  ultimately show ?thesis
    using full_tree_refuses [OF ref_spl_spec ref_light_spec ref_fr_spec ref_poseidon_spec _ last_tree,
        of last_world "addr 123623913059934" demo_shield demo_npk demo_transact 1000 "[1, 2, 3]" last_loaded last_args]
      last_shield last_transact last_leaves(1)
    by simp
qed

text \<open>
  C29. The binding hash commits to the whole external data. If two transactions on pools of this
  program have the same binding hash, they agree in the recipient, both encrypted notes, the
  amount, the domain, the pool, the mint and the verifier, or the two preimages are different byte
  strings with the same Keccak digest modulo the field order.
\<close>

theorem binding_hash_commits:
  assumes "length d = 32" "length p = 32" "length m = 32" "length v = 32" "length (ed_recipient ed) = 32"
    and "length d' = 32" "length p' = 32" "length m' = 32" "length v' = 32" "length (ed_recipient ed') = 32"
    and "ext_data_hash L ed d p m v x = Inr h" "ext_data_hash L ed' d' p' m' v' x' = Inr h"
  shows "(ed = ed' \<and> d = d' \<and> p = p' \<and> m = m' \<and> v = v' \<and> x = x') \<or>
    binding_collision L (binding_of ed d p m v x) (binding_of ed' d' p' m' v' x')"
  using binding_of_inj [of ed d p m v x ed' d' p' m' v' x'] assms
  unfolding binding_collision_def ext_data_hash_eq_Inr by metis

text \<open>
  The reference Keccak is weak, so both alternatives occur: it forgets the domain, and the two
  preimages show the collision.
\<close>

lemma weak_keccak:
  assumes "length x = length y" "32 \<le> length (concat zs)"
  shows "keccak_field ref_crypto (t # x # zs) = keccak_field ref_crypto (t # y # zs)"
proof -
  let ?z = "concat zs" and ?M = "256 ^ 32 :: nat"
  have "?M dvd 256 ^ length ?z" using assms(2) by (rule le_imp_power_dvd)
  then have drop: "(be_val (a @ ?z) + n) mod ?M = (be_val ?z + n) mod ?M" for a n
  proof -
    have "?M dvd be_val a * 256 ^ length ?z" using \<open>?M dvd 256 ^ length ?z\<close> by (rule dvd_mult)
    then show ?thesis
      unfolding be_val_append add.assoc using mod_add_left_eq [of "be_val a * 256 ^ length ?z" ?M]
      by (metis mod_add_left_eq add_0 dvd_imp_mod_0)
  qed
  have trunc: "be_bytes 32 m = be_bytes 32 k" if "m mod ?M = k mod ?M" for m k
    by (metis that be_bytes_be_val be_val_be_bytes length_be_bytes)
  have "be_bytes 32 (be_val (t @ x @ ?z) + length (t @ x @ ?z)) =
      be_bytes 32 (be_val (t @ y @ ?z) + length (t @ y @ ?z))"
    using drop [of "t @ x"] drop [of "t @ y"] assms(1) by (intro trunc) simp
  then show ?thesis
    unfolding keccak_field_def by (simp add: ref_crypto_def)
qed

theorem binding_hash_commits_witness:
  "binding_collision ref_crypto
     (binding_of (tx_ext_data demo_args) (addr 900) (addr 1) (addr 2) (addr 3) 0)
     (binding_of (tx_ext_data demo_args) (addr 901) (addr 1) (addr 2) (addr 3) 0)"
proof -
  have "length (concat (drop 2 (binding_of (tx_ext_data demo_args) (addr 900) (addr 1) (addr 2) (addr 3) 0))) \<ge> 32"
    by (simp add: binding_of_def binding_slices_def demo_args_def)
  then have "keccak_field ref_crypto (binding_of (tx_ext_data demo_args) (addr 900) (addr 1) (addr 2) (addr 3) 0) =
      keccak_field ref_crypto (binding_of (tx_ext_data demo_args) (addr 901) (addr 1) (addr 2) (addr 3) 0)"
    unfolding binding_of_def binding_slices_def
    by (intro weak_keccak) simp_all
  then obtain h where h:
    "ext_data_hash ref_crypto (tx_ext_data demo_args) (addr 900) (addr 1) (addr 2) (addr 3) 0 = Inr h"
    "ext_data_hash ref_crypto (tx_ext_data demo_args) (addr 901) (addr 1) (addr 2) (addr 3) 0 = Inr h"
    unfolding ext_data_hash_eq_Inr by (simp add: demo_args_def)
  have "length (ed_recipient (tx_ext_data demo_args)) = 32" by (simp add: demo_args_def)
  with binding_hash_commits [OF _ _ _ _ _ _ _ _ _ _ h] show ?thesis by simp
qed

text \<open>
  C36. Canonical means below the modulus: the program's check accepts 32 bytes exactly when the
  number they encode is smaller than the field order, so no two accepted strings stand for one
  field element.
\<close>

theorem canonical_iff_below_modulus:
  assumes "fr_spec L" "length a = 32" "length b = 32"
  shows "(is_canonical_field L a \<longleftrightarrow> be_val a < bn254_r) \<and>
    (is_canonical_field L a \<and> is_canonical_field L b \<and> be_val a mod bn254_r = be_val b mod bn254_r
      \<longrightarrow> a = b)"
  using is_canonical_field_iff [OF assms(1,2)] pool_codec.canonical_unique [OF assms] by blast

theorem canonical_iff_below_modulus_witness:
  "is_canonical_field ref_crypto (addr (bn254_r - 1)) \<and> \<not> is_canonical_field ref_crypto (addr bn254_r)"
  using canonical_iff_below_modulus [OF ref_fr_spec, of "addr (bn254_r - 1)" "addr bn254_r"]
    canonical_iff_below_modulus [OF ref_fr_spec, of "addr bn254_r" "addr bn254_r"]
  by (simp add: bn254_r_def)



text \<open>
  C18. The program's accounts stay typed. From an untouched program on, in every reachable state
  the configuration is at the pool's address with a canonical asset identifier, the tree account
  is at the tree's address and all its leaves are canonical field elements, and each nullifier
  record is at the address derived from the nullifier it holds, which is canonical and not zero.
\<close>

theorem program_accounts_typed:
  assumes "crates_ok R L H lv" "genesis w" "run (chain_step R L) w ls w'" "list_all mint_is_address ls"
  shows "world_typed R lv w'"
  using typed.run_inv [OF run_typed_step [OF assms(3,4)], of H lv] assms(1) world_typed_genesis [OF assms(2)]
  by blast

theorem program_accounts_typed_witness:
  "world_typed ref_runtime ref_leaves demo_w3 \<and> demo_labels \<noteq> []"
proof -
  have "crates_ok ref_runtime ref_crypto ref_node ref_leaves"
    using ref_spl_spec ref_light_spec ref_fr_spec ref_poseidon_spec by (simp add: crates_ok_def)
  moreover have "list_all mint_is_address demo_labels"
    by (simp add: demo_labels_def demo_init_def)
  ultimately show ?thesis
    using program_accounts_typed [OF _ demo_genesis demo_run] by (auto simp: demo_labels_def)
qed

text \<open>
  C26. A replay is refused with a definite error. After an accepted spend, an instruction on the
  same accounts with the same first nullifier, whatever its other arguments, passes the loading of
  its accounts and then fails with the System program's error for an account already in use.
\<close>

theorem replay_refused:
  assumes "spl_spec R" "transact R L c a w = Inr w'" "fst (tx_nullifiers b) = fst (tx_nullifiers a)"
  shows "transact R L c b w' = Inl (AnchorErr AccountInUse)"
proof -
  obtain l where l: "transact_loads R c (accts w') = Inr l"
    using accepted_loads_again(1) [OF assms(1,2)] by blast
  from accepted_loads_again(3) [OF assms(1,2)]
  have "fst (find_program_address R (nullifier_seeds (tr_pool c) (fst (tx_nullifiers b))) pool_program_id) =
      tr_nullifier_0_record c"
    unfolding assms(3) .
  then show ?thesis by (rule spent_record_refused [OF l accepted_loads_again(2) [OF assms(1,2)]])
qed

theorem replay_refused_witness:
  "transact ref_runtime ref_crypto demo_transact (demo_args\<lparr>tx_ext_amount := 0\<rparr>) demo_w3 =
     Inl (AnchorErr AccountInUse)"
  using replay_refused [OF ref_spl_spec demo_transact_ok, of "demo_args\<lparr>tx_ext_amount := 0\<rparr>"] by simp

text \<open>
  C23. A root lives for 63 leaves. If the root of the tree as it is now is not zero, then after any
  run that announces fewer than 64 further commitments the program still knows it; a client that
  proves against the current root has that long to submit.
\<close>

theorem root_stays_known:
  assumes "log_inv R H lv w" "accts w (pool_address R) = Some (PoolAccount p)"
    and "accts w (tree_address R) = Some (TreeAccount data)" "tree_leaves lv data = Some ls"
    and "mroot H 20 ls \<noteq> replicate 32 0"
    and "run (chain_step R L) w labels w'"
    and "length (commitments_of (events w')) < length (commitments_of (events w)) + 64"
  shows "\<exists>data'. accts w' (tree_address R) = Some (TreeAccount data') \<and>
    contains_root R data' (mroot H 20 ls) = Inr True"
proof -
  have specs: "light_spec R H TREE_HEIGHT lv" "spl_spec R" using assms(1) by (auto simp: log_inv_def)
  have inv: "log_inv R H lv w'" by (rule log.run_inv [OF assms(6,1)])
  have pool: "accts w' (pool_address R) = Some (PoolAccount p)"
    using write_once.run_inv [OF assms(6), of "PoolAccount p" "pool_address R"] assms(2) specs by simp
  have here: "tree_logged lv data (events w)" using assms(1-3) by (auto simp: log_inv_def)
  obtain data' where there: "accts w' (tree_address R) = Some (TreeAccount data')"
    "tree_logged lv data' (events w')"
    using inv pool by (auto simp: log_inv_def)
  obtain es where es: "events w' = events w @ es" using run_events_grow [OF assms(6) specs(2)] by blast
  obtain new where new: "tree_leaves lv data' = Some (ls @ new)" "length new = length (commitments_of es)"
    using logged_leaves_grow [OF here there(2) es assms(4)] by blast
  have "length new < ROOTS_SIZE" using assms(7) es new(2) by (simp add: ROOTS_SIZE_def)
  from prefix_root_known [OF specs(1) new(1) this refl] there(1) assms(5) show ?thesis
    by (simp add: TREE_HEIGHT_def)
qed

theorem root_stays_known_witness:
  "\<exists>data'. accts demo_w3 (tree_address ref_runtime) = Some (TreeAccount data') \<and>
     contains_root ref_runtime data' (mroot ref_node 20 [demo_commitment]) = Inr True"
proof -
  have run: "run (chain_step ref_runtime ref_crypto) demo_w2 [Accepted (Transact demo_transact demo_args)] demo_w3"
    using demo_step_transact by (rule run_single)
  have "log_inv ref_runtime ref_node ref_leaves demo_w1"
    by (rule log.step_inv [OF genesis_log_inv [OF demo_genesis ref_light_spec ref_spl_spec] demo_step_init])
  then have inv: "log_inv ref_runtime ref_node ref_leaves demo_w2"
    using demo_step_shield by (rule log.step_inv)
  have accts: "accts demo_w2 (pool_address ref_runtime) = Some (PoolAccount (tl_pool demo_loaded))"
    "accts demo_w2 (tree_address ref_runtime) = Some (TreeAccount (tl_tree demo_loaded))"
    using demo_accounts_ok
    by (simp_all add: transact_accounts_ok_def demo_transact_def ref_pool_address ref_tree_address)
  have root: "mroot ref_node 20 [demo_commitment] \<noteq> replicate 32 0"
    using demo_root(2) by (simp add: demo_args_def TREE_HEIGHT_def)
  have "transact_effect ref_leaves [demo_commitment] demo_transact demo_args demo_w2 demo_w3"
    by (rule transact_has_effect [OF ref_spl_spec ref_light_spec _ demo_tree demo_transact_ok])
      (use demo_accounts_ok in \<open>simp add: transact_accounts_ok_def\<close>)
  then have "length (commitments_of (events demo_w3)) < length (commitments_of (events demo_w2)) + 64"
    by (simp add: transact_effect_def output_events_def)
  from root_stays_known [OF inv accts demo_tree root run this] show ?thesis .
qed

end
