(* ===== verification/Sdk_Field.thy ===== *)
theory Sdk_Field
  imports Pool_Utils
begin

text \<open>
  Field elements and secrets of the client library (\<^verbatim>\<open>protocol/encoding.rs\<close>,
  \<^verbatim>\<open>protocol/field.rs\<close>, \<^verbatim>\<open>client/error.rs\<close>). A \<open>Field\<close> is its 32 canonical
  bytes. The random number generator is a parameter: \<open>fill n g\<close> is \<open>try_fill_bytes\<close> on a
  buffer of \<open>n\<close> bytes in the generator state \<open>g\<close>, \<open>None\<close> when randomness is
  unavailable. Rejection sampling is a \<open>partial_function\<close>: the outer \<open>None\<close> is a loop
  that never returns.
\<close>

section \<open>Errors\<close>

datatype sdk_error =
    FieldError
  | RandomError
  | PoseidonError
  | TransactionError string
  | WithdrawalError string
  | ArtifactsError string
  | WitnessError
  | ProverError string
  | TimeoutError

section \<open>Encoding\<close>

type_synonym field = bytes

definition sdk_field_bytes :: "'fr crypto \<Rightarrow> 'fr \<Rightarrow> bytes" where
  "sdk_field_bytes L value =
     (let bs = fr_to_be L value;
          encoded = replicate 32 0
      in copy_at (32 - length bs) bs encoded)"

definition parse_field :: "'fr crypto \<Rightarrow> bytes \<Rightarrow> 'fr option" where
  "parse_field L encoded =
     (let value = fr_from_be_mod L encoded
      in if sdk_field_bytes L value = encoded then Some value else None)"

section \<open>Field\<close>

definition field_zero :: field where
  "field_zero = replicate 32 0"

definition from_raw_u64 :: "u64 \<Rightarrow> field" where
  "from_raw_u64 value =
     (let bs = u64_be value; field = replicate 32 0
      in foldl (\<lambda>f i. f[24 + i := bs ! i]) field [0, 1, 2, 3, 4, 5, 6, 7])"

definition field_from_bytes :: "'fr crypto \<Rightarrow> bytes \<Rightarrow> sdk_error + field" where
  "field_from_bytes L bs =
     bindE (ok_or FieldError (parse_field L bs)) (\<lambda>_. Inr bs)"

definition to_bytes :: "field \<Rightarrow> bytes" where
  "to_bytes f = f"

lemma to_bytes_id [simp]: "to_bytes f = f" "map_prod to_bytes to_bytes p = p"
  by (simp_all add: to_bytes_def map_prod_def case_prod_beta)

definition from_fr :: "'fr crypto \<Rightarrow> 'fr \<Rightarrow> field" where
  "from_fr L value = sdk_field_bytes L value"

definition from_signed :: "'fr crypto \<Rightarrow> i64 \<Rightarrow> field" where
  "from_signed L value =
     (let magnitude = fr_from_u64 L (unsigned_abs value)
      in from_fr L (if sint value < 0 then fr_neg L magnitude else magnitude))"

definition field_of_u64 :: "'fr crypto \<Rightarrow> u64 \<Rightarrow> field" where
  "field_of_u64 L value = from_fr L (fr_from_u64 L value)"

type_synonym 'g fill = "nat \<Rightarrow> 'g \<Rightarrow> (bytes \<times> 'g) option"

partial_function (option) field_random ::
    "'fr crypto \<Rightarrow> 'g fill \<Rightarrow> 'g \<Rightarrow> (sdk_error + (field \<times> 'g)) option" where
  "field_random L fill g =
     (case fill 32 g of
        None \<Rightarrow> Some (Inl RandomError)
      | Some (bs, g') \<Rightarrow>
          (case field_from_bytes L bs of
             Inr f \<Rightarrow> if f \<noteq> field_zero then Some (Inr (f, g')) else field_random L fill g'
           | Inl _ \<Rightarrow> field_random L fill g'))"

declare field_random.simps [code]

section \<open>Randomised steps\<close>

text \<open>
  A randomised step: divergence outside, then the error or the value with the next generator
  state. \<open>bindR\<close> is the \<open>?\<close> after such a call.
\<close>

type_synonym ('g, 'a) rand = "'g \<Rightarrow> (sdk_error + ('a \<times> 'g)) option"

definition bindR :: "('g, 'a) rand \<Rightarrow> ('a \<Rightarrow> ('g, 'b) rand) \<Rightarrow> ('g, 'b) rand" where
  "bindR m f g =
     (case m g of
        None \<Rightarrow> None
      | Some (Inl e) \<Rightarrow> Some (Inl e)
      | Some (Inr (x, g')) \<Rightarrow> f x g')"

definition returnR :: "'a \<Rightarrow> ('g, 'a) rand" where
  "returnR x g = Some (Inr (x, g))"

definition liftR :: "sdk_error + 'a \<Rightarrow> ('g, 'a) rand" where
  "liftR r g = Some (map_sum id (\<lambda>x. (x, g)) r)"

definition drawR :: "'g fill \<Rightarrow> nat \<Rightarrow> ('g, bytes) rand" where
  "drawR fill n g = (case fill n g of None \<Rightarrow> Some (Inl RandomError) | Some p \<Rightarrow> Some (Inr p))"

fun repeatR :: "nat \<Rightarrow> ('g, 'a) rand \<Rightarrow> ('g, 'a list) rand" where
  "repeatR 0 m = returnR []"
| "repeatR (Suc n) m = bindR m (\<lambda>x. bindR (repeatR n m) (\<lambda>xs. returnR (x # xs)))"

lemma bindR_step: "m g = Some (Inr (x, g')) \<Longrightarrow> bindR m f g = f x g'"
  by (simp add: bindR_def)

lemma bindR_eq_Inr [simp]:
  "bindR m f g = Some (Inr (y, g'')) \<longleftrightarrow>
     (\<exists>x g'. m g = Some (Inr (x, g')) \<and> f x g' = Some (Inr (y, g'')))"
  by (auto simp: bindR_def split: option.splits sum.splits)

lemma returnR_eq_Inr [simp]: "returnR x g = Some (Inr (y, g')) \<longleftrightarrow> y = x \<and> g' = g"
  by (auto simp: returnR_def)

lemma liftR_eq_Inr [simp]: "liftR r g = Some (Inr (y, g')) \<longleftrightarrow> r = Inr y \<and> g' = g"
  by (cases r) (auto simp: liftR_def)

lemma drawR_eq_Inr [simp]: "drawR fill n g = Some (Inr (bs, g')) \<longleftrightarrow> fill n g = Some (bs, g')"
  by (auto simp: drawR_def split: option.splits)

lemma repeatR_length: "repeatR n m g = Some (Inr (xs, g')) \<Longrightarrow> length xs = n"
  by (induction n arbitrary: xs g g') auto

lemma repeatR_all:
  assumes "\<And>x g g'. m g = Some (Inr (x, g')) \<Longrightarrow> P x" "repeatR n m g = Some (Inr (xs, g'))"
  shows "list_all P xs"
  using assms(2) by (induction n arbitrary: xs g g') (auto dest: assms(1))

section \<open>Printing\<close>

text \<open>\<open>Debug\<close>: a field prints its bytes in lower-case hexadecimal.\<close>

definition hex_digit :: "nat \<Rightarrow> char" where
  "hex_digit n = ''0123456789abcdef'' ! (n mod 16)"

definition hex_bytes :: "bytes \<Rightarrow> string" where
  "hex_bytes bs = concat (map (\<lambda>b. [hex_digit (unat b div 16), hex_digit (unat b)]) bs)"

definition field_debug :: "field \<Rightarrow> string" where
  "field_debug f = ''Field(0x'' @ hex_bytes f @ '')''"

section \<open>Secret\<close>

datatype secret = Secret (secret_bytes: bytes)

definition secret_from_bytes :: "'fr crypto \<Rightarrow> bytes \<Rightarrow> sdk_error + secret" where
  "secret_from_bytes L bs = bindE (field_from_bytes L bs) (\<lambda>_. Inr (Secret bs))"

definition secret_random_with :: "'fr crypto \<Rightarrow> 'g fill \<Rightarrow> ('g, secret) rand" where
  "secret_random_with L fill = bindR (field_random L fill) (\<lambda>f. returnR (Secret f))"

definition expose :: "secret \<Rightarrow> field" where
  "expose s = secret_bytes s"

definition secret_debug :: "secret \<Rightarrow> string" where
  "secret_debug s = ''Secret([REDACTED])''"

section \<open>Behaviour\<close>

lemma sdk_field_bytes_eq: "fr_spec L \<Longrightarrow> sdk_field_bytes L v = fr_to_be L v"
  using is_scalar_length [OF fr_to_be_scalar [of L v]] by (simp add: sdk_field_bytes_def copy_at_def)

lemma sdk_field_bytes_pool: "fr_spec L \<Longrightarrow> sdk_field_bytes L v = field_bytes L v"
  by (simp add: sdk_field_bytes_eq field_bytes_def)

lemma field_from_bytes_iff:
  assumes "fr_spec L"
  shows "field_from_bytes L bs = Inr f \<longleftrightarrow> f = bs \<and> is_scalar bs"
proof -
  have "field_from_bytes L bs = Inr f \<longleftrightarrow> f = bs \<and> is_canonical_field L bs"
    using assms by (auto simp: field_from_bytes_def parse_field_def is_canonical_field_def
        sdk_field_bytes_pool Let_def split: if_splits)
  moreover have "is_canonical_field L bs \<longleftrightarrow> is_scalar bs"
    using is_canonical_field_scalar [OF assms] is_canonical_field_iff [OF assms]
    by (auto simp: is_scalar_def)
  ultimately show ?thesis by simp
qed

lemma field_from_bytes_eq_Inl:
  "fr_spec L \<Longrightarrow> field_from_bytes L bs = Inl e \<longleftrightarrow> e = FieldError \<and> \<not> is_scalar bs"
  using field_from_bytes_iff [of L bs bs]
  by (auto simp: field_from_bytes_def parse_field_def split: if_splits)

lemma from_raw_u64_eq: "from_raw_u64 v = u64_be32 v"
proof -
  have "\<exists>a b c d e f g h. xs = [a, b, c, d, e, f, g, h]" if "length xs = 8" for xs :: bytes
    using that by (auto simp: length_Suc_conv numeral_eq_Suc)
  from this [OF length_u64_be [of v]]
  obtain a b c d e f g h where "u64_be v = [a, b, c, d, e, f, g, h]" by blast
  moreover have "replicate 32 (0::u8) = replicate 24 0 @ [0, 0, 0, 0, 0, 0, 0, 0]"
    by (simp add: numeral_eq_Suc)
  ultimately show ?thesis
    by (simp add: from_raw_u64_def u64_be32_def list_update_append)
qed

lemma from_raw_u64_field_of_u64: "fr_spec L \<Longrightarrow> from_raw_u64 v = field_of_u64 L v"
  by (simp add: from_raw_u64_eq field_of_u64_def from_fr_def sdk_field_bytes_eq fr_from_u64_bytes
      u64_be32_be_bytes)

lemma field_of_u64_bytes: "fr_spec L \<Longrightarrow> field_of_u64 L v = u64_be32 v"
  by (simp flip: from_raw_u64_field_of_u64 add: from_raw_u64_eq)

interpretation sdk_codec: scalar_codec fr_spec sdk_field_bytes "\<lambda>L bs. \<exists>f. field_from_bytes L bs = Inr f"
proof unfold_locales
  show "is_scalar (sdk_field_bytes L x)" if "fr_spec L" for L :: "'a crypto" and x
    using that by (simp add: sdk_field_bytes_eq fr_to_be_scalar)
  show "(\<exists>f. field_from_bytes L bs = Inr f) \<longleftrightarrow> be_val bs < bn254_r"
    if "fr_spec L" "length bs = 32" for L :: "'a crypto" and bs
    using that by (simp add: field_from_bytes_iff is_scalar_def)
qed

lemma from_signed_value:
  assumes "fr_spec L"
  shows "from_signed L x = be_bytes 32 (nat (sint x mod int bn254_r))"
proof -
  let ?m = "unat (unsigned_abs x)"
  have m: "?m < bn254_r" "int ?m = \<bar>sint x\<bar>"
    by (rule unat_u64_lt_r) (simp add: unat_unsigned_abs)
  show ?thesis
  proof (cases "sint x < 0")
    case True
    with m have "- int ?m = sint x" by simp
    with True assms m(1) show ?thesis
      by (simp add: from_signed_def from_fr_def sdk_field_bytes_eq fr_from_u64_bytes fr_to_be_neg
          be_val_scalar neg_residue del: be_val_be_bytes)
  next
    case False
    with m(2) have "sint x = int ?m" by simp
    with m(1) have "nat (sint x mod int bn254_r) = ?m"
      by (simp only: of_nat_mod [symmetric] nat_int mod_less)
    with False assms show ?thesis
      by (simp add: from_signed_def from_fr_def sdk_field_bytes_eq fr_from_u64_bytes)
  qed
qed

interpretation sdk_amount: signed_encoder fr_spec from_signed
  by unfold_locales (rule from_signed_value)

text \<open>The two encoders of a public amount agree.\<close>

lemma from_signed_pool: "fr_spec L \<Longrightarrow> from_signed L x = public_amount_field L (scast x)"
  by (simp add: from_signed_value pool_amount.enc_value)

section \<open>Rejection sampling\<close>

text \<open>
  \<open>good_draw\<close> is a draw the loop accepts. A run of \<open>field_random\<close> returns if the
  generator fails or delivers a good draw after finitely many bad ones, and what it returns is
  canonical and not zero.
\<close>

definition good_draw :: "bytes \<Rightarrow> bool" where
  "good_draw bs \<longleftrightarrow> is_scalar bs \<and> bs \<noteq> field_zero"

fun draw_at :: "'g fill \<Rightarrow> nat \<Rightarrow> nat \<Rightarrow> 'g \<Rightarrow> (bytes \<times> 'g) option" where
  "draw_at fill n 0 g = fill n g"
| "draw_at fill n (Suc k) g = (case fill n g of None \<Rightarrow> None | Some (bs, g') \<Rightarrow> draw_at fill n k g')"

lemma field_random_unfold:
  assumes "fr_spec L"
  shows "field_random L fill g =
    (case fill 32 g of None \<Rightarrow> Some (Inl RandomError)
     | Some (bs, g') \<Rightarrow> if good_draw bs then Some (Inr (bs, g')) else field_random L fill g')"
proof (cases "fill 32 g")
  case (Some p)
  then obtain bs g' where p: "fill 32 g = Some (bs, g')" by (cases p) auto
  show ?thesis
  proof (cases "is_scalar bs")
    case True
    then have "field_from_bytes L bs = Inr bs" using assms by (simp add: field_from_bytes_iff)
    with p True show ?thesis by (subst field_random.simps) (simp add: good_draw_def)
  next
    case False
    then have "field_from_bytes L bs = Inl FieldError" using assms by (simp add: field_from_bytes_eq_Inl)
    with p False show ?thesis by (subst field_random.simps) (simp add: good_draw_def)
  qed
qed (subst field_random.simps, simp)

lemma field_random_returns:
  assumes "fr_spec L"
    and "draw_at fill 32 k g = None \<or> (\<exists>bs g'. draw_at fill 32 k g = Some (bs, g') \<and> good_draw bs)"
  shows "\<exists>r. field_random L fill g = Some r"
  using assms(2)
proof (induction k arbitrary: g)
  case 0
  then show ?case by (subst field_random_unfold [OF assms(1)]) (auto split: option.splits)
next
  case (Suc k)
  then show ?case
    by (subst field_random_unfold [OF assms(1)]) (auto split: option.splits)
qed

lemma field_random_result:
  assumes "field_random L fill g = Some r"
  shows "fr_spec L \<longrightarrow> (\<forall>f g'. r = Inr (f, g') \<longrightarrow> good_draw f)"
proof (rule field_random.raw_induct [OF _ assms,
      where P = "\<lambda>L fill g r. fr_spec L \<longrightarrow> (\<forall>f g'. r = Inr (f, g') \<longrightarrow> good_draw f)"], goal_cases)
  case (1 rec L fill g r)
  show ?case
    using 1(2) 1(1) [of L fill _ r]
    by (auto simp: field_from_bytes_iff good_draw_def split: option.splits sum.splits if_splits)
qed

lemma field_random_good:
  assumes "fr_spec L" "field_random L fill g = Some (Inr (f, g'))"
  shows "is_scalar f" and "f \<noteq> field_zero"
  using field_random_result [OF assms(2)] assms(1) by (auto simp: good_draw_def)

end
