(* ===== verification/Sdk_Note.thy ===== *)
theory Sdk_Note
  imports Sdk_Field Merkle Pool_Shield
begin

text \<open>
  Notes, owners and outputs of the client library (\<^verbatim>\<open>protocol/note.rs\<close>): the
  domain-separated Poseidon hashes, key derivation, commitments, nullifiers and the climb to
  the Merkle root.
\<close>

section \<open>Hashes\<close>

definition SPEND_KEY_DOMAIN :: field where "SPEND_KEY_DOMAIN = from_raw_u64 1"
definition NULLIFIER_KEY_DOMAIN :: field where "NULLIFIER_KEY_DOMAIN = from_raw_u64 2"
definition OWNER_DOMAIN :: field where "OWNER_DOMAIN = from_raw_u64 3"
definition NOTE_KEY_DOMAIN :: field where "NOTE_KEY_DOMAIN = from_raw_u64 4"
definition SDK_NOTE_DOMAIN :: field where "SDK_NOTE_DOMAIN = from_raw_u64 5"
definition NULLIFIER_DOMAIN :: field where "NULLIFIER_DOMAIN = from_raw_u64 6"
definition SDK_ASSET_DOMAIN :: field where "SDK_ASSET_DOMAIN = from_raw_u64 7"

lemmas domain_defs = SPEND_KEY_DOMAIN_def NULLIFIER_KEY_DOMAIN_def OWNER_DOMAIN_def
  NOTE_KEY_DOMAIN_def SDK_NOTE_DOMAIN_def NULLIFIER_DOMAIN_def SDK_ASSET_DOMAIN_def

definition sdk_poseidon :: "'fr crypto \<Rightarrow> field list \<Rightarrow> sdk_error + field" where
  "sdk_poseidon L inputs =
     bindE (ok_or PoseidonError (poseidon_hashv L inputs)) (\<lambda>hash.
     field_from_bytes L hash)"

section \<open>Owners and notes\<close>

record owner =
  own_spend :: secret
  own_view :: secret

definition owner_random :: "'fr crypto \<Rightarrow> 'g fill \<Rightarrow> ('g, owner) rand" where
  "owner_random L fill =
     bindR (secret_random_with L fill) (\<lambda>spend.
     bindR (secret_random_with L fill) (\<lambda>view.
     returnR \<lparr>own_spend = spend, own_view = view\<rparr>))"

definition nullifier_key :: "'fr crypto \<Rightarrow> owner \<Rightarrow> sdk_error + field" where
  "nullifier_key L ow = sdk_poseidon L [NULLIFIER_KEY_DOMAIN, expose (own_view ow)]"

definition owner_public :: "'fr crypto \<Rightarrow> owner \<Rightarrow> sdk_error + field" where
  "owner_public L ow =
     bindE (sdk_poseidon L [SPEND_KEY_DOMAIN, expose (own_spend ow)]) (\<lambda>spend.
     bindE (nullifier_key L ow) (\<lambda>nullifier.
     sdk_poseidon L [OWNER_DOMAIN, spend, nullifier]))"

definition note_key :: "'fr crypto \<Rightarrow> field \<Rightarrow> field \<Rightarrow> sdk_error + field" where
  "note_key L ow random = sdk_poseidon L [NOTE_KEY_DOMAIN, ow, random]"

definition commitment_from_key :: "'fr crypto \<Rightarrow> field \<Rightarrow> field \<Rightarrow> u64 \<Rightarrow> sdk_error + field" where
  "commitment_from_key L key asset value =
     sdk_poseidon L [SDK_NOTE_DOMAIN, key, asset, field_of_u64 L value]"

definition sdk_nullifier :: "'fr crypto \<Rightarrow> owner \<Rightarrow> u32 \<Rightarrow> sdk_error + field" where
  "sdk_nullifier L ow index =
     bindE (nullifier_key L ow) (\<lambda>key.
     sdk_poseidon L [NULLIFIER_DOMAIN, key, field_of_u64 L (ucast index)])"

record priv_note =
  pn_value :: u64
  pn_asset :: field
  pn_random :: secret

definition note_public_key :: "'fr crypto \<Rightarrow> priv_note \<Rightarrow> owner \<Rightarrow> sdk_error + field" where
  "note_public_key L n ow =
     bindE (owner_public L ow) (\<lambda>public. note_key L public (expose (pn_random n)))"

definition sdk_commitment :: "'fr crypto \<Rightarrow> priv_note \<Rightarrow> owner \<Rightarrow> sdk_error + field" where
  "sdk_commitment L n ow =
     bindE (note_public_key L n ow) (\<lambda>key. commitment_from_key L key (pn_asset n) (pn_value n))"

section \<open>Outputs\<close>

record send =
  sd_owner :: field
  sd_value :: u64
  sd_random :: secret
  sd_encrypted :: bytes

definition send_new :: "field \<Rightarrow> u64 \<Rightarrow> secret \<Rightarrow> bytes \<Rightarrow> sdk_error + send" where
  "send_new ow value random encrypted =
     (if value = 0 then Inl (TransactionError ''send value must be greater than zero'')
      else Inr \<lparr>sd_owner = ow, sd_value = value, sd_random = random, sd_encrypted = encrypted\<rparr>)"

definition send_dummy :: "'fr crypto \<Rightarrow> 'g fill \<Rightarrow> nat \<Rightarrow> ('g, send) rand" where
  "send_dummy L fill len =
     bindR (drawR fill len) (\<lambda>encrypted.
     bindR (field_random L fill) (\<lambda>ow.
     bindR (secret_random_with L fill) (\<lambda>random.
     returnR \<lparr>sd_owner = ow, sd_value = 0, sd_random = random, sd_encrypted = encrypted\<rparr>)))"

definition send_public_key :: "'fr crypto \<Rightarrow> send \<Rightarrow> sdk_error + field" where
  "send_public_key L s = note_key L (sd_owner s) (expose (sd_random s))"

section \<open>The climb\<close>

fun merkle_climb ::
    "'fr crypto \<Rightarrow> nat \<Rightarrow> field \<Rightarrow> u32 \<Rightarrow> field list \<Rightarrow> sdk_error + field" where
  "merkle_climb L level node index [] = Inr node"
| "merkle_climb L level node index (sibling # siblings) =
     bindE (if index AND push_bit level 1 = 0 then sdk_poseidon L [node, sibling]
            else sdk_poseidon L [sibling, node]) (\<lambda>node.
     merkle_climb L (Suc level) node index siblings)"

definition merkle_root :: "'fr crypto \<Rightarrow> field \<Rightarrow> u32 \<Rightarrow> field list \<Rightarrow> sdk_error + field" where
  "merkle_root L node index siblings = merkle_climb L 0 node index siblings"

section \<open>Behaviour\<close>

lemma sdk_poseidon_eq_Inr:
  assumes "fr_spec L" "poseidon_spec L"
  shows "sdk_poseidon L xs = Inr h \<longleftrightarrow> poseidon_hashv L xs = Some h"
  using poseidon_scalar [OF assms(2), of xs] by (auto simp: sdk_poseidon_def field_from_bytes_iff [OF assms(1)])

lemma sdk_poseidon_total:
  assumes "fr_spec L" "poseidon_spec L" "xs \<noteq> []" "length xs \<le> 12" "list_all is_scalar xs"
  shows "\<exists>h. sdk_poseidon L xs = Inr h \<and> poseidon_hashv L xs = Some h \<and> is_scalar h"
  using poseidon_total [OF assms(2-5)] poseidon_scalar [OF assms(2)]
  by (auto simp: sdk_poseidon_eq_Inr [OF assms(1,2)])

lemma sdk_poseidon_scalar:
  "fr_spec L \<Longrightarrow> poseidon_spec L \<Longrightarrow> sdk_poseidon L xs = Inr h \<Longrightarrow> is_scalar h"
  by (auto simp: sdk_poseidon_eq_Inr poseidon_scalar)

lemma domain_scalars [simp]:
  "is_scalar SPEND_KEY_DOMAIN" "is_scalar NULLIFIER_KEY_DOMAIN" "is_scalar OWNER_DOMAIN"
  "is_scalar NOTE_KEY_DOMAIN" "is_scalar SDK_NOTE_DOMAIN" "is_scalar NULLIFIER_DOMAIN"
  "is_scalar SDK_ASSET_DOMAIN"
  by (simp_all add: domain_defs from_raw_u64_eq)

text \<open>The two sides compute one commitment and one asset tag.\<close>

lemma commitment_from_key_pool:
  assumes "fr_spec L" "poseidon_spec L"
  shows "commitment_from_key L key asset v = Inr h \<longleftrightarrow> note_commitment L key asset v = Inr h"
  using assms by (simp add: commitment_from_key_def note_commitment_def poseidon_def
      sdk_poseidon_eq_Inr SDK_NOTE_DOMAIN_def NOTE_DOMAIN_def from_raw_u64_eq field_of_u64_bytes)

text \<open>The climb of the client is the climb of the specification.\<close>

lemma level_bit: "level < 32 \<Longrightarrow> (index :: u32) AND push_bit level 1 = 0 \<longleftrightarrow> even (unat index div 2 ^ level)"
proof -
  assume l: "level < 32"
  have "index AND push_bit level 1 = 0 \<longleftrightarrow> \<not> bit index level"
    by (simp add: push_bit_eq_mult and_exp_eq_0_iff_not_bit)
  also have "bit index level \<longleftrightarrow> odd (unat index div 2 ^ level)"
    by (simp add: bit_iff_odd [symmetric] bit_unsigned_iff l)
  finally show ?thesis by simp
qed

lemma merkle_climb_eq:
  assumes "fr_spec L" "poseidon_spec L" "is_scalar node" "list_all is_scalar ss" "level + length ss \<le> 32"
  shows "merkle_climb L level node index ss =
    Inr (climb (poseidon_node L) node (unat index div 2 ^ level) ss)"
  using assms(3-)
proof (induction ss arbitrary: level node)
  case (Cons s ss)
  have sc: "is_scalar s" "level < 32" using Cons.prems by auto
  have hash: "sdk_poseidon L [x, y] = Inr (poseidon_node L x y)"
    and node: "is_scalar (poseidon_node L x y)" if "is_scalar x" "is_scalar y" for x y
    using poseidon_node_scalar [OF assms(2) that] by (simp_all add: sdk_poseidon_eq_Inr [OF assms(1,2)])
  have "unat index div 2 ^ Suc level = unat index div 2 ^ level div 2"
    by (simp flip: div_mult2_eq add: mult.commute)
  then show ?case
    using Cons sc by (auto simp: level_bit [unfolded push_bit_of_1] hash node)
qed simp

lemma merkle_root_eq:
  assumes "fr_spec L" "poseidon_spec L" "is_scalar node" "list_all is_scalar ss" "length ss \<le> 32"
  shows "merkle_root L node index ss = Inr (climb (poseidon_node L) node (unat index) ss)"
  using merkle_climb_eq [OF assms(1-4), of 0 index] assms(5) by (simp add: merkle_root_def)

section \<open>Binding\<close>

text \<open>
  Two different input lists with the same Poseidon hash. The statements below hold outright
  when no such pair occurs among the hashes they name.
\<close>

definition poseidon_clash :: "'fr crypto \<Rightarrow> field list \<Rightarrow> field list \<Rightarrow> bool" where
  "poseidon_clash L xs ys \<longleftrightarrow>
     xs \<noteq> ys \<and> poseidon_hashv L xs \<noteq> None \<and> poseidon_hashv L xs = poseidon_hashv L ys"

lemma sdk_poseidon_clash:
  assumes "fr_spec L" "poseidon_spec L" "sdk_poseidon L xs = Inr h" "sdk_poseidon L ys = Inr h"
  shows "xs = ys \<or> poseidon_clash L xs ys"
  using assms by (auto simp: sdk_poseidon_eq_Inr poseidon_clash_def)

text \<open>The input lists that a commitment hashes, from the note down to the keys.\<close>

definition commitment_inputs :: "'fr crypto \<Rightarrow> priv_note \<Rightarrow> owner \<Rightarrow> field list list" where
  "commitment_inputs L n ow =
     (case (sdk_poseidon L [SPEND_KEY_DOMAIN, expose (own_spend ow)], nullifier_key L ow,
            owner_public L ow, note_public_key L n ow) of
        (Inr spend, Inr nk, Inr public, Inr npk) \<Rightarrow>
          [[SDK_NOTE_DOMAIN, npk, pn_asset n, field_of_u64 L (pn_value n)],
           [NOTE_KEY_DOMAIN, public, expose (pn_random n)],
           [OWNER_DOMAIN, spend, nk],
           [SPEND_KEY_DOMAIN, expose (own_spend ow)],
           [NULLIFIER_KEY_DOMAIN, expose (own_view ow)]]
      | _ \<Rightarrow> [])"

definition inputs_clash :: "'fr crypto \<Rightarrow> field list list \<Rightarrow> field list list \<Rightarrow> bool" where
  "inputs_clash L xss yss \<longleftrightarrow> list_ex (\<lambda>xs. list_ex (\<lambda>ys. poseidon_clash L xs ys) yss) xss"

lemma sdk_commitment_inputs:
  assumes "sdk_commitment L n ow = Inr c"
  obtains spend nk public npk where
    "sdk_poseidon L [SPEND_KEY_DOMAIN, expose (own_spend ow)] = Inr spend"
    and "sdk_poseidon L [NULLIFIER_KEY_DOMAIN, expose (own_view ow)] = Inr nk"
    and "sdk_poseidon L [OWNER_DOMAIN, spend, nk] = Inr public"
    and "sdk_poseidon L [NOTE_KEY_DOMAIN, public, expose (pn_random n)] = Inr npk"
    and "sdk_poseidon L [SDK_NOTE_DOMAIN, npk, pn_asset n, field_of_u64 L (pn_value n)] = Inr c"
    and "nullifier_key L ow = Inr nk"
    and "commitment_inputs L n ow =
      [[SDK_NOTE_DOMAIN, npk, pn_asset n, field_of_u64 L (pn_value n)],
       [NOTE_KEY_DOMAIN, public, expose (pn_random n)], [OWNER_DOMAIN, spend, nk],
       [SPEND_KEY_DOMAIN, expose (own_spend ow)], [NULLIFIER_KEY_DOMAIN, expose (own_view ow)]]"
  using assms
  by (auto simp: sdk_commitment_def note_public_key_def note_key_def owner_public_def
      commitment_from_key_def commitment_inputs_def nullifier_key_def)

lemma commitment_binds_lemma:
  assumes spec: "fr_spec L" "poseidon_spec L"
    and c: "sdk_commitment L n ow = Inr c" "sdk_commitment L n' ow' = Inr c"
  shows "(pn_value n = pn_value n' \<and> pn_asset n = pn_asset n' \<and>
      expose (pn_random n) = expose (pn_random n') \<and>
      expose (own_spend ow) = expose (own_spend ow') \<and> expose (own_view ow) = expose (own_view ow')) \<or>
    inputs_clash L (commitment_inputs L n ow) (commitment_inputs L n' ow')"
proof (rule disjCI)
  assume no: "\<not> inputs_clash L (commitment_inputs L n ow) (commitment_inputs L n' ow')"
  obtain s k p q where 1:
    "sdk_poseidon L [SPEND_KEY_DOMAIN, expose (own_spend ow)] = Inr s"
    "sdk_poseidon L [NULLIFIER_KEY_DOMAIN, expose (own_view ow)] = Inr k"
    "sdk_poseidon L [OWNER_DOMAIN, s, k] = Inr p"
    "sdk_poseidon L [NOTE_KEY_DOMAIN, p, expose (pn_random n)] = Inr q"
    "sdk_poseidon L [SDK_NOTE_DOMAIN, q, pn_asset n, field_of_u64 L (pn_value n)] = Inr c"
    and in1: "commitment_inputs L n ow =
      [[SDK_NOTE_DOMAIN, q, pn_asset n, field_of_u64 L (pn_value n)],
       [NOTE_KEY_DOMAIN, p, expose (pn_random n)], [OWNER_DOMAIN, s, k],
       [SPEND_KEY_DOMAIN, expose (own_spend ow)], [NULLIFIER_KEY_DOMAIN, expose (own_view ow)]]"
    using sdk_commitment_inputs [OF c(1)] .
  obtain s' k' p' q' where 2:
    "sdk_poseidon L [SPEND_KEY_DOMAIN, expose (own_spend ow')] = Inr s'"
    "sdk_poseidon L [NULLIFIER_KEY_DOMAIN, expose (own_view ow')] = Inr k'"
    "sdk_poseidon L [OWNER_DOMAIN, s', k'] = Inr p'"
    "sdk_poseidon L [NOTE_KEY_DOMAIN, p', expose (pn_random n')] = Inr q'"
    "sdk_poseidon L [SDK_NOTE_DOMAIN, q', pn_asset n', field_of_u64 L (pn_value n')] = Inr c"
    and in2: "commitment_inputs L n' ow' =
      [[SDK_NOTE_DOMAIN, q', pn_asset n', field_of_u64 L (pn_value n')],
       [NOTE_KEY_DOMAIN, p', expose (pn_random n')], [OWNER_DOMAIN, s', k'],
       [SPEND_KEY_DOMAIN, expose (own_spend ow')], [NULLIFIER_KEY_DOMAIN, expose (own_view ow')]]"
    using sdk_commitment_inputs [OF c(2)] .
  note inj = sdk_poseidon_clash [OF spec]
  have none: "\<not> poseidon_clash L xs ys"
    if "xs \<in> set (commitment_inputs L n ow)" "ys \<in> set (commitment_inputs L n' ow')" for xs ys
    using no that by (auto simp: inputs_clash_def list_ex_iff)
  have q: "q = q'" "pn_asset n = pn_asset n'" "field_of_u64 L (pn_value n) = field_of_u64 L (pn_value n')"
    using inj [OF 1(5) 2(5)] none in1 in2 by auto
  have p: "p = p'" "expose (pn_random n) = expose (pn_random n')"
    using inj [OF 1(4) 2(4) [folded q(1)]] none in1 in2 by auto
  have s: "s = s'" "k = k'"
    using inj [OF 1(3) 2(3) [folded p(1)]] none in1 in2 by auto
  have "expose (own_spend ow) = expose (own_spend ow')"
    using inj [OF 1(1) 2(1) [folded s(1)]] none in1 in2 by auto
  moreover have "expose (own_view ow) = expose (own_view ow')"
    using inj [OF 1(2) 2(2) [folded s(2)]] none in1 in2 by auto
  moreover have "pn_value n = pn_value n'"
    using q(3) spec(1) by (simp add: field_of_u64_bytes)
  ultimately show "pn_value n = pn_value n' \<and> pn_asset n = pn_asset n' \<and>
      expose (pn_random n) = expose (pn_random n') \<and>
      expose (own_spend ow) = expose (own_spend ow') \<and> expose (own_view ow) = expose (own_view ow')"
    using q(2) p(2) by blast
qed

end
