(* ===== verification/Sdk_Transaction.thy ===== *)
theory Sdk_Transaction
  imports Sdk_Note Pool_Verifier "HOL-Library.Multiset"
begin

text \<open>
  Transactions of the client library (\<^verbatim>\<open>protocol/transaction.rs\<close>): validation, padding
  with dummies and shuffling into the fixed two-in two-out shape, and the public values of a
  plan with every check on the way. The slots, vectors of length two in the sources, are pairs
  once they are full.
\<close>

definition SLOTS :: nat where "SLOTS = 2"
definition TREE_DEPTH :: nat where "TREE_DEPTH = 20"

record merkle_path =
  mp_index :: u32
  mp_siblings :: "field list"

record spend =
  sp_note :: priv_note
  sp_owner :: owner
  sp_merkle :: merkle_path

record transaction =
  t_spends :: "spend list"
  t_sends :: "send list"

record plan =
  p_spends :: "spend pair"
  p_sends :: "send pair"
  p_asset :: field

section \<open>Construction\<close>

definition transaction_new :: "spend list \<Rightarrow> send list \<Rightarrow> sdk_error + transaction" where
  "transaction_new inputs outputs =
     (if \<not> (1 \<le> length inputs \<and> length inputs \<le> SLOTS)
      then Inl (TransactionError ''transaction requires one or two spends'')
      else if length outputs > SLOTS
      then Inl (TransactionError ''transaction supports at most two sends'')
      else if list_ex (\<lambda>s. pn_value (sp_note s) = 0) inputs
      then Inl (TransactionError ''spend value must be greater than zero'')
      else Inr \<lparr>t_spends = inputs, t_sends = outputs\<rparr>)"

section \<open>Dummy inputs\<close>

text \<open>\<open>u32::from_be_bytes\<close> on four bytes.\<close>

definition u32_from_be :: "bytes \<Rightarrow> u32" where
  "u32_from_be bs = word_of_nat (be_val bs)"

text \<open>One attempt at a dummy input, and the loop that repeats it while its nullifier is zero.\<close>

definition dummy_attempt :: "'fr crypto \<Rightarrow> 'g fill \<Rightarrow> field \<Rightarrow> ('g, spend) rand" where
  "dummy_attempt L fill asset =
     bindR (drawR fill 4) (\<lambda>index_bytes.
     let index = u32_from_be index_bytes AND (push_bit TREE_DEPTH 1 - 1)
     in bindR (repeatR TREE_DEPTH (field_random L fill)) (\<lambda>siblings.
     bindR (secret_random_with L fill) (\<lambda>random.
     bindR (secret_random_with L fill) (\<lambda>spend.
     bindR (secret_random_with L fill) (\<lambda>view.
     returnR \<lparr>sp_note = \<lparr>pn_value = 0, pn_asset = asset, pn_random = random\<rparr>,
              sp_owner = \<lparr>own_spend = spend, own_view = view\<rparr>,
              sp_merkle = \<lparr>mp_index = index, mp_siblings = siblings\<rparr>\<rparr>)))))"

partial_function (option) dummy_spend ::
    "'fr crypto \<Rightarrow> 'g fill \<Rightarrow> field \<Rightarrow> 'g \<Rightarrow> (sdk_error + (spend \<times> 'g)) option" where
  "dummy_spend L fill asset g =
     (case dummy_attempt L fill asset g of
        None \<Rightarrow> None
      | Some (Inl e) \<Rightarrow> Some (Inl e)
      | Some (Inr (sp, g')) \<Rightarrow>
          (case sdk_nullifier L (sp_owner sp) (mp_index (sp_merkle sp)) of
             Inl e \<Rightarrow> Some (Inl e)
           | Inr n \<Rightarrow> if n \<noteq> field_zero then Some (Inr (sp, g')) else dummy_spend L fill asset g'))"

declare dummy_spend.simps [code]

text \<open>\<open>values.swap(0, 1)\<close>; both callers pass at least two values.\<close>

fun swap01 :: "'a list \<Rightarrow> 'a list" where
  "swap01 (a # b # xs) = b # a # xs"
| "swap01 xs = xs"

definition shuffle_pair :: "'g fill \<Rightarrow> 'a list \<Rightarrow> ('g, 'a list) rand" where
  "shuffle_pair fill values =
     bindR (drawR fill 1) (\<lambda>choice.
     returnR (if hd choice AND 1 = 1 then swap01 values else values))"

text \<open>\<open>while inputs.len() < SLOTS { inputs.push(..) }\<close>.\<close>

fun pad_slots :: "nat \<Rightarrow> ('g, 'a) rand \<Rightarrow> 'a list \<Rightarrow> ('g, 'a list) rand" where
  "pad_slots 0 m xs = returnR xs"
| "pad_slots (Suc n) m xs = bindR m (\<lambda>x. pad_slots n m (xs @ [x]))"

definition as_pair :: "sdk_error \<Rightarrow> 'a list \<Rightarrow> sdk_error + 'a pair" where
  "as_pair e xs = (case xs of [a, b] \<Rightarrow> Inr (a, b) | _ \<Rightarrow> Inl e)"

definition plan_of ::
    "'fr crypto \<Rightarrow> 'g fill \<Rightarrow> transaction \<Rightarrow> field \<Rightarrow> ('g, plan) rand" where
  "plan_of L fill t asset =
     (if list_ex (\<lambda>s. pn_asset (sp_note s) \<noteq> asset) (t_spends t)
      then liftR (Inl (TransactionError ''spend asset does not match the pool''))
      else
        let payload_len = fold max (map (\<lambda>s. length (sd_encrypted s)) (t_sends t)) 0
        in bindR (pad_slots (SLOTS - length (t_spends t)) (dummy_spend L fill asset) (t_spends t)) (\<lambda>inputs.
           bindR (pad_slots (SLOTS - length (t_sends t)) (send_dummy L fill payload_len) (t_sends t)) (\<lambda>outputs.
           bindR (shuffle_pair fill inputs) (\<lambda>inputs.
           bindR (shuffle_pair fill outputs) (\<lambda>outputs.
           bindR (liftR (as_pair (TransactionError ''invalid spend arity'') inputs)) (\<lambda>spends.
           bindR (liftR (as_pair (TransactionError ''invalid send arity'') outputs)) (\<lambda>sends.
           returnR \<lparr>p_spends = spends, p_sends = sends, p_asset = asset\<rparr>)))))))"

section \<open>Public inputs\<close>

record sdk_public_inputs =
  spi_root :: field
  spi_nullifiers :: "field pair"
  spi_commitments :: "field pair"
  spi_amount :: field
  spi_hash :: field

definition public_fields :: "sdk_public_inputs \<Rightarrow> field list" where
  "public_fields p =
     [spi_root p, fst (spi_nullifiers p), snd (spi_nullifiers p), fst (spi_commitments p),
      snd (spi_commitments p), spi_amount p, spi_hash p]"

definition witness_bytes :: "sdk_public_inputs \<Rightarrow> bytes" where
  "witness_bytes p =
     (let bs = replicate 236 0;
          bs = copy_at 0 [0, 0, 0, 7, 0, 0, 0, 0, 0, 0, 0, 7] bs
      in copy_fields 32 12 (public_fields p) bs)"

section \<open>The values of a plan\<close>

record public_flow =
  pf_amount :: i64
  pf_hash :: field

record plan_values =
  pv_public :: sdk_public_inputs
  pv_output_keys :: "field pair"

definition plan_encrypted :: "plan \<Rightarrow> bytes pair" where
  "plan_encrypted p = (sd_encrypted (fst (p_sends p)), sd_encrypted (snd (p_sends p)))"

text \<open>One iteration of the loop over the spends: the nullifier, the shared root, the total.\<close>

definition spend_values ::
    "'fr crypto \<Rightarrow> spend \<Rightarrow> field option \<Rightarrow> i128 \<Rightarrow> sdk_error + (field \<times> field option \<times> i128)" where
  "spend_values L sp root input_total =
     (if (ucast (mp_index (sp_merkle sp)) :: u64) \<ge> push_bit TREE_DEPTH 1
      then Inl (TransactionError ''leaf index exceeds tree capacity'')
      else
        bindE (sdk_nullifier L (sp_owner sp) (mp_index (sp_merkle sp))) (\<lambda>nullifier.
        if nullifier = field_zero then Inl (TransactionError ''nullifier must not be zero'')
        else
          let input_total = input_total + ucast (pn_value (sp_note sp))
          in if pn_value (sp_note sp) \<noteq> 0
             then bindE (sdk_commitment L (sp_note sp) (sp_owner sp)) (\<lambda>leaf.
                  bindE (merkle_root L leaf (mp_index (sp_merkle sp)) (mp_siblings (sp_merkle sp))) (\<lambda>candidate.
                  if (case root of Some current \<Rightarrow> current \<noteq> candidate | None \<Rightarrow> False)
                  then Inl (TransactionError ''spends do not share a Merkle root'')
                  else Inr (nullifier, Some candidate, input_total)))
             else Inr (nullifier, root, input_total)))"

definition plan_values_of :: "'fr crypto \<Rightarrow> plan \<Rightarrow> public_flow \<Rightarrow> sdk_error + plan_values" where
  "plan_values_of L p public =
     bindE (spend_values L (fst (p_spends p)) None 0) (\<lambda>(n0, root, input_total).
     bindE (spend_values L (snd (p_spends p)) root input_total) (\<lambda>(n1, root, input_total).
     if n0 = n1 then Inl (TransactionError ''spend nullifiers must be distinct'')
     else
       bindE (send_public_key L (fst (p_sends p))) (\<lambda>key0.
       bindE (send_public_key L (snd (p_sends p))) (\<lambda>key1.
       bindE (commitment_from_key L key0 (p_asset p) (sd_value (fst (p_sends p)))) (\<lambda>c0.
       bindE (commitment_from_key L key1 (p_asset p) (sd_value (snd (p_sends p)))) (\<lambda>c1.
       let output_total = (ucast (sd_value (fst (p_sends p))) + ucast (sd_value (snd (p_sends p))) :: i128)
       in if input_total + scast (pf_amount public) \<noteq> output_total
          then Inl (TransactionError ''value is not conserved'')
          else bindE (ok_or (TransactionError ''transaction has no real input'') root) (\<lambda>root.
               Inr \<lparr>pv_public = \<lparr>spi_root = root, spi_nullifiers = (n0, n1), spi_commitments = (c0, c1),
                                spi_amount = from_signed L (pf_amount public), spi_hash = pf_hash public\<rparr>,
                    pv_output_keys = (key0, key1)\<rparr>)))))))"

section \<open>Behaviour of the values\<close>

lemma i128_eq_iff:
  assumes "\<bar>a\<bar> < 2 ^ 126" "\<bar>b\<bar> < 2 ^ 126"
  shows "(word_of_int a :: i128) = word_of_int b \<longleftrightarrow> a = b"
proof
  assume "(word_of_int a :: i128) = word_of_int b"
  then have "a mod 2 ^ 128 = b mod 2 ^ 128"
    by (simp add: word_of_int_eq_iff take_bit_eq_mod)
  then have "2 ^ 128 dvd a - b" by (rule mod_eq_dvd_iff [THEN iffD1])
  moreover have "\<bar>a - b\<bar> < 2 ^ 128" using assms by simp
  ultimately show "a = b"
    using dvd_imp_le_int [of "a - b" "2 ^ 128"] by fastforce
qed simp

lemma flow_bounds:
  fixes a b c :: int
  assumes "0 \<le> a" "a < 2 ^ 64" "0 \<le> b" "b < 2 ^ 64" "- (2 ^ 63) \<le> c" "c < 2 ^ 63"
  shows "\<bar>a + b + c\<bar> < 2 ^ 126" and "\<bar>a + b\<bar> < 2 ^ 126"
  using assms by auto

lemma flow_equation:
  fixes v0 v1 o0 o1 :: u64 and x :: i64
  shows "(0 + ucast v0 + ucast v1 + scast x :: i128) = ucast o0 + ucast o1 \<longleftrightarrow>
    int (unat v0) + int (unat v1) + sint x = int (unat o0) + int (unat o1)"
proof -
  have u: "(ucast v :: i128) = word_of_int (int (unat v))" for v :: u64
    by simp
  have s: "(scast x :: i128) = word_of_int (sint x)"
    by simp
  have b: "uint v < 2 ^ 64" for v :: u64
    using unsigned_less [of v, where ?'a = int] by simp
  have "(0 + ucast v0 + ucast v1 + scast x :: i128) =
      word_of_int (int (unat v0) + int (unat v1) + sint x)"
    by (simp only: u s wi_hom_add add_0_left)
  moreover have "(ucast o0 + ucast o1 :: i128) = word_of_int (int (unat o0) + int (unat o1))"
    by (simp only: u wi_hom_add)
  moreover have "\<bar>int (unat v0) + int (unat v1) + sint x\<bar> < 2 ^ 126"
    by (rule flow_bounds(1)) (use b [of v0] b [of v1] sint_range [of x] in simp_all)
  moreover have "\<bar>int (unat o0) + int (unat o1)\<bar> < 2 ^ 126"
    by (rule flow_bounds(2) [where c = 0]) (use b [of o0] b [of o1] in simp_all)
  ultimately show ?thesis
    by (simp only:) (rule i128_eq_iff)
qed

lemma capacity_check:
  "(ucast (i :: u32) :: u64) \<ge> push_bit TREE_DEPTH 1 \<longleftrightarrow> 2 ^ 20 \<le> unat i"
proof -
  have "unat i < 2 ^ 32" using unsigned_less [of i, where ?'a = nat] by simp
  then have "unat (ucast i :: u64) = unat i"
    by (simp add: unsigned_ucast_eq take_bit_nat_eq_self_iff)
  then show ?thesis by (simp add: word_le_nat_alt TREE_DEPTH_def)
qed

lemma spend_values_eq_Inr:
  "spend_values L sp root tot = Inr (n, root', tot') \<longleftrightarrow>
     unat (mp_index (sp_merkle sp)) < 2 ^ 20 \<and>
     sdk_nullifier L (sp_owner sp) (mp_index (sp_merkle sp)) = Inr n \<and> n \<noteq> field_zero \<and>
     tot' = tot + ucast (pn_value (sp_note sp)) \<and>
     (if pn_value (sp_note sp) \<noteq> 0
      then \<exists>leaf c. sdk_commitment L (sp_note sp) (sp_owner sp) = Inr leaf \<and>
             merkle_root L leaf (mp_index (sp_merkle sp)) (mp_siblings (sp_merkle sp)) = Inr c \<and>
             root' = Some c \<and> (root = None \<or> root = Some c)
      else root' = root)"
  unfolding spend_values_def capacity_check not_le [symmetric]
  by (cases root) (auto simp: Let_def split: if_splits)

text \<open>What the values of a plan guarantee, as one predicate on the plan and the values.\<close>

definition real_root :: "'fr crypto \<Rightarrow> spend \<Rightarrow> field \<Rightarrow> bool" where
  "real_root L sp r \<longleftrightarrow>
     (pn_value (sp_note sp) \<noteq> 0 \<longrightarrow>
        (case sdk_commitment L (sp_note sp) (sp_owner sp) of
           Inl _ \<Rightarrow> False
         | Inr leaf \<Rightarrow>
             merkle_root L leaf (mp_index (sp_merkle sp)) (mp_siblings (sp_merkle sp)) = Inr r))"

definition value_of_spend :: "spend \<Rightarrow> int" where
  "value_of_spend sp = int (unat (pn_value (sp_note sp)))"

definition value_of_send :: "send \<Rightarrow> int" where
  "value_of_send s = int (unat (sd_value s))"

definition plan_conserves :: "plan \<Rightarrow> i64 \<Rightarrow> bool" where
  "plan_conserves p amount \<longleftrightarrow>
     value_of_spend (fst (p_spends p)) + value_of_spend (snd (p_spends p)) + sint amount =
     value_of_send (fst (p_sends p)) + value_of_send (snd (p_sends p))"

definition spend_ok :: "'fr crypto \<Rightarrow> spend \<Rightarrow> field \<Rightarrow> field \<Rightarrow> bool" where
  "spend_ok L sp n r \<longleftrightarrow>
     unat (mp_index (sp_merkle sp)) < 2 ^ 20 \<and> n \<noteq> field_zero \<and>
     sdk_nullifier L (sp_owner sp) (mp_index (sp_merkle sp)) = Inr n \<and> real_root L sp r"

definition output_ok :: "'fr crypto \<Rightarrow> field \<Rightarrow> send \<Rightarrow> field \<Rightarrow> field \<Rightarrow> bool" where
  "output_ok L asset s key c \<longleftrightarrow>
     send_public_key L s = Inr key \<and> commitment_from_key L key asset (sd_value s) = Inr c"

definition values_ok :: "'fr crypto \<Rightarrow> plan \<Rightarrow> public_flow \<Rightarrow> plan_values \<Rightarrow> bool" where
  "values_ok L p public v \<longleftrightarrow>
     (let pub = pv_public v in
      spend_ok L (fst (p_spends p)) (fst (spi_nullifiers pub)) (spi_root pub) \<and>
      spend_ok L (snd (p_spends p)) (snd (spi_nullifiers pub)) (spi_root pub) \<and>
      fst (spi_nullifiers pub) \<noteq> snd (spi_nullifiers pub) \<and>
      output_ok L (p_asset p) (fst (p_sends p)) (fst (pv_output_keys v)) (fst (spi_commitments pub)) \<and>
      output_ok L (p_asset p) (snd (p_sends p)) (snd (pv_output_keys v)) (snd (spi_commitments pub)) \<and>
      plan_conserves p (pf_amount public) \<and>
      (pn_value (sp_note (fst (p_spends p))) \<noteq> 0 \<or> pn_value (sp_note (snd (p_spends p))) \<noteq> 0) \<and>
      spi_amount pub = from_signed L (pf_amount public) \<and> spi_hash pub = pf_hash public)"

lemma conserved_iff:
  "(0 + ucast (pn_value (sp_note (fst (p_spends p)))) + ucast (pn_value (sp_note (snd (p_spends p))))
      + scast amount :: i128) =
    ucast (sd_value (fst (p_sends p))) + ucast (sd_value (snd (p_sends p))) \<longleftrightarrow>
   plan_conserves p amount"
  unfolding plan_conserves_def value_of_spend_def value_of_send_def by (rule flow_equation)

lemma spend_values_ok:
  assumes "spend_ok L sp n r" "root = None \<or> root = Some r"
  shows "spend_values L sp root tot =
    Inr (n, if pn_value (sp_note sp) \<noteq> 0 then Some r else root, tot + ucast (pn_value (sp_note sp)))"
  using assms
  by (cases "sdk_commitment L (sp_note sp) (sp_owner sp)")
    (auto simp: spend_values_eq_Inr spend_ok_def real_root_def)

lemma spend_ok_values:
  assumes "spend_values L sp root tot = Inr (n, root', tot')"
  shows "tot' = tot + ucast (pn_value (sp_note sp))"
    and "root' = Some r \<Longrightarrow> spend_ok L sp n r"
    and "root = Some r \<Longrightarrow> root' = Some r"
    and "root' = None \<Longrightarrow> pn_value (sp_note sp) = 0 \<and> root = None \<and> spend_ok L sp n q"
    and "root = None \<Longrightarrow> root' = Some r \<Longrightarrow> pn_value (sp_note sp) \<noteq> 0"
  using assms by (auto simp: spend_values_eq_Inr spend_ok_def real_root_def split: if_splits)

lemma plan_values_of_iff:
  "plan_values_of L p public = Inr v \<longleftrightarrow> values_ok L p public v"
proof
  assume "plan_values_of L p public = Inr v"
  then obtain n0 r0 t0 n1 r1 t1 key0 key1 c0 c1 root where
    s: "spend_values L (fst (p_spends p)) None 0 = Inr (n0, r0, t0)"
      "spend_values L (snd (p_spends p)) r0 t0 = Inr (n1, r1, t1)" "n0 \<noteq> n1"
    and o: "send_public_key L (fst (p_sends p)) = Inr key0" "send_public_key L (snd (p_sends p)) = Inr key1"
      "commitment_from_key L key0 (p_asset p) (sd_value (fst (p_sends p))) = Inr c0"
      "commitment_from_key L key1 (p_asset p) (sd_value (snd (p_sends p))) = Inr c1"
    and t: "t1 + scast (pf_amount public) =
        (ucast (sd_value (fst (p_sends p))) + ucast (sd_value (snd (p_sends p))) :: i128)"
    and r: "r1 = Some root"
    and v: "v = \<lparr>pv_public = \<lparr>spi_root = root, spi_nullifiers = (n0, n1), spi_commitments = (c0, c1),
                    spi_amount = from_signed L (pf_amount public), spi_hash = pf_hash public\<rparr>,
                 pv_output_keys = (key0, key1)\<rparr>"
    by (auto simp: plan_values_of_def Let_def split: if_splits)
  have "t1 = 0 + ucast (pn_value (sp_note (fst (p_spends p)))) + ucast (pn_value (sp_note (snd (p_spends p))))"
    using spend_ok_values(1) [OF s(1)] spend_ok_values(1) [OF s(2)] by simp
  then have "plan_conserves p (pf_amount public)" using t conserved_iff by metis
  moreover have "spend_ok L (snd (p_spends p)) n1 root"
    using spend_ok_values(2) [OF s(2) r] .
  moreover have "spend_ok L (fst (p_spends p)) n0 root \<and>
      (pn_value (sp_note (fst (p_spends p))) \<noteq> 0 \<or> pn_value (sp_note (snd (p_spends p))) \<noteq> 0)"
  proof (cases r0)
    case None
    then show ?thesis
      using spend_ok_values(4) [OF s(1)] spend_ok_values(5) [OF s(2) _ r] by blast
  next
    case (Some q)
    then have "q = root" using spend_ok_values(3) [OF s(2)] r by simp
    with Some show ?thesis
      using spend_ok_values(2,5) [OF s(1)] by blast
  qed
  ultimately show "values_ok L p public v"
    using s(3) o by (simp add: v values_ok_def output_ok_def)
next
  assume ok: "values_ok L p public v"
  obtain root n0 n1 c0 c1 key0 key1 where
    v: "v = \<lparr>pv_public = \<lparr>spi_root = root, spi_nullifiers = (n0, n1), spi_commitments = (c0, c1),
                    spi_amount = from_signed L (pf_amount public), spi_hash = pf_hash public\<rparr>,
                 pv_output_keys = (key0, key1)\<rparr>"
    using ok by (cases v; cases "pv_public v") (auto simp: values_ok_def Let_def)
  let ?r0 = "if pn_value (sp_note (fst (p_spends p))) \<noteq> 0 then Some root else None"
  let ?t0 = "0 + ucast (pn_value (sp_note (fst (p_spends p)))) :: i128"
  have sp: "spend_ok L (fst (p_spends p)) n0 root" "spend_ok L (snd (p_spends p)) n1 root"
    and real: "pn_value (sp_note (fst (p_spends p))) \<noteq> 0 \<or> pn_value (sp_note (snd (p_spends p))) \<noteq> 0"
    using ok by (simp_all add: v values_ok_def)
  have "spend_values L (fst (p_spends p)) None 0 = Inr (n0, ?r0, ?t0)"
    using spend_values_ok [OF sp(1), of None 0] by simp
  moreover have "spend_values L (snd (p_spends p)) ?r0 ?t0 =
      Inr (n1, Some root, ?t0 + ucast (pn_value (sp_note (snd (p_spends p)))))"
    using spend_values_ok [OF sp(2), of ?r0 ?t0] real by auto
  moreover have "?t0 + ucast (pn_value (sp_note (snd (p_spends p)))) + scast (pf_amount public) =
      (ucast (sd_value (fst (p_sends p))) + ucast (sd_value (snd (p_sends p))) :: i128)"
    using ok conserved_iff by (simp only: v values_ok_def Let_def)
  ultimately show "plan_values_of L p public = Inr v"
    using ok unfolding plan_values_of_def by (simp add: v values_ok_def output_ok_def Let_def)
qed

section \<open>Padding and shuffling\<close>

definition fill_spec :: "'g fill \<Rightarrow> bool" where
  "fill_spec fill \<longleftrightarrow> (\<forall>n g bs g'. fill n g = Some (bs, g') \<longrightarrow> length bs = n)"

text \<open>What a padding input and a padding output look like.\<close>

definition dummy_spend_ok :: "'fr crypto \<Rightarrow> field \<Rightarrow> spend \<Rightarrow> bool" where
  "dummy_spend_ok L asset sp \<longleftrightarrow>
     pn_value (sp_note sp) = 0 \<and> pn_asset (sp_note sp) = asset \<and>
     unat (mp_index (sp_merkle sp)) < 2 ^ 20 \<and> length (mp_siblings (sp_merkle sp)) = 20 \<and>
     list_all is_scalar (mp_siblings (sp_merkle sp)) \<and>
     (case sdk_nullifier L (sp_owner sp) (mp_index (sp_merkle sp)) of
        Inl _ \<Rightarrow> False | Inr n \<Rightarrow> n \<noteq> field_zero)"

definition dummy_send_ok :: "nat \<Rightarrow> send \<Rightarrow> bool" where
  "dummy_send_ok len s \<longleftrightarrow>
     sd_value s = 0 \<and> length (sd_encrypted s) = len \<and> is_scalar (sd_owner s) \<and> sd_owner s \<noteq> field_zero"

lemma index_mask: "unat ((w :: u32) AND (push_bit TREE_DEPTH 1 - 1)) < 2 ^ 20"
proof -
  have "(push_bit TREE_DEPTH 1 - 1 :: u32) = mask 20"
    by (simp add: TREE_DEPTH_def mask_eq_exp_minus_1)
  then have "w AND (push_bit TREE_DEPTH 1 - 1) = take_bit 20 w"
    by (simp only: take_bit_eq_mask)
  then have "unat (w AND (push_bit TREE_DEPTH 1 - 1)) = take_bit 20 (unat w)"
    by (simp only: unsigned_take_bit_eq)
  then show ?thesis by (simp only: take_bit_nat_less_exp)
qed

lemma dummy_attempt_ok:
  assumes "fr_spec L" "dummy_attempt L fill asset g = Some (Inr (sp, g'))"
  shows "pn_value (sp_note sp) = 0 \<and> pn_asset (sp_note sp) = asset \<and>
     unat (mp_index (sp_merkle sp)) < 2 ^ 20 \<and> length (mp_siblings (sp_merkle sp)) = 20 \<and>
     list_all is_scalar (mp_siblings (sp_merkle sp))"
proof -
  obtain ib ss r s v g1 g2 where
    ss: "repeatR TREE_DEPTH (field_random L fill) g1 = Some (Inr (ss, g2))"
    and sp: "sp = \<lparr>sp_note = \<lparr>pn_value = 0, pn_asset = asset, pn_random = r\<rparr>,
              sp_owner = \<lparr>own_spend = s, own_view = v\<rparr>,
              sp_merkle = \<lparr>mp_index = u32_from_be ib AND (push_bit TREE_DEPTH 1 - 1), mp_siblings = ss\<rparr>\<rparr>"
    using assms(2) unfolding dummy_attempt_def Let_def by (auto simp del: push_bit_of_1)
  have "list_all is_scalar ss"
    using ss by (rule repeatR_all [rotated]) (rule field_random_good(1) [OF assms(1)])
  with repeatR_length [OF ss] index_mask [of "u32_from_be ib"] show ?thesis
    by (simp add: sp TREE_DEPTH_def)
qed

lemma dummy_spend_result:
  assumes "dummy_spend L fill asset g = Some r"
  shows "fr_spec L \<longrightarrow> (\<forall>sp g'. r = Inr (sp, g') \<longrightarrow> dummy_spend_ok L asset sp)"
proof (rule dummy_spend.raw_induct [OF _ assms,
      where P = "\<lambda>L fill asset g r. fr_spec L \<longrightarrow> (\<forall>sp g'. r = Inr (sp, g') \<longrightarrow> dummy_spend_ok L asset sp)"],
    goal_cases)
  case (1 rec L fill asset g r)
  show ?case
  proof (intro impI allI)
    fix sp g' assume fr: "fr_spec L" and r: "r = Inr (sp, g')"
    obtain x gx where a: "dummy_attempt L fill asset g = Some (Inr (x, gx))"
      using 1(2) r by (auto split: option.splits sum.splits)
    with 1(2) r obtain n where n: "sdk_nullifier L (sp_owner x) (mp_index (sp_merkle x)) = Inr n"
      by (auto split: sum.splits)
    show "dummy_spend_ok L asset sp"
    proof (cases "n = field_zero")
      case True
      with 1(2) a n have "rec L fill asset gx = Some r" by simp
      with 1(1) fr r show ?thesis by blast
    next
      case False
      with 1(2) a n r have "x = sp" by simp
      with dummy_attempt_ok [OF fr a] n False show ?thesis by (simp add: dummy_spend_ok_def)
    qed
  qed
qed

lemma dummy_spend_is_ok:
  "fr_spec L \<Longrightarrow> dummy_spend L fill asset g = Some (Inr (sp, g')) \<Longrightarrow> dummy_spend_ok L asset sp"
  using dummy_spend_result [of L fill asset g] by blast

lemma send_dummy_ok:
  assumes "fr_spec L" "fill_spec fill" "send_dummy L fill len g = Some (Inr (s, g'))"
  shows "dummy_send_ok len s"
proof -
  obtain enc g1 ow g2 random where d: "fill len g = Some (enc, g1)"
      "field_random L fill g1 = Some (Inr (ow, g2))"
    and s: "s = \<lparr>sd_owner = ow, sd_value = 0, sd_random = random, sd_encrypted = enc\<rparr>"
    using assms(3) by (auto simp: send_dummy_def)
  have "length enc = len" using assms(2) d(1) unfolding fill_spec_def by blast
  with field_random_good [OF assms(1) d(2)] show ?thesis by (simp add: s dummy_send_ok_def)
qed

lemma pad_slots_eq_Inr:
  assumes "pad_slots n m xs g = Some (Inr (ys, g'))" "\<And>x g g'. m g = Some (Inr (x, g')) \<Longrightarrow> P x"
  shows "\<exists>zs. ys = xs @ zs \<and> length zs = n \<and> list_all P zs"
  using assms(1)
proof (induction n arbitrary: xs g)
  case (Suc n)
  then obtain x g1 where "m g = Some (Inr (x, g1))" "pad_slots n m (xs @ [x]) g1 = Some (Inr (ys, g'))"
    by auto
  with Suc.IH [of "xs @ [x]" g1] assms(2) [of g x g1] show ?case
    by fastforce
qed simp

lemma mset_swap01 [simp]: "mset (swap01 xs) = mset xs"
  by (induction xs rule: swap01.induct) auto

lemma shuffle_pair_mset: "shuffle_pair fill xs g = Some (Inr (ys, g')) \<Longrightarrow> mset ys = mset xs"
  by (auto simp: shuffle_pair_def split: if_splits)

lemma as_pair_eq_Inr: "as_pair e xs = Inr p \<longleftrightarrow> xs = [fst p, snd p]"
  by (auto simp: as_pair_def split: list.splits)

text \<open>A plan is the transaction's own spends and sends, padded and possibly swapped.\<close>

definition payload_length :: "transaction \<Rightarrow> nat" where
  "payload_length t = fold max (map (\<lambda>s. length (sd_encrypted s)) (t_sends t)) 0"

lemma plan_of_eq_Inr:
  assumes "fr_spec L" "fill_spec fill" "plan_of L fill t asset g = Some (Inr (p, g'))"
  obtains ds os where
    "mset [fst (p_spends p), snd (p_spends p)] = mset (t_spends t @ ds)"
    and "mset [fst (p_sends p), snd (p_sends p)] = mset (t_sends t @ os)"
    and "list_all (dummy_spend_ok L asset) ds" and "list_all (dummy_send_ok (payload_length t)) os"
    and "length ds = SLOTS - length (t_spends t)" and "length os = SLOTS - length (t_sends t)"
    and "p_asset p = asset" and "list_all (\<lambda>s. pn_asset (sp_note s) = asset) (t_spends t)"
proof -
  have asset: "list_all (\<lambda>s. pn_asset (sp_note s) = asset) (t_spends t)"
    using assms(3) by (auto simp: plan_of_def list_all_iff list_ex_iff split: if_splits)
  then have "\<not> list_ex (\<lambda>s. pn_asset (sp_note s) \<noteq> asset) (t_spends t)"
    by (auto simp: list_all_iff list_ex_iff)
  with assms(3) obtain ins g1 outs g2 ins' g3 outs' where
    pads: "pad_slots (SLOTS - length (t_spends t)) (dummy_spend L fill asset) (t_spends t) g = Some (Inr (ins, g1))"
      "pad_slots (SLOTS - length (t_sends t)) (send_dummy L fill (payload_length t)) (t_sends t) g1 =
        Some (Inr (outs, g2))"
    and sh: "shuffle_pair fill ins g2 = Some (Inr (ins', g3))"
      "\<exists>g4. shuffle_pair fill outs g3 = Some (Inr (outs', g4))"
    and pr: "ins' = [fst (p_spends p), snd (p_spends p)]" "outs' = [fst (p_sends p), snd (p_sends p)]"
      "p_asset p = asset"
    by (auto simp: plan_of_def payload_length_def Let_def as_pair_eq_Inr)
  have "\<exists>zs. ins = t_spends t @ zs \<and> length zs = SLOTS - length (t_spends t) \<and>
      list_all (dummy_spend_ok L asset) zs"
    by (rule pad_slots_eq_Inr [OF pads(1)]) (rule dummy_spend_is_ok [OF assms(1)])
  then obtain ds where
    ds: "ins = t_spends t @ ds" "length ds = SLOTS - length (t_spends t)" "list_all (dummy_spend_ok L asset) ds"
    by blast
  have "\<exists>zs. outs = t_sends t @ zs \<and> length zs = SLOTS - length (t_sends t) \<and>
      list_all (dummy_send_ok (payload_length t)) zs"
    by (rule pad_slots_eq_Inr [OF pads(2)]) (rule send_dummy_ok [OF assms(1,2)])
  then obtain os where
    os: "outs = t_sends t @ os" "length os = SLOTS - length (t_sends t)"
      "list_all (dummy_send_ok (payload_length t)) os"
    by blast
  from sh have "mset ins' = mset ins" "mset outs' = mset outs"
    by (auto dest: shuffle_pair_mset)
  with that [of ds os] ds os pr asset show thesis by metis
qed

end
