(* ===== verification/Sdk_Solana.thy ===== *)
theory Sdk_Solana
  imports Sdk_Transaction Pool_Transact
begin

text \<open>
  The Solana side of the client library (\<^verbatim>\<open>solana/mod.rs\<close>,
  \<^verbatim>\<open>solana/binding.rs\<close>, \<^verbatim>\<open>solana/instruction.rs\<close>): the pool configuration
  with its derived addresses, the binding hash, withdrawals, and the instruction that submits a
  proof. Borsh is a parameter of the instruction builder. The lemmas show that the client and
  the program compute the same asset tag, binding hash and public witness.
\<close>

definition SDK_DOMAIN :: bytes where "SDK_DOMAIN = ascii ''veil402:transact:v4''"
definition SDK_VERSION_SEED :: bytes where "SDK_VERSION_SEED = ascii ''v4''"
definition SDK_MAX_ENCRYPTED_NOTE_LEN :: nat where "SDK_MAX_ENCRYPTED_NOTE_LEN = 128"
definition SYSTEM_PROGRAM :: pubkey where "SYSTEM_PROGRAM = replicate 32 0"

section \<open>Pools\<close>

record sdk_pool =
  spo_program :: pubkey
  spo_verifier :: pubkey
  spo_mint :: pubkey
  spo_domain :: bytes
  spo_address :: pubkey
  spo_tree :: pubkey
  spo_vault :: pubkey
  spo_asset :: field

definition sdk_asset :: "'fr crypto \<Rightarrow> pubkey \<Rightarrow> sdk_error + field" where
  "sdk_asset L mint =
     (let high = copy_at 16 (take 16 mint) (replicate 32 0);
          low = copy_at 16 (drop 16 mint) (replicate 32 0)
      in bindE (field_from_bytes L high) (\<lambda>high.
         bindE (field_from_bytes L low) (\<lambda>low.
         sdk_poseidon L [SDK_ASSET_DOMAIN, high, low])))"

definition sdk_pool_new ::
    "runtime \<Rightarrow> 'fr crypto \<Rightarrow> pubkey \<Rightarrow> pubkey \<Rightarrow> pubkey \<Rightarrow> bytes \<Rightarrow> sdk_error + sdk_pool" where
  "sdk_pool_new R L program verifier mint domain =
     (let address = fst (find_program_address R [ascii ''pool'', SDK_VERSION_SEED] program);
          tree = fst (find_program_address R [ascii ''tree'', address] program);
          vault = ata_address R address mint
      in bindE (sdk_asset L mint) (\<lambda>asset.
         Inr \<lparr>spo_program = program, spo_verifier = verifier, spo_mint = mint, spo_domain = domain,
              spo_address = address, spo_tree = tree, spo_vault = vault, spo_asset = asset\<rparr>))"

text \<open>What a caller may read of a pool.\<close>

definition sdk_pool_address :: "sdk_pool \<Rightarrow> pubkey" where
  [simp]: "sdk_pool_address pool = spo_address pool"

definition sdk_pool_tree :: "sdk_pool \<Rightarrow> pubkey" where
  [simp]: "sdk_pool_tree pool = spo_tree pool"

definition sdk_pool_vault :: "sdk_pool \<Rightarrow> pubkey" where
  [simp]: "sdk_pool_vault pool = spo_vault pool"

definition sdk_pool_asset :: "sdk_pool \<Rightarrow> field" where
  [simp]: "sdk_pool_asset pool = spo_asset pool"

section \<open>External data\<close>

record external =
  ex_recipient :: pubkey
  ex_encrypted :: "bytes pair"

definition external_new :: "plan \<Rightarrow> pubkey \<Rightarrow> sdk_error + external" where
  "external_new p recipient =
     (let encrypted = plan_encrypted p
      in if list_ex (\<lambda>payload. length payload > SDK_MAX_ENCRYPTED_NOTE_LEN) [fst encrypted, snd encrypted]
         then Inl (TransactionError ''encrypted note exceeds 128 bytes'')
         else Inr \<lparr>ex_recipient = recipient, ex_encrypted = encrypted\<rparr>)"

definition sdk_binding :: "'fr crypto \<Rightarrow> sdk_pool \<Rightarrow> external \<Rightarrow> i64 \<Rightarrow> sdk_error + field" where
  "sdk_binding L pool external amount =
     bindE (ok_or (WithdrawalError ''encrypted note length is not representable'')
        (u32_try_from (length (fst (ex_encrypted external))))) (\<lambda>first_len.
     bindE (ok_or (WithdrawalError ''encrypted note length is not representable'')
        (u32_try_from (length (snd (ex_encrypted external))))) (\<lambda>second_len.
     let digest = keccak_hashv L
           [SDK_DOMAIN, spo_domain pool, spo_program pool, spo_address pool, spo_mint pool,
            spo_verifier pool, ex_recipient external, u64_be amount, u32_be first_len,
            fst (ex_encrypted external), u32_be second_len, snd (ex_encrypted external)]
     in Inr (from_fr L (fr_from_be_mod L digest))))"

definition pool_bind :: "'fr crypto \<Rightarrow> sdk_pool \<Rightarrow> external \<Rightarrow> i64 \<Rightarrow> sdk_error + field" where
  [simp]: "pool_bind L pool external amount = sdk_binding L pool external amount"

section \<open>Withdrawals\<close>

record withdrawal =
  wd_recipient :: pubkey
  wd_amount :: i64

text \<open>\<open>i64::try_from\<close> of a \<open>u64\<close>.\<close>

definition i64_try_from :: "u64 \<Rightarrow> i64 option" where
  "i64_try_from x = (if unat x < 2 ^ 63 then Some x else None)"

definition withdrawal_new :: "pubkey \<Rightarrow> u64 \<Rightarrow> sdk_error + withdrawal" where
  "withdrawal_new recipient amount =
     (if amount = 0 then Inl (WithdrawalError ''amount must be greater than zero'')
      else bindE (ok_or (WithdrawalError ''amount exceeds the signed protocol range'')
             (i64_try_from amount)) (\<lambda>amount.
           Inr \<lparr>wd_recipient = recipient, wd_amount = amount\<rparr>))"

definition withdrawal_recipient :: "withdrawal \<Rightarrow> pubkey" where
  [simp]: "withdrawal_recipient wd = wd_recipient wd"

definition withdrawal_amount :: "withdrawal \<Rightarrow> u64" where
  "withdrawal_amount wd = unsigned_abs (wd_amount wd)"

definition withdrawal_public_amount :: "withdrawal \<Rightarrow> i64" where
  "withdrawal_public_amount wd = - wd_amount wd"

section \<open>The instruction\<close>

record sdk_proof =
  pr_bytes :: bytes
  pr_public :: sdk_public_inputs
  pr_artifact :: string

record account_meta =
  am_pubkey :: pubkey
  am_signer :: bool
  am_writable :: bool

definition meta_new :: "pubkey \<Rightarrow> bool \<Rightarrow> account_meta" where
  "meta_new k signer = \<lparr>am_pubkey = k, am_signer = signer, am_writable = True\<rparr>"

definition meta_readonly :: "pubkey \<Rightarrow> bool \<Rightarrow> account_meta" where
  "meta_readonly k signer = \<lparr>am_pubkey = k, am_signer = signer, am_writable = False\<rparr>"

record sdk_instruction =
  si_program :: pubkey
  si_accounts :: "account_meta list"
  si_data :: bytes

text \<open>
  \<open>Args\<close> with its \<open>ExtData\<close> has the fields of the program's arguments and is the record
  \<open>transact_args\<close>; \<open>borsh\<close> serialises it.
\<close>

definition instruction_args :: "sdk_proof \<Rightarrow> external \<Rightarrow> i64 \<Rightarrow> transact_args" where
  "instruction_args proof external amount =
     \<lparr>tx_proof = pr_bytes proof,
      tx_root = to_bytes (spi_root (pr_public proof)),
      tx_nullifiers = map_prod to_bytes to_bytes (spi_nullifiers (pr_public proof)),
      tx_out_commitments = map_prod to_bytes to_bytes (spi_commitments (pr_public proof)),
      tx_ext_amount = amount,
      tx_ext_data = \<lparr>ed_recipient = ex_recipient external, ed_encrypted_notes = ex_encrypted external\<rparr>\<rparr>"

definition transact_discriminator :: "'fr crypto \<Rightarrow> bytes" where
  "transact_discriminator L = take 8 (sha256_digest L (ascii ''global:transact''))"

definition sdk_transact ::
    "runtime \<Rightarrow> 'fr crypto \<Rightarrow> (transact_args \<Rightarrow> bytes option) \<Rightarrow> sdk_pool \<Rightarrow> sdk_proof \<Rightarrow>
     external \<Rightarrow> i64 \<Rightarrow> pubkey \<Rightarrow> sdk_error + sdk_instruction" where
  "sdk_transact R L borsh pool proof external amount payer =
     bindE (pool_bind L pool external amount) (\<lambda>hash.
     if spi_hash (pr_public proof) \<noteq> hash
     then Inl (TransactionError ''proof is bound to different public data'')
     else if spi_amount (pr_public proof) \<noteq> from_signed L amount
     then Inl (TransactionError ''proof is bound to a different amount'')
     else
       let nullifier_record = (\<lambda>nullifier. fst (find_program_address R
             [ascii ''nullifier'', spo_address pool, nullifier] (spo_program pool)));
           recipient_ata = (if sint amount < 0 then ata_address R (ex_recipient external) (spo_mint pool)
                            else spo_vault pool);
           args = instruction_args proof external amount
       in bindE (ok_or (TransactionError ''instruction encoding failed'') (borsh args)) (\<lambda>encoded.
          Inr \<lparr>si_program = spo_program pool,
               si_accounts =
                 [meta_readonly (spo_address pool) False,
                  meta_new (spo_tree pool) False,
                  meta_new (spo_vault pool) False,
                  meta_readonly (spo_mint pool) False,
                  meta_new (nullifier_record (fst (spi_nullifiers (pr_public proof)))) False,
                  meta_new (nullifier_record (snd (spi_nullifiers (pr_public proof)))) False,
                  meta_new recipient_ata False,
                  meta_readonly (spo_verifier pool) False,
                  meta_new payer True,
                  meta_readonly (token_program_id R) False,
                  meta_readonly SYSTEM_PROGRAM False],
               si_data = transact_discriminator L @ encoded\<rparr>))"

definition pool_instruction ::
    "runtime \<Rightarrow> 'fr crypto \<Rightarrow> (transact_args \<Rightarrow> bytes option) \<Rightarrow> sdk_pool \<Rightarrow> sdk_proof \<Rightarrow>
     external \<Rightarrow> i64 \<Rightarrow> pubkey \<Rightarrow> sdk_error + sdk_instruction" where
  [simp]: "pool_instruction R L borsh pool proof external amount payer =
     sdk_transact R L borsh pool proof external amount payer"

section \<open>Agreement with the program\<close>

lemma sdk_asset_pool:
  assumes "fr_spec L" "poseidon_spec L" "length mint = 32"
  shows "sdk_asset L mint = Inr a \<longleftrightarrow> asset_id_of L mint = Inr a"
proof -
  have halves: "copy_at 16 (take 16 mint) (replicate 32 0) = fst (split32 mint)"
      "copy_at 16 (drop 16 mint) (replicate 32 0) = snd (split32 mint)"
    using assms(3) by (simp_all add: copy_at_def split32_def)
  have "field_from_bytes L (fst (split32 mint)) = Inr (fst (split32 mint))"
      "field_from_bytes L (snd (split32 mint)) = Inr (snd (split32 mint))"
    using split32_scalars [OF assms(3)] by (simp_all add: field_from_bytes_iff [OF assms(1)])
  then have "sdk_asset L mint = sdk_poseidon L [SDK_ASSET_DOMAIN, fst (split32 mint), snd (split32 mint)]"
    unfolding sdk_asset_def halves Let_def by simp
  moreover have "SDK_ASSET_DOMAIN = u64_be32 ASSET_DOMAIN"
    by (simp add: SDK_ASSET_DOMAIN_def ASSET_DOMAIN_def from_raw_u64_eq)
  ultimately show ?thesis
    by (simp add: sdk_poseidon_eq_Inr [OF assms(1,2)] asset_id_of_def poseidon_def case_prod_beta)
qed

lemma sdk_binding_pool:
  assumes "fr_spec L" "spo_program pool = pool_program_id"
  shows "sdk_binding L pool ext amount = Inr h \<longleftrightarrow>
    ext_data_hash L \<lparr>ed_recipient = ex_recipient ext, ed_encrypted_notes = ex_encrypted ext\<rparr>
      (spo_domain pool) (spo_address pool) (spo_mint pool) (spo_verifier pool) amount = Inr h"
  using assms
  by (auto simp: sdk_binding_def ext_data_hash_def binding_slices_def keccak_field_def from_fr_def
      sdk_field_bytes_pool SDK_DOMAIN_def BINDING_DOMAIN_def)

text \<open>Both layouts of the public witness are gnark's header and the seven fields.\<close>

definition as_pool_inputs :: "sdk_public_inputs \<Rightarrow> public_inputs" where
  "as_pool_inputs p =
     \<lparr>pi_root = spi_root p, pi_nullifiers = spi_nullifiers p, pi_commitments = spi_commitments p,
      pi_amount = spi_amount p, pi_external_data_hash = spi_hash p\<rparr>"

lemma public_fields_pool: "public_fields p = witness_fields (as_pool_inputs p)"
  by (simp add: public_fields_def witness_fields_def as_pool_inputs_def)

lemma witness_bytes_layout:
  assumes "list_all (\<lambda>f. length f = 32) (public_fields p)"
  shows "witness_bytes p = gnark_header @ concat (public_fields p)"
proof -
  have "length (public_fields p) = 7" by (simp add: public_fields_def)
  moreover have "\<forall>f \<in> set (public_fields p). length f = 32"
    using assms by (simp add: list_all_iff)
  moreover have "copy_at 0 [0, 0, 0, 7, 0, 0, 0, 0, 0, 0, 0, 7] (replicate 236 0) = gnark_header @ replicate 224 (0 :: u8)"
    by (simp add: copy_at_def gnark_header_def)
  ultimately show ?thesis
    by (simp add: witness_bytes_def copy_fields_eq)
qed

lemma witness_bytes_pool:
  assumes "wf_public_inputs (as_pool_inputs p)"
  shows "witness_bytes p = encode (as_pool_inputs p)"
  using assms witness_bytes_layout [of p] encode_layout [OF assms]
  by (simp add: public_fields_pool wf_public_inputs_def)

section \<open>Withdrawals\<close>

lemma uint_small:
  assumes "unat (x :: 64 word) < 2 ^ 63"
  shows "0 \<le> uint x \<and> uint x < 2 ^ 63"
proof -
  have u: "uint x = int (unat x)" by simp
  have "int (unat x) < int (2 ^ 63)" using assms by (simp only: of_nat_less_iff)
  then show ?thesis unfolding u by simp
qed

lemma sint_small:
  assumes "unat (x :: 64 word) < 2 ^ 63"
  shows "sint x = int (unat x)"
proof -
  have "- (2 ^ 63) \<le> uint x \<and> uint x < 2 ^ 63" using uint_small [OF assms] by linarith
  then have "signed_take_bit 63 (uint x) = uint x" by (simp only: signed_take_bit_int_eq_self_iff)
  then show ?thesis by (simp add: sint_uint)
qed

lemma sint_minus_small:
  assumes "unat (x :: 64 word) < 2 ^ 63"
  shows "sint (- x) = - int (unat x)"
proof -
  have "- (2 ^ 63) \<le> - uint x \<and> - uint x < 2 ^ 63" using uint_small [OF assms] by linarith
  then have "signed_take_bit 63 (- uint x) = - uint x" by (simp only: signed_take_bit_int_eq_self_iff)
  then show ?thesis using sint_word_ariths(4) [of x] sint_small [OF assms] by simp
qed

lemma withdrawal_new_eq_Inr:
  "withdrawal_new r a = Inr wd \<longleftrightarrow>
     a \<noteq> 0 \<and> unat a < 2 ^ 63 \<and> wd = \<lparr>wd_recipient = r, wd_amount = a\<rparr>"
  by (auto simp: withdrawal_new_def i64_try_from_def)

lemma withdrawal_flow:
  assumes "withdrawal_new r a = Inr wd"
  shows "withdrawal_amount wd = a" and "sint (withdrawal_public_amount wd) = - int (unat a)"
    and "sint (withdrawal_public_amount wd) < 0"
proof -
  have a: "a \<noteq> 0" "unat a < 2 ^ 63" "wd = \<lparr>wd_recipient = r, wd_amount = a\<rparr>"
    using assms by (auto simp: withdrawal_new_eq_Inr)
  show "withdrawal_amount wd = a"
    using sint_small [OF a(2)] by (simp add: withdrawal_amount_def a(3) unsigned_abs_def)
  show m: "sint (withdrawal_public_amount wd) = - int (unat a)"
    unfolding withdrawal_public_amount_def a(3) by (simp only: withdrawal.simps sint_minus_small [OF a(2)])
  have "0 < unat a" using a(1) by (simp add: unat_gt_0)
  with m show "sint (withdrawal_public_amount wd) < 0" by linarith
qed

end
