(* ===== verification/Sdk_Pool.thy ===== *)
theory Sdk_Pool
  imports Sdk_Solana Pool_Chain
begin

text \<open>
  The client library against the program: the instruction that the client builds, read as
  Anchor reads it, is accepted by the program's model on every chain state in which the
  referenced accounts are in place. Everything that the client decides (addresses, canonical
  encodings, the binding hash, the public witness, note lengths) is discharged here.
\<close>

text \<open>Anchor reads the account list in the order of the fields of \<open>Transact\<close>.\<close>

definition transact_ctx_of :: "account_meta list \<Rightarrow> transact_ctx option" where
  "transact_ctx_of metas =
     (case map am_pubkey metas of
        [pool, tree, vault, mint, n0, n1, recipient_ata, verifier, payer, token, system] \<Rightarrow>
          Some \<lparr>tr_pool = pool, tr_tree = tree, tr_vault = vault, tr_mint = mint,
                tr_nullifier_0_record = n0, tr_nullifier_1_record = n1,
                tr_recipient_ata = recipient_ata, tr_verifier_program = verifier,
                tr_payer = payer, tr_token_program = token, tr_system_program = system,
                tr_signers = map am_pubkey (filter am_signer metas)\<rparr>
      | _ \<Rightarrow> None)"

section \<open>The accounts of the instruction\<close>

lemma sdk_pool_addresses:
  assumes "sdk_pool_new R L pool_program_id verifier mint domain = Inr sp"
  shows "spo_program sp = pool_program_id" and "spo_address sp = pool_address R"
    and "spo_tree sp = tree_address R" and "spo_vault sp = ata_address R (pool_address R) mint"
    and "spo_mint sp = mint" and "spo_verifier sp = verifier" and "spo_domain sp = domain"
    and "sdk_asset L mint = Inr (spo_asset sp)"
  using assms
  by (auto simp: sdk_pool_new_def Let_def pool_address_def tree_address_def pool_seeds_def tree_seeds_def
      SDK_VERSION_SEED_def VERSION_SEED_def)

definition client_ctx :: "runtime \<Rightarrow> pubkey \<Rightarrow> pubkey \<Rightarrow> pubkey \<Rightarrow> bytes pair \<Rightarrow> pubkey \<Rightarrow> transact_ctx" where
  "client_ctx R verifier mint recipient_ata ns payer =
     \<lparr>tr_pool = pool_address R, tr_tree = tree_address R,
      tr_vault = ata_address R (pool_address R) mint, tr_mint = mint,
      tr_nullifier_0_record = nullifier_address R (fst ns),
      tr_nullifier_1_record = nullifier_address R (snd ns),
      tr_recipient_ata = recipient_ata, tr_verifier_program = verifier, tr_payer = payer,
      tr_token_program = token_program_id R, tr_system_program = SYSTEM_PROGRAM,
      tr_signers = [payer]\<rparr>"

definition client_recipient_ata :: "runtime \<Rightarrow> pubkey \<Rightarrow> pubkey \<Rightarrow> i64 \<Rightarrow> pubkey" where
  "client_recipient_ata R mint recipient amount =
     (if sint amount < 0 then ata_address R recipient mint else ata_address R (pool_address R) mint)"

lemma sdk_transact_eq_Inr:
  assumes "sdk_transact R L borsh sp proof ext amount payer = Inr ins"
    and "sdk_pool_new R L pool_program_id verifier mint domain = Inr sp"
  shows "sdk_binding L sp ext amount = Inr (spi_hash (pr_public proof))"
    and "spi_amount (pr_public proof) = from_signed L amount"
    and "\<exists>encoded. borsh (instruction_args proof ext amount) = Some encoded \<and>
          si_data ins = transact_discriminator L @ encoded"
    and "si_program ins = pool_program_id"
    and "transact_ctx_of (si_accounts ins) =
      Some (client_ctx R verifier mint (client_recipient_ata R mint (ex_recipient ext) amount)
        (spi_nullifiers (pr_public proof)) payer)"
  using assms(1) sdk_pool_addresses [OF assms(2)]
  by (auto simp: sdk_transact_def Let_def transact_ctx_of_def client_ctx_def client_recipient_ata_def
      meta_new_def meta_readonly_def nullifier_address_def nullifier_seeds_def split: if_splits)

section \<open>Acceptance\<close>

text \<open>
  The chain state in which a client's instruction is accepted: the pool, tree, vault, mint and
  recipient accounts are in place, the three programs are executable, the nullifiers are unspent,
  and two leaves are free.
\<close>

definition chain_ready ::
    "runtime \<Rightarrow> (bytes \<Rightarrow> bytes list option) \<Rightarrow> bytes list \<Rightarrow> transact_loaded \<Rightarrow> transact_ctx \<Rightarrow> accounts \<Rightarrow> bool" where
  "chain_ready R lv ls l c accs \<longleftrightarrow>
     accs (pool_address R) = Some (PoolAccount (tl_pool l)) \<and>
     pool_seeds_ok R (pool_address R) (tl_pool l) \<and>
     accs (tree_address R) = Some (TreeAccount (tl_tree l)) \<and>
     tree_leaves lv (tl_tree l) = Some ls \<and> length ls + 2 \<le> 2 ^ TREE_HEIGHT \<and>
     accs (tr_vault c) = Some (TokenAccount (tl_vault l)) \<and> ta_owner (tl_vault l) = pool_address R \<and>
     accs (tr_mint c) = Some (MintAccount (tl_mint l)) \<and>
     accs (tr_recipient_ata c) = Some (TokenAccount (tl_recipient l)) \<and>
     ta_mint (tl_recipient l) = tr_mint c \<and>
     executable accs (tr_verifier_program c) \<and> executable accs (token_program_id R) \<and>
     executable accs (system_program_id R) \<and>
     accs (tr_nullifier_0_record c) = None \<and> accs (tr_nullifier_1_record c) = None \<and>
     tr_nullifier_0_record c \<noteq> tr_nullifier_1_record c \<and> records_creatable R c accs"

lemma spend_ok_nullifier:
  assumes "fr_spec L" "poseidon_spec L" "spend_ok L sp n r"
  shows "is_scalar n" and "n \<noteq> replicate 32 0"
  using assms by (auto simp: spend_ok_def sdk_nullifier_def field_zero_def sdk_poseidon_scalar)

lemma output_ok_scalar:
  "fr_spec L \<Longrightarrow> poseidon_spec L \<Longrightarrow> output_ok L asset s key c \<Longrightarrow> is_scalar c"
  by (auto simp: output_ok_def commitment_from_key_def sdk_poseidon_scalar)

lemma merkle_climb_scalar:
  assumes "fr_spec L" "poseidon_spec L"
  shows "merkle_climb L level node i ss = Inr r \<Longrightarrow> is_scalar node \<Longrightarrow> is_scalar r"
proof (induction ss arbitrary: level node)
  case (Cons s ss)
  then show ?case by (auto split: if_splits dest: sdk_poseidon_scalar [OF assms])
qed simp

lemma values_scalars:
  assumes "fr_spec L" "poseidon_spec L" "values_ok L p public v"
  shows "is_scalar (spi_root (pv_public v))"
    and "both is_scalar (spi_nullifiers (pv_public v))"
    and "both is_scalar (spi_commitments (pv_public v))"
    and "both (\<lambda>n. n \<noteq> replicate 32 0) (spi_nullifiers (pv_public v))"
proof -
  have real: "real_root L sp r \<Longrightarrow> pn_value (sp_note sp) \<noteq> 0 \<Longrightarrow> is_scalar r" for sp r
    by (auto simp: real_root_def merkle_root_def sdk_commitment_def commitment_from_key_def
        dest!: merkle_climb_scalar [OF assms(1,2)] sdk_poseidon_scalar [OF assms(1,2)] split: sum.splits)
  show "is_scalar (spi_root (pv_public v))"
    using assms(3) real by (fastforce simp: values_ok_def Let_def spend_ok_def)
  show "both is_scalar (spi_nullifiers (pv_public v))"
    and "both (\<lambda>n. n \<noteq> replicate 32 0) (spi_nullifiers (pv_public v))"
    using assms(3) spend_ok_nullifier [OF assms(1,2)] unfolding values_ok_def both_def Let_def by blast+
  show "both is_scalar (spi_commitments (pv_public v))"
    using assms(3) output_ok_scalar [OF assms(1,2)] unfolding values_ok_def both_def Let_def by blast
qed

lemma client_canonical_scalar: "fr_spec L \<Longrightarrow> is_scalar bs \<Longrightarrow> is_canonical_field L bs"
  using is_canonical_field_iff [of L bs] by (simp add: is_scalar_def)

lemma external_new_eq_Inr:
  "external_new p r = Inr ext \<longleftrightarrow>
     ext = \<lparr>ex_recipient = r, ex_encrypted = plan_encrypted p\<rparr> \<and>
     both (\<lambda>note. length note \<le> 128) (plan_encrypted p)"
  by (auto simp: external_new_def Let_def both_def SDK_MAX_ENCRYPTED_NOTE_LEN_def)

text \<open>The arguments of a client's instruction pass every check of the program.\<close>

lemma client_arguments_ok:
  assumes "fr_spec L" "poseidon_spec L"
    and v: "plan_values_of L p public = Inr v" "pr_public proof = pv_public v"
    and ext: "external_new p recipient = Inr ext"
    and "length (pr_bytes proof) = 388" "sint amount \<le> 0"
    and "sint amount < 0 \<Longrightarrow> tr_recipient_ata c \<noteq> tr_vault c"
  shows "arguments_ok L c (instruction_args proof ext amount)"
proof -
  have ok: "values_ok L p public v" using v(1) by (simp add: plan_values_of_iff)
  note sc = values_scalars [OF assms(1,2) ok]
  have "fst (spi_nullifiers (pv_public v)) \<noteq> snd (spi_nullifiers (pv_public v))"
    using ok by (simp add: values_ok_def Let_def)
  then show ?thesis
    using sc assms(6-) ext v(2) client_canonical_scalar [OF assms(1)]
    by (auto simp: arguments_ok_def instruction_args_def both_def PROOF_BYTES_def MAX_ENCRYPTED_NOTE_LEN_def
        external_new_eq_Inr)
qed

text \<open>The program assembles the public inputs that the client proved.\<close>

lemma client_public_inputs:
  assumes "fr_spec L" "spi_amount (pr_public proof) = from_signed L amount"
  shows "assembled_inputs L (instruction_args proof ext amount) (spi_hash (pr_public proof)) =
    as_pool_inputs (pr_public proof)"
  using assms(2) from_signed_pool [OF assms(1), of amount]
  by (simp add: assembled_inputs_def new_public_inputs_def instruction_args_def as_pool_inputs_def)

lemma client_proof_accepted:
  assumes spec: "fr_spec L"
    and pool: "sdk_pool_new R L pool_program_id verifier mint domain = Inr sp"
    and ins: "sdk_transact R L borsh sp proof ext amount payer = Inr ins"
    and match: "pool_verifier (tl_pool l) = verifier" "asset_mint (pool_asset (tl_pool l)) = mint"
      "pool_domain (tl_pool l) = domain" "tr_pool c = pool_address R"
    and wf: "wf_public_inputs (as_pool_inputs (pr_public proof))"
    and inv: "cpi_invoke R verifier (pr_bytes proof @ witness_bytes (pr_public proof))"
  shows "proof_accepted R L c l (instruction_args proof ext amount)"
proof -
  note at = sdk_pool_addresses [OF pool] and it = sdk_transact_eq_Inr [OF ins pool]
  have "ext_data_hash L (tx_ext_data (instruction_args proof ext amount)) domain (pool_address R) mint
      verifier amount = Inr (spi_hash (pr_public proof))"
    using it(1) at by (simp add: sdk_binding_pool [OF spec at(1)] instruction_args_def)
  moreover have "encode (assembled_inputs L (instruction_args proof ext amount) (spi_hash (pr_public proof))) =
      witness_bytes (pr_public proof)"
    by (simp add: client_public_inputs [OF spec it(2)] witness_bytes_pool [OF wf])
  ultimately show ?thesis
    using inv match unfolding proof_accepted_def by (simp add: instruction_args_def)
qed

lemma hash_scalar: "fr_spec L \<Longrightarrow> sdk_binding L sp ext amount = Inr h \<Longrightarrow> is_scalar h"
  by (auto simp: sdk_binding_def Let_def from_fr_def sdk_field_bytes_eq fr_to_be_scalar)

lemma client_wf_inputs:
  assumes "fr_spec L" "poseidon_spec L" "values_ok L p public v" "is_scalar (spi_hash (pv_public v))"
  shows "wf_public_inputs (as_pool_inputs (pv_public v))"
proof -
  have "is_scalar (spi_amount (pv_public v))"
    using assms(3) sdk_amount.enc_is_scalar [OF assms(1)] by (simp add: values_ok_def Let_def)
  then show ?thesis
    using values_scalars(1-3) [OF assms(1-3)] assms(4)
    by (simp add: wf_public_inputs_def witness_fields_def as_pool_inputs_def both_def is_scalar_length)
qed

text \<open>Everything together: what the client decides is what the program checks.\<close>

lemma client_accepted:
  assumes "spl_spec R" "light_spec R H TREE_HEIGHT lv" "fr_spec L" "poseidon_spec L"
    and "system_program_id R = SYSTEM_PROGRAM"
    and pool: "sdk_pool_new R L pool_program_id verifier mint domain = Inr sp"
    and vals: "plan_values_of L p public = Inr v" "pr_public proof = pv_public v"
    and ext: "external_new p recipient = Inr ext"
    and ins: "sdk_transact R L borsh sp proof ext amount payer = Inr ins"
      "transact_ctx_of (si_accounts ins) = Some c"
    and proven: "length (pr_bytes proof) = 388"
      "cpi_invoke R verifier (pr_bytes proof @ witness_bytes (pr_public proof))"
    and amount: "sint amount \<le> 0" "sint amount < 0 \<Longrightarrow> tr_recipient_ata c \<noteq> tr_vault c"
    and state: "chain_ready R lv ls l c (accts w)" "payable c l (instruction_args proof ext amount) (accts w)"
      "pool_verifier (tl_pool l) = verifier" "asset_mint (pool_asset (tl_pool l)) = mint"
      "pool_domain (tl_pool l) = domain"
    and root: "spi_root (pr_public proof) \<in> set (recent_roots H TREE_HEIGHT ROOTS_SIZE ls)"
      "spi_root (pr_public proof) \<noteq> replicate 32 0"
  shows "\<exists>w'. transact R L c (instruction_args proof ext amount) w = Inr w'"
proof (rule transact_succeeds [OF assms(1-3)])
  note it = sdk_transact_eq_Inr [OF ins(1) pool]
  have c: "c = client_ctx R verifier mint (client_recipient_ata R mint (ex_recipient ext) amount)
      (spi_nullifiers (pr_public proof)) payer"
    using it(5) ins(2) by simp
  have ok: "values_ok L p public v" using vals(1) by (simp add: plan_values_of_iff)
  have wf: "wf_public_inputs (as_pool_inputs (pr_public proof))"
    using client_wf_inputs [OF assms(3,4) ok] hash_scalar [OF assms(3) it(1)] vals(2) by simp
  have accounts: "transact_accounts_ok R c (accts w) l"
    using state assms(5) unfolding transact_accounts_ok_def chain_ready_def
    by (simp add: c client_ctx_def tree_seeds_ok_def tree_address_def)
  have fresh: "nullifiers_fresh R c (tx_nullifiers (instruction_args proof ext amount)) (accts w)"
    using state(1) unfolding nullifiers_fresh_def chain_ready_def
    by (simp add: c client_ctx_def instruction_args_def nullifier_address_def)
  have args: "arguments_ok L c (instruction_args proof ext amount)"
    by (rule client_arguments_ok [OF assms(3,4) vals ext proven(1) amount])
  have "proof_accepted R L c l (instruction_args proof ext amount)"
    using client_proof_accepted [OF assms(3) pool ins(1) state(3-5) _ wf proven(2)]
    by (simp add: c client_ctx_def)
  with accounts fresh args state root show "transact_enabled R L H lv c (instruction_args proof ext amount) (accts w)"
    unfolding transact_enabled_def chain_ready_def by (auto simp: instruction_args_def)
qed

end
