(* ===== verification/Sdk_Reference.thy ===== *)
theory Sdk_Reference
  imports Sdk_Pool Pool_Reference
begin

text \<open>
  A concrete client transaction on the reference crates: an owner spends a note of 1000 with a
  dummy beside it, sends 700 and withdraws 300. The theorems about the client library are
  applied to it. Every hash is computed; \<open>addr k\<close> is the field element of the number \<open>k\<close>.
\<close>

section \<open>Evaluating the reference hash\<close>

lemma ref_sdk_poseidon:
  assumes "ns \<noteq> []" "length ns \<le> 12" "list_all (\<lambda>n. n < bn254_r) ns"
  shows "sdk_poseidon ref_crypto (map addr ns) =
    Inr (addr (1 + foldl (\<lambda>a n. (a * 31 + n) mod (bn254_r - 1)) 7 ns))"
proof -
  have val: "be_val (addr n) = n" if "n < bn254_r" for n
    unfolding addr_def using that by (rule be_val_scalar)
  have "foldl (\<lambda>a v. (a * 31 + be_val v) mod (bn254_r - 1)) a (map addr ns) =
      foldl (\<lambda>a n. (a * 31 + n) mod (bn254_r - 1)) a ns" for a
    using assms(3) by (induction ns arbitrary: a) (simp_all add: val del: be_val_addr)
  moreover have "list_all is_scalar (map addr ns)"
    using assms(3) by (auto simp: list_all_iff addr_scalar)
  ultimately show ?thesis
    using assms(1,2) sdk_poseidon_eq_Inr [OF ref_fr_spec ref_poseidon_spec]
    by (simp add: ref_poseidon_def addr_def)
qed

lemma u64_be32_addr: "u64_be32 v = addr (unat v)"
  by (simp add: u64_be32_be_bytes addr_def)

lemma field_of_u64_addr: "field_of_u64 ref_crypto v = addr (unat v)"
  by (simp add: field_of_u64_bytes [OF ref_fr_spec] u64_be32_addr)

lemma ref_domains:
  "SPEND_KEY_DOMAIN = addr 1" "NULLIFIER_KEY_DOMAIN = addr 2" "OWNER_DOMAIN = addr 3"
  "NOTE_KEY_DOMAIN = addr 4" "SDK_NOTE_DOMAIN = addr 5" "NULLIFIER_DOMAIN = addr 6"
  "SDK_ASSET_DOMAIN = addr 7"
  by (simp_all add: domain_defs from_raw_u64_eq u64_be32_addr)

lemma ref_hash2: "a < bn254_r \<Longrightarrow> b < bn254_r \<Longrightarrow> sdk_poseidon ref_crypto [addr a, addr b] =
    Inr (addr (1 + ((7 * 31 + a) mod (bn254_r - 1) * 31 + b) mod (bn254_r - 1)))"
  using ref_sdk_poseidon [of "[a, b]"] by simp

lemma ref_hash3: "a < bn254_r \<Longrightarrow> b < bn254_r \<Longrightarrow> c < bn254_r \<Longrightarrow>
    sdk_poseidon ref_crypto [addr a, addr b, addr c] =
    Inr (addr (1 + (((7 * 31 + a) mod (bn254_r - 1) * 31 + b) mod (bn254_r - 1) * 31 + c) mod (bn254_r - 1)))"
  using ref_sdk_poseidon [of "[a, b, c]"] by simp

lemma ref_hash4: "a < bn254_r \<Longrightarrow> b < bn254_r \<Longrightarrow> c < bn254_r \<Longrightarrow> d < bn254_r \<Longrightarrow>
    sdk_poseidon ref_crypto [addr a, addr b, addr c, addr d] =
    Inr (addr (1 + ((((7 * 31 + a) mod (bn254_r - 1) * 31 + b) mod (bn254_r - 1) * 31 + c)
      mod (bn254_r - 1) * 31 + d) mod (bn254_r - 1)))"
  using ref_sdk_poseidon [of "[a, b, c, d]"] by simp

lemmas ref_hashes = ref_hash2 ref_hash3 ref_hash4

section \<open>The transaction\<close>

definition demo_owner :: owner where
  "demo_owner = \<lparr>own_spend = Secret (addr 11001), own_view = Secret (addr 11002)\<rparr>"

definition demo_note :: priv_note where
  "demo_note = \<lparr>pn_value = 1000, pn_asset = addr 215266, pn_random = Secret (addr 11003)\<rparr>"

definition demo_dummy_owner :: owner where
  "demo_dummy_owner = \<lparr>own_spend = Secret (addr 11004), own_view = Secret (addr 11005)\<rparr>"

definition demo_leaf :: field where "demo_leaf = addr 23458178277"

definition demo_spend :: spend where
  "demo_spend =
     \<lparr>sp_note = demo_note, sp_owner = demo_owner,
      sp_merkle = \<lparr>mp_index = 0, mp_siblings = auth_path ref_node 20 [demo_leaf] 0\<rparr>\<rparr>"

definition demo_dummy :: spend where
  "demo_dummy =
     \<lparr>sp_note = \<lparr>pn_value = 0, pn_asset = addr 215266, pn_random = Secret (addr 11006)\<rparr>,
      sp_owner = demo_dummy_owner,
      sp_merkle = \<lparr>mp_index = 7, mp_siblings = replicate 20 (addr 1)\<rparr>\<rparr>"

definition demo_send :: send where
  "demo_send = \<lparr>sd_owner = addr 12001, sd_value = 700, sd_random = Secret (addr 12002), sd_encrypted = [7]\<rparr>"

definition demo_dummy_send :: send where
  "demo_dummy_send = \<lparr>sd_owner = addr 12003, sd_value = 0, sd_random = Secret (addr 12004), sd_encrypted = [8]\<rparr>"

definition demo_plan :: plan where
  "demo_plan = \<lparr>p_spends = (demo_spend, demo_dummy), p_sends = (demo_send, demo_dummy_send),
      p_asset = addr 215266\<rparr>"

definition demo_flow :: public_flow where
  "demo_flow = \<lparr>pf_amount = - 300, pf_hash = addr 999\<rparr>"

lemmas sdk_demo_defs = demo_owner_def demo_note_def demo_dummy_owner_def demo_spend_def demo_dummy_def
  demo_send_def demo_dummy_send_def demo_plan_def

lemma demo_sdk_asset: "sdk_asset ref_crypto (addr 1) = Inr (addr 215266)"
proof -
  have h: "copy_at 16 (take 16 (addr 1)) (replicate 32 0) = addr 0"
    "copy_at 16 (drop 16 (addr 1)) (replicate 32 0) = addr 1"
  proof -
    have a: "addr 1 = replicate 16 0 @ be_bytes 16 1"
      using be_bytes_pad [of 1 16 16] by (simp add: addr_def)
    have z: "replicate 32 (0 :: u8) = replicate 16 0 @ replicate 16 0"
      by (simp flip: replicate_add)
    show "copy_at 16 (take 16 (addr 1)) (replicate 32 0) = addr 0"
      unfolding a by (simp add: copy_at_def addr_def z)
    show "copy_at 16 (drop 16 (addr 1)) (replicate 32 0) = addr 1"
      unfolding a by (simp add: copy_at_def)
  qed
  show ?thesis
    unfolding sdk_asset_def Let_def h
    by (simp add: field_from_bytes_iff [OF ref_fr_spec, THEN iffD2] addr_scalar ref_domains ref_hashes bn254_r_def)
qed

lemma demo_leaf: "sdk_commitment ref_crypto demo_note demo_owner = Inr demo_leaf" "is_scalar demo_leaf"
  by (simp_all add: sdk_commitment_def note_public_key_def owner_public_def nullifier_key_def note_key_def
      commitment_from_key_def field_of_u64_addr expose_def demo_note_def demo_owner_def ref_domains
      ref_hashes bn254_r_def demo_leaf_def addr_scalar)

lemma demo_nullifiers:
  "sdk_nullifier ref_crypto demo_owner 0 = Inr (addr 765856)"
  "sdk_nullifier ref_crypto demo_dummy_owner 7 = Inr (addr 765956)"
  by (simp_all add: sdk_nullifier_def nullifier_key_def demo_owner_def demo_dummy_owner_def expose_def
      field_of_u64_addr ref_domains ref_hashes bn254_r_def)

lemma demo_outputs:
  "output_ok ref_crypto (addr 215266) demo_send (addr 596415) (addr 586442364)"
  "output_ok ref_crypto (addr 215266) demo_dummy_send (addr 596479) (addr 586503168)"
  by (simp_all add: output_ok_def send_public_key_def note_key_def commitment_from_key_def demo_send_def
      demo_dummy_send_def expose_def field_of_u64_addr ref_domains ref_hashes bn254_r_def)

section \<open>Its public values\<close>

definition demo_sdk_root :: field where "demo_sdk_root = mroot ref_node TREE_HEIGHT [demo_leaf]"

definition demo_values :: "field \<Rightarrow> plan_values" where
  "demo_values h =
     \<lparr>pv_public = \<lparr>spi_root = demo_sdk_root, spi_nullifiers = (addr 765856, addr 765956),
                   spi_commitments = (addr 586442364, addr 586503168),
                   spi_amount = from_signed ref_crypto (- 300), spi_hash = h\<rparr>,
      pv_output_keys = (addr 596415, addr 596479)\<rparr>"

lemma demo_climb: "merkle_root ref_crypto demo_leaf 0 (auth_path ref_node 20 [demo_leaf] 0) = Inr demo_sdk_root"
proof -
  have "list_all is_scalar (auth_path ref_node 20 [demo_leaf] 0)"
    unfolding ref_node_def by (rule auth_path_scalar [OF ref_poseidon_spec]) (simp add: demo_leaf(2))
  from merkle_root_eq [OF ref_fr_spec ref_poseidon_spec demo_leaf(2) this, of 0]
  have "merkle_root ref_crypto demo_leaf 0 (auth_path ref_node 20 [demo_leaf] 0) =
      Inr (climb ref_node demo_leaf 0 (auth_path ref_node 20 [demo_leaf] 0))"
    by (simp add: ref_node_def)
  moreover have "climb ref_node demo_leaf 0 (auth_path ref_node 20 [demo_leaf] 0) = demo_sdk_root"
    using climb_auth_path [of 0 "[demo_leaf]" 20 ref_node] by (simp add: demo_sdk_root_def TREE_HEIGHT_def)
  ultimately show ?thesis by simp
qed

lemma demo_values_ok:
  "plan_values_of ref_crypto demo_plan \<lparr>pf_amount = - 300, pf_hash = h\<rparr> = Inr (demo_values h)"
  unfolding plan_values_of_iff
  using demo_outputs demo_climb demo_leaf(1) demo_nullifiers
  by (simp add: values_ok_def demo_values_def demo_plan_def spend_ok_def real_root_def demo_spend_def
      demo_dummy_def field_zero_def addr_zero_iff plan_conserves_def value_of_spend_def value_of_send_def
      demo_send_def demo_dummy_send_def) (simp add: demo_note_def)

section \<open>Its instruction and the chain it runs on\<close>

definition demo_sdk_pool :: sdk_pool where
  "demo_sdk_pool =
     \<lparr>spo_program = pool_program_id, spo_verifier = addr 6, spo_mint = addr 1, spo_domain = demo_domain,
      spo_address = addr 123623913059898, spo_tree = addr 123623913059934, spo_vault = addr 123623913060899, spo_asset = addr 215266\<rparr>"

definition demo_external :: external where
  "demo_external = \<lparr>ex_recipient = addr 4, ex_encrypted = ([7], [8])\<rparr>"

definition demo_hash :: field where
  "demo_hash = projr (sdk_binding ref_crypto demo_sdk_pool demo_external (- 300))"

definition demo_proof :: sdk_proof where
  "demo_proof = \<lparr>pr_bytes = 1 # replicate 387 0, pr_public = pv_public (demo_values demo_hash), pr_artifact = ''v4''\<rparr>"

definition demo_instruction :: sdk_instruction where
  "demo_instruction = projr (sdk_transact ref_runtime ref_crypto (\<lambda>a. Some (tx_proof a)) demo_sdk_pool
     demo_proof demo_external (- 300) (addr 2))"

definition demo_client_ctx :: transact_ctx where
  "demo_client_ctx = client_ctx ref_runtime (addr 6) (addr 1) (addr 1005) (addr 765856, addr 765956) (addr 2)"

definition demo_sdk_world :: world where
  "demo_sdk_world = demo_w2\<lparr>accts := (accts demo_w2)(
     addr 123623913059934 \<mapsto> TreeAccount (replicate 8 0 @ demo_leaf),
     addr 1005 \<mapsto> TokenAccount \<lparr>ta_mint = addr 1, ta_owner = addr 4, ta_amount = 0, ta_frozen = False\<rparr>)\<rparr>"

definition demo_sdk_loaded :: transact_loaded where
  "demo_sdk_loaded = demo_loaded\<lparr>tl_tree := replicate 8 0 @ demo_leaf\<rparr>"

lemma demo_sdk_pool:
  "sdk_pool_new ref_runtime ref_crypto pool_program_id (addr 6) (addr 1) demo_domain = Inr demo_sdk_pool"
proof -
  have "[ascii ''pool'', SDK_VERSION_SEED] = pool_seeds" "\<And>a. [ascii ''tree'', a] = tree_seeds a"
    by (simp_all add: pool_seeds_def tree_seeds_def SDK_VERSION_SEED_def VERSION_SEED_def)
  then show ?thesis
    by (simp add: sdk_pool_new_def demo_sdk_asset demo_sdk_pool_def ref_addresses del: One_nat_def)
qed

lemma demo_external_ok: "external_new demo_plan (addr 4) = Inr demo_external"
  by (simp add: external_new_eq_Inr demo_external_def plan_encrypted_def demo_plan_def demo_send_def
      demo_dummy_send_def both_def)

lemma demo_hash_ok: "sdk_binding ref_crypto demo_sdk_pool demo_external (- 300) = Inr demo_hash"
  by (simp add: demo_hash_def sdk_binding_def demo_external_def u32_try_from_def)

lemma demo_instruction_ok:
  "sdk_transact ref_runtime ref_crypto (\<lambda>a. Some (tx_proof a)) demo_sdk_pool demo_proof demo_external
     (- 300) (addr 2) = Inr demo_instruction"
  by (simp add: demo_instruction_def sdk_transact_def demo_hash_ok demo_proof_def demo_values_def)

lemma demo_client_ctx:
  "transact_ctx_of (si_accounts demo_instruction) = Some demo_client_ctx"
  using sdk_transact_eq_Inr(5) [OF demo_instruction_ok demo_sdk_pool]
  by (simp add: demo_client_ctx_def client_recipient_ata_def demo_external_def demo_proof_def demo_values_def)

lemma ref_client_nullifiers:
  "nullifier_address ref_runtime (addr 765856) = addr 765929"
  "nullifier_address ref_runtime (addr 765956) = addr 766029"
  unfolding nullifier_address_def ref_pool_address
  by (simp_all add: nullifier_seeds_def ref_derive_def ascii_def be_val_append)

lemma demo_sdk_tree: "tree_leaves ref_leaves (replicate 8 0 @ demo_leaf) = Some [demo_leaf]"
proof -
  have l: "length demo_leaf = 32" using demo_leaf(2) by (rule is_scalar_length)
  then have "chunks32 demo_leaf = [demo_leaf]"
    using chunks32_append [of "[]" demo_leaf] by simp
  with l show ?thesis
    by (simp add: tree_leaves_def ref_leaves_def DISCRIMINATOR_def TREE_HEIGHT_def)
qed

lemma demo_chain_ready:
  "chain_ready ref_runtime ref_leaves [demo_leaf] demo_sdk_loaded demo_client_ctx (accts demo_sdk_world)"
proof -
  have "length [demo_leaf] + 2 \<le> 2 ^ TREE_HEIGHT" by (simp add: TREE_HEIGHT_def)
  then show ?thesis
    using demo_sdk_tree
    by (simp add: chain_ready_def demo_client_ctx_def client_ctx_def demo_sdk_world_def demo_sdk_loaded_def
        demo_loaded_def demo_pool_def ref_pool_address ref_tree_address ref_client_nullifiers demo_w2 demo_w1
        demo_world_def pool_program_id_addr executable_iff pool_seeds_ok_def ref_addresses records_creatable_def)
qed

lemma demo_client_payable:
  "payable demo_client_ctx demo_sdk_loaded (instruction_args demo_proof demo_external (- 300)) (accts demo_sdk_world)"
  by (simp add: payable_def transfer_conditions_def instruction_args_def demo_external_def demo_client_ctx_def
      client_ctx_def demo_sdk_world_def demo_sdk_loaded_def demo_loaded_def ref_pool_address demo_w2 demo_w1
      demo_world_def pool_program_id_addr unsigned_abs_neg_300)

lemma demo_root_known:
  "spi_root (pr_public demo_proof) \<in> set (recent_roots ref_node TREE_HEIGHT ROOTS_SIZE [demo_leaf])"
  "spi_root (pr_public demo_proof) \<noteq> replicate 32 0"
proof -
  show "spi_root (pr_public demo_proof) \<in> set (recent_roots ref_node TREE_HEIGHT ROOTS_SIZE [demo_leaf])"
    by (auto simp: recent_roots_iff demo_proof_def demo_values_def demo_sdk_root_def ROOTS_SIZE_def
        intro!: exI [of _ 1])
  show "spi_root (pr_public demo_proof) \<noteq> replicate 32 0"
    using ref_root(2) [OF demo_leaf(2)] by (simp add: demo_proof_def demo_values_def demo_sdk_root_def)
qed

lemma demo_public_wf: "wf_public_inputs (as_pool_inputs (pr_public demo_proof))"
  using client_wf_inputs [OF ref_fr_spec ref_poseidon_spec demo_values_ok [of demo_hash, unfolded plan_values_of_iff]]
    hash_scalar [OF ref_fr_spec demo_hash_ok]
  by (simp add: demo_proof_def demo_values_def)

lemma demo_witness_length: "length (witness_bytes (pr_public demo_proof)) = 236"
  using witness_bytes_pool [OF demo_public_wf] length_encode [OF demo_public_wf] by simp

lemma demo_verified: "cpi_invoke ref_runtime (addr 6) (pr_bytes demo_proof @ witness_bytes (pr_public demo_proof))"
  using demo_witness_length by (simp add: demo_proof_def)

section \<open>Its randomness\<close>

text \<open>
  A generator that delivers prepared draws, and the draws from which the plan above results: a
  dummy input (index 7, its siblings, note randomness and keys), a dummy output, no swaps.
\<close>

definition queue_fill :: "bytes list fill" where
  "queue_fill n g = (case g of [] \<Rightarrow> None | b # bs \<Rightarrow> if length b = n then Some (b, bs) else None)"

lemma queue_fill_spec: "fill_spec queue_fill"
  by (auto simp: fill_spec_def queue_fill_def split: list.splits if_splits)

definition demo_draws :: "bytes list" where
  "demo_draws = [0, 0, 0, 7] # replicate 20 (addr 1) @
     [addr 11006, addr 11004, addr 11005, [8], addr 12003, addr 12004, [0], [0]]"

definition demo_transaction :: transaction where
  "demo_transaction = \<lparr>t_spends = [demo_spend], t_sends = [demo_send]\<rparr>"

lemma demo_transaction_ok: "transaction_new [demo_spend] [demo_send] = Inr demo_transaction"
  by (simp add: transaction_new_def demo_transaction_def SLOTS_def demo_spend_def demo_note_def)

lemma queue_field_random:
  "0 < k \<Longrightarrow> k < bn254_r \<Longrightarrow> field_random ref_crypto queue_fill (addr k # g) = Some (Inr (addr k, g))"
  using bn254_r_bounds two_254_le
  by (subst field_random_unfold [OF ref_fr_spec])
    (simp add: queue_fill_def good_draw_def addr_scalar field_zero_def addr_zero_iff bn254_r_def)

lemma queue_secret_random:
  "0 < k \<Longrightarrow> k < bn254_r \<Longrightarrow>
   secret_random_with ref_crypto queue_fill (addr k # g) = Some (Inr (Secret (addr k), g))"
  by (simp add: secret_random_with_def bindR_def returnR_def queue_field_random)

lemma queue_siblings:
  "repeatR n (field_random ref_crypto queue_fill) (replicate n (addr 1) @ g) =
   Some (Inr (replicate n (addr 1), g))"
proof (induction n)
  case (Suc n)
  have "field_random ref_crypto queue_fill (addr 1 # replicate n (addr 1) @ g) =
      Some (Inr (addr 1, replicate n (addr 1) @ g))"
    by (rule queue_field_random) (simp_all add: bn254_r_def)
  with Suc show ?case by (simp add: bindR_def returnR_def)
qed (simp add: returnR_def)

lemma demo_index: "u32_from_be [0, 0, 0, 7] AND (push_bit TREE_DEPTH 1 - 1) = 7"
  by (simp add: u32_from_be_def TREE_DEPTH_def)

lemma demo_dummy_drawn:
  "dummy_spend ref_crypto queue_fill (pn_asset demo_note) demo_draws =
   Some (Inr (demo_dummy, [[8], addr 12003, addr 12004, [0], [0]]))"
proof -
  let ?rest = "[[8], addr 12003, addr 12004, [0], [0]]"
  have draw: "drawR queue_fill 4 demo_draws = Some (Inr ([0, 0, 0, 7], tl demo_draws))"
    by (simp add: drawR_def queue_fill_def demo_draws_def)
  have sib: "repeatR TREE_DEPTH (field_random ref_crypto queue_fill) (tl demo_draws) =
      Some (Inr (replicate 20 (addr 1), addr 11006 # addr 11004 # addr 11005 # ?rest))"
    using queue_siblings [of 20] by (simp add: demo_draws_def TREE_DEPTH_def)
  have sec: "secret_random_with ref_crypto queue_fill (addr 11006 # g) = Some (Inr (Secret (addr 11006), g))"
    "secret_random_with ref_crypto queue_fill (addr 11004 # g) = Some (Inr (Secret (addr 11004), g))"
    "secret_random_with ref_crypto queue_fill (addr 11005 # g) = Some (Inr (Secret (addr 11005), g))" for g
    by (simp_all add: queue_secret_random bn254_r_def)
  have "dummy_attempt ref_crypto queue_fill (pn_asset demo_note) demo_draws = Some (Inr (demo_dummy, ?rest))"
    unfolding dummy_attempt_def bindR_step [of "drawR queue_fill 4", OF draw] Let_def demo_index
      bindR_step [of "repeatR TREE_DEPTH (field_random ref_crypto queue_fill)", OF sib]
      bindR_step [of "secret_random_with ref_crypto queue_fill", OF sec(1)]
      bindR_step [of "secret_random_with ref_crypto queue_fill", OF sec(2)]
      bindR_step [of "secret_random_with ref_crypto queue_fill", OF sec(3)]
    by (simp add: returnR_def demo_dummy_def demo_dummy_owner_def demo_note_def)
  then show ?thesis
    using demo_nullifiers(2)
    by (subst dummy_spend.simps) (simp add: demo_dummy_def field_zero_def addr_zero_iff)
qed

lemma demo_dummy_send_drawn:
  "send_dummy ref_crypto queue_fill 1 [[8], addr 12003, addr 12004, [0], [0]] =
   Some (Inr (demo_dummy_send, [[0], [0]]))"
proof -
  have draw: "drawR queue_fill 1 [[8], addr 12003, addr 12004, [0], [0]] =
      Some (Inr ([8], [addr 12003, addr 12004, [0], [0]]))"
    by (simp add: drawR_def queue_fill_def)
  have fr: "field_random ref_crypto queue_fill (addr 12003 # g) = Some (Inr (addr 12003, g))"
    and sec: "secret_random_with ref_crypto queue_fill (addr 12004 # g) = Some (Inr (Secret (addr 12004), g))" for g
    by (simp_all add: queue_field_random queue_secret_random bn254_r_def)
  show ?thesis
    unfolding send_dummy_def bindR_step [of "drawR queue_fill 1", OF draw]
      bindR_step [of "field_random ref_crypto queue_fill", OF fr]
      bindR_step [of "secret_random_with ref_crypto queue_fill", OF sec]
    by (simp add: returnR_def demo_dummy_send_def)
qed

lemma no_swap: "shuffle_pair queue_fill xs ([0] # g) = Some (Inr (xs, g))"
  by (simp add: shuffle_pair_def bindR_def drawR_def queue_fill_def returnR_def)

lemma demo_plan_drawn:
  "plan_of ref_crypto queue_fill demo_transaction (pn_asset demo_note) demo_draws = Some (Inr (demo_plan, []))"
proof -
  have pad1: "pad_slots (SLOTS - length (t_spends demo_transaction))
        (dummy_spend ref_crypto queue_fill (pn_asset demo_note)) (t_spends demo_transaction) demo_draws =
      Some (Inr ([demo_spend, demo_dummy], [[8], addr 12003, addr 12004, [0], [0]]))"
    by (simp add: SLOTS_def demo_transaction_def bindR_def demo_dummy_drawn returnR_def)
  have len: "fold max (map (\<lambda>s. length (sd_encrypted s)) (t_sends demo_transaction)) 0 = 1"
    by (simp add: demo_transaction_def demo_send_def)
  have pad2: "pad_slots (SLOTS - length (t_sends demo_transaction)) (send_dummy ref_crypto queue_fill 1)
        (t_sends demo_transaction) [[8], addr 12003, addr 12004, [0], [0]] =
      Some (Inr ([demo_send, demo_dummy_send], [[0], [0]]))"
  proof -
    have s: "SLOTS - length (t_sends demo_transaction) = Suc 0"
      by (simp add: SLOTS_def demo_transaction_def)
    show ?thesis
      unfolding s by (simp add: demo_transaction_def bindR_def demo_dummy_send_drawn returnR_def del: One_nat_def)
  qed
  have "\<not> list_ex (\<lambda>s. pn_asset (sp_note s) \<noteq> pn_asset demo_note) (t_spends demo_transaction)"
    by (simp add: demo_transaction_def demo_spend_def)
  moreover have "demo_plan = \<lparr>p_spends = (demo_spend, demo_dummy),
      p_sends = (demo_send, demo_dummy_send), p_asset = pn_asset demo_note\<rparr>"
    by (simp add: demo_plan_def demo_note_def)
  ultimately show ?thesis
    by (simp add: plan_of_def Let_def len bindR_def pad1 pad2 no_swap as_pair_def liftR_def returnR_def
        del: One_nat_def)
qed

end
