(* ===== verification/Sdk_Properties.thy ===== *)
theory Sdk_Properties
  imports Pool_Properties Sdk_Reference
begin

text \<open>
  The properties of the client library, alone and together with the on-chain program, each with
  an application to the concrete transaction of \<open>Sdk_Reference\<close>.
\<close>

text \<open>
  C10. An honest client is served. The instruction built for a plan whose values check out, with
  a proof that the configured verifier accepts on the client's own witness bytes, is accepted by
  the program whenever the referenced accounts are in place (\<open>chain_ready\<close>), the root is
  still in the window, and the withdrawal can be paid. The addresses, the argument checks, the
  binding hash and the public witness all come out as the program computes them.
\<close>

theorem client_instruction_accepted:
  assumes "spl_spec R" "light_spec R H TREE_HEIGHT lv" "fr_spec L" "poseidon_spec L"
    and "system_program_id R = SYSTEM_PROGRAM"
    and pool: "sdk_pool_new R L pool_program_id verifier mint domain = Inr sp"
    and vals: "plan_values_of L p public = Inr v" "pr_public proof = pv_public v"
    and ext: "external_new p recipient = Inr ext"
    and ins: "sdk_transact R L borsh sp proof ext amount payer = Inr ins"
      "transact_ctx_of (si_accounts ins) = Some c"
    and proven: "length (pr_bytes proof) = 388"
      "cpi_invoke R verifier (pr_bytes proof @ witness_bytes (pr_public proof))"
    and amount: "sint amount \<le> 0" "sint amount < 0 \<Longrightarrow> tr_recipient_ata c \<noteq> tr_vault c"
    and state: "chain_ready R lv ls l c (accts w)" "payable c l (instruction_args proof ext amount) (accts w)"
      "pool_verifier (tl_pool l) = verifier" "asset_mint (pool_asset (tl_pool l)) = mint"
      "pool_domain (tl_pool l) = domain"
    and root: "spi_root (pr_public proof) \<in> set (recent_roots H TREE_HEIGHT ROOTS_SIZE ls)"
      "spi_root (pr_public proof) \<noteq> replicate 32 0"
  shows "\<exists>w'. transact R L c (instruction_args proof ext amount) w = Inr w'"
  by (rule client_accepted [OF assms])

theorem client_instruction_accepted_witness:
  "\<exists>w'. transact ref_runtime ref_crypto demo_client_ctx
     (instruction_args demo_proof demo_external (- 300)) demo_sdk_world = Inr w'"
proof (rule client_instruction_accepted [OF ref_spl_spec ref_light_spec ref_fr_spec ref_poseidon_spec _
      demo_sdk_pool demo_values_ok [of demo_hash] _ demo_external_ok demo_instruction_ok demo_client_ctx
      _ _ _ _ demo_chain_ready demo_client_payable])
  show "system_program_id ref_runtime = SYSTEM_PROGRAM"
    by (simp add: SYSTEM_PROGRAM_def addr_def)
qed (use demo_root_known demo_verified in \<open>simp_all add: demo_proof_def demo_sdk_loaded_def demo_loaded_def
      demo_pool_def demo_client_ctx_def client_ctx_def ref_pool_address\<close>)

lemma sdk_commitment_pool:
  assumes "fr_spec L" "poseidon_spec L" "note_public_key L n ow = Inr npk"
  shows "sdk_commitment L n ow = Inr c \<longleftrightarrow> note_commitment L npk (pn_asset n) (pn_value n) = Inr c"
  using assms(3) commitment_from_key_pool [OF assms(1,2)] by (simp add: sdk_commitment_def)

lemma client_climb:
  assumes "fr_spec L" "poseidon_spec L" "list_all is_scalar ls" "i < length ls" "length ls \<le> 2 ^ TREE_HEIGHT"
  shows "merkle_root L (ls ! i) (word_of_nat i) (auth_path (poseidon_node L) TREE_HEIGHT ls i) =
    Inr (mroot (poseidon_node L) TREE_HEIGHT ls)"
proof -
  have "i < 2 ^ 20" using assms(4,5) by (simp add: TREE_HEIGHT_def)
  then have "i < 2 ^ 32" by simp
  then have i: "unat (word_of_nat i :: u32) = i"
    by (simp add: unat_of_nat)
  have "is_scalar (ls ! i)" using assms(3,4) by (simp add: list_all_length)
  moreover have "length (auth_path (poseidon_node L) TREE_HEIGHT ls i) \<le> 32"
    by (simp add: TREE_HEIGHT_def)
  ultimately have "merkle_root L (ls ! i) (word_of_nat i) (auth_path (poseidon_node L) TREE_HEIGHT ls i) =
      Inr (climb (poseidon_node L) (ls ! i) i (auth_path (poseidon_node L) TREE_HEIGHT ls i))"
    using merkle_root_eq [OF assms(1,2) _ auth_path_scalar [OF assms(2,3)], of "ls ! i" TREE_HEIGHT i "word_of_nat i"]
    by (simp add: i)
  then show ?thesis using climb_auth_path [OF assms(4,5)] by simp
qed

text \<open>
  C24. What is shielded can be spent. When a deposit is made to the note public key of an owner,
  the leaf that the program appends is the commitment the owner computes for the note, and the
  client's climb along the authentication path of that leaf arrives at a root that the program's
  own check knows, now and on every tree that at most 63 further leaves follow. The one exception
  is the zero root, which the check excludes; a root is zero only if Poseidon maps two canonical
  nodes to zero.
\<close>

theorem shielded_note_spendable:
  assumes "spl_spec R" "light_spec R (poseidon_node L) TREE_HEIGHT lv" "fr_spec L" "poseidon_spec L"
    and "accts w (sh_tree c) = Some (TreeAccount data)" "tree_leaves lv data = Some ls" "list_all is_scalar ls"
    and "note_public_key L n ow = Inr npk"
    and "accts w (sh_pool c) = Some (PoolAccount p)" "asset_id (pool_asset p) = pn_asset n"
    and "shield R L c npk (pn_value n) payload w = Inr w'"
  shows "\<exists>leaf data' root. sdk_commitment L n ow = Inr leaf \<and>
    accts w' (sh_tree c) = Some (TreeAccount data') \<and> tree_leaves lv data' = Some (ls @ [leaf]) \<and>
    merkle_root L leaf (word_of_nat (length ls))
      (auth_path (poseidon_node L) TREE_HEIGHT (ls @ [leaf]) (length ls)) = Inr root \<and>
    contains_root R data' root = Inr (root \<noteq> replicate 32 0) \<and>
    (\<forall>later new. tree_leaves lv later = Some (ls @ leaf # new) \<and> length new < 64 \<longrightarrow>
       contains_root R later root = Inr (root \<noteq> replicate 32 0)) \<and>
    (root = replicate 32 0 \<longrightarrow>
       (\<exists>x y. is_scalar x \<and> is_scalar y \<and> poseidon_hashv L [x, y] = Some (replicate 32 0)))"
  using assms(1,11)
proof (rule shield_eq_Inr)
  fix q m v d f t data0 i data' commitment
  assume ok: "shield_accounts_ok R c (accts w) q m v d"
    and cm: "note_commitment L npk (asset_id (pool_asset q)) (pn_value n) = Inr commitment"
    and tree: "accts w (sh_tree c) = Some (TreeAccount data0)"
    and app: "append_leaf R data0 commitment = Inr (i, data')"
    and w': "accts w' = (transferred (accts w) (sh_depositor_ata c) (sh_vault c) (pn_value n) f t)
           (sh_tree c \<mapsto> TreeAccount data')"
  let ?root = "mroot (poseidon_node L) TREE_HEIGHT (ls @ [commitment])"
  have "q = p" "data0 = data" using ok tree assms(5,9) by (simp_all add: shield_accounts_ok_def)
  then have c: "sdk_commitment L n ow = Inr commitment"
    using sdk_commitment_pool [OF assms(3,4,8)] cm assms(10) by simp
  then have sc: "is_scalar commitment"
    by (auto simp: sdk_commitment_def commitment_from_key_def sdk_poseidon_scalar [OF assms(3,4)])
  then have scs: "list_all is_scalar (ls @ [commitment])" using assms(7) by simp
  have ap: "tree_leaves lv data' = Some (ls @ [commitment])" "length ls < 2 ^ TREE_HEIGHT"
    using append_with_height_ok [OF assms(2,6)] app \<open>data0 = data\<close> unfolding append_leaf_def by blast+
  have climb: "merkle_root L ((ls @ [commitment]) ! length ls) (word_of_nat (length ls))
      (auth_path (poseidon_node L) TREE_HEIGHT (ls @ [commitment]) (length ls)) = Inr ?root"
    using scs ap(2) by (intro client_climb [OF assms(3,4)]) auto
  have known: "contains_root R later ?root = Inr (?root \<noteq> replicate 32 0)"
    if "tree_leaves lv later = Some ((ls @ [commitment]) @ new)" "length new < 64" for later new
    by (rule prefix_root_contained [OF assms(2) that(1)]) (use that(2) in \<open>simp_all add: ROOTS_SIZE_def\<close>)
  have preimage: "\<exists>x y. is_scalar x \<and> is_scalar y \<and> poseidon_hashv L [x, y] = Some ?root"
    by (rule mroot_preimage [OF assms(4) scs]) (simp add: TREE_HEIGHT_def)
  have "merkle_root L commitment (word_of_nat (length ls))
      (auth_path (poseidon_node L) TREE_HEIGHT (ls @ [commitment]) (length ls)) = Inr ?root"
    "accts w' (sh_tree c) = Some (TreeAccount data')" "contains_root R data' ?root = Inr (?root \<noteq> replicate 32 0)"
    using climb w' known [of data' "[]"] ap(1) by simp_all
  moreover have "\<exists>x y. is_scalar x \<and> is_scalar y \<and> poseidon_hashv L [x, y] = Some (replicate 32 0)"
    if "?root = replicate 32 0"
    using preimage unfolding that .
  moreover have "\<forall>later new. tree_leaves lv later = Some (ls @ commitment # new) \<and> length new < 64 \<longrightarrow>
      contains_root R later ?root = Inr (?root \<noteq> replicate 32 0)"
    using known by simp
  ultimately show ?thesis
    using c ap(1) by (metis (no_types, lifting))
qed

lemma demo_note_key:
  "note_public_key ref_crypto demo_note demo_owner =
     Inr (projr (note_public_key ref_crypto demo_note demo_owner))"
  "is_scalar (projr (note_public_key ref_crypto demo_note demo_owner))"
proof -
  obtain npk where npk: "note_public_key ref_crypto demo_note demo_owner = Inr npk"
    using demo_leaf(1) by (auto simp: sdk_commitment_def)
  then have "is_scalar npk"
    by (auto simp: note_public_key_def note_key_def sdk_poseidon_scalar [OF ref_fr_spec ref_poseidon_spec])
  with npk show "note_public_key ref_crypto demo_note demo_owner =
     Inr (projr (note_public_key ref_crypto demo_note demo_owner))"
    and "is_scalar (projr (note_public_key ref_crypto demo_note demo_owner))" by simp_all
qed

lemma demo_note_asset: "pn_asset demo_note = demo_asset_id" "pn_value demo_note = 1000"
  using demo_sdk_asset sdk_asset_pool [OF ref_fr_spec ref_poseidon_spec, of "addr 1"] demo_asset_id(1)
  by (auto simp: demo_note_def)

theorem shielded_note_spendable_witness:
  "\<exists>w' data'. shield ref_runtime ref_crypto demo_shield
       (projr (note_public_key ref_crypto demo_note demo_owner)) (pn_value demo_note) [5] demo_w1 = Inr w' \<and>
     accts w' (sh_tree demo_shield) = Some (TreeAccount data') \<and>
     tree_leaves ref_leaves data' = Some [demo_leaf] \<and>
     contains_root ref_runtime data' demo_sdk_root = Inr True"
proof -
  let ?npk = "projr (note_public_key ref_crypto demo_note demo_owner)"
  obtain w' where w': "shield ref_runtime ref_crypto demo_shield ?npk (pn_value demo_note) [5] demo_w1 = Inr w'"
    using demo_shield_total [OF demo_note_key(2), of "[5]"]
    by (auto simp: demo_note_asset MAX_ENCRYPTED_NOTE_LEN_def)
  have tree: "accts demo_w1 (sh_tree demo_shield) = Some (TreeAccount (replicate 8 0))"
      "tree_leaves ref_leaves (replicate 8 0) = Some []"
    by (simp_all add: demo_w1 demo_shield_def tree_leaves_def DISCRIMINATOR_def ref_leaves_def)
  have pool: "accts demo_w1 (sh_pool demo_shield) = Some (PoolAccount demo_pool)"
      "asset_id (pool_asset demo_pool) = pn_asset demo_note"
    by (simp_all add: demo_w1 demo_shield_def demo_note_asset(1)) (simp add: demo_pool_def)
  from shielded_note_spendable [OF ref_spl_spec ref_light_spec [unfolded ref_node_def] ref_fr_spec
      ref_poseidon_spec tree _ demo_note_key(1) pool w']
  obtain data' root where data': "accts w' (sh_tree demo_shield) = Some (TreeAccount data')"
      "tree_leaves ref_leaves data' = Some [demo_leaf]"
    and root: "merkle_root ref_crypto demo_leaf 0 (auth_path ref_node 20 [demo_leaf] 0) = Inr root"
      "contains_root ref_runtime data' root = Inr (root \<noteq> replicate 32 0)"
    using demo_leaf(1) by (auto simp: TREE_HEIGHT_def simp flip: ref_node_def)
  have "root = demo_sdk_root" using root(1) demo_climb by simp
  moreover have "demo_sdk_root \<noteq> replicate 32 0"
    using ref_root(2) [OF demo_leaf(2)] by (simp add: demo_sdk_root_def)
  ultimately show ?thesis using w' data' root(2) by simp
qed

text \<open>
  C20. The values of a plan are exactly the circuit's statement: \<open>values\<close> succeeds if and
  only if both leaf indices are in range, the two nullifiers are non-zero and distinct, all real
  inputs climb to one root and there is a real input, the output keys and commitments are the
  derived ones, and value is conserved over the integers (the \<open>i128\<close> sums never wrap).
\<close>

theorem plan_values_exact:
  "plan_values_of L p public = Inr v \<longleftrightarrow> values_ok L p public v"
  by (rule plan_values_of_iff)

lemma sum_pair_mset:
  fixes f :: "'a \<Rightarrow> int"
  assumes "mset [a, b] = mset xs"
  shows "f a + f b = sum_list (map f xs)"
proof -
  have "sum_list (map f [a, b]) = sum_list (map f xs)"
    using assms by (metis mset_map sum_mset_sum_list)
  then show ?thesis by simp
qed

text \<open>
  C21. Planning keeps the transaction. A plan made from an accepted transaction consists of its
  own spends and sends, each still with its own note, keys and payload, plus padding: inputs
  and outputs of value zero of the pool's asset, with in-range indices, non-zero nullifiers and
  payloads as long as the longest real one. So the total values in and out are unchanged.
\<close>

theorem plan_keeps_transaction:
  assumes "fr_spec L" "fill_spec fill" "transaction_new ins outs = Inr t"
    and "plan_of L fill t asset g = Some (Inr (p, g'))"
  shows "\<exists>ds os. mset [fst (p_spends p), snd (p_spends p)] = mset (ins @ ds) \<and>
      mset [fst (p_sends p), snd (p_sends p)] = mset (outs @ os) \<and>
      list_all (dummy_spend_ok L asset) ds \<and> list_all (dummy_send_ok (payload_length t)) os \<and>
      value_of_spend (fst (p_spends p)) + value_of_spend (snd (p_spends p)) =
        sum_list (map value_of_spend ins) \<and>
      value_of_send (fst (p_sends p)) + value_of_send (snd (p_sends p)) =
        sum_list (map value_of_send outs) \<and>
      ins \<noteq> [] \<and> list_all (\<lambda>s. pn_value (sp_note s) \<noteq> 0 \<and> pn_asset (sp_note s) = asset) ins"
  using assms(1,2,4)
proof (rule plan_of_eq_Inr)
  fix ds os
  assume m: "mset [fst (p_spends p), snd (p_spends p)] = mset (t_spends t @ ds)"
      "mset [fst (p_sends p), snd (p_sends p)] = mset (t_sends t @ os)"
    and d: "list_all (dummy_spend_ok L asset) ds" "list_all (dummy_send_ok (payload_length t)) os"
    and a: "list_all (\<lambda>s. pn_asset (sp_note s) = asset) (t_spends t)"
  have t: "t_spends t = ins" "t_sends t = outs" "ins \<noteq> []" "list_all (\<lambda>s. pn_value (sp_note s) \<noteq> 0) ins"
    using assms(3) by (auto simp: transaction_new_def list_all_iff list_ex_iff split: if_splits)
  have "sum_list (map value_of_spend ds) = 0"
    using d(1) by (induction ds) (auto simp: dummy_spend_ok_def value_of_spend_def)
  moreover have "sum_list (map value_of_send os) = 0"
    using d(2) by (induction os) (auto simp: dummy_send_ok_def value_of_send_def)
  ultimately show ?thesis
    using m d a t sum_pair_mset [OF m(1), of value_of_spend] sum_pair_mset [OF m(2), of value_of_send]
    by (intro exI [of _ ds] exI [of _ os]) (auto simp: list_all_iff)
qed

theorem plan_keeps_transaction_witness:
  "value_of_spend (fst (p_spends demo_plan)) + value_of_spend (snd (p_spends demo_plan)) = 1000 \<and>
   value_of_send (fst (p_sends demo_plan)) + value_of_send (snd (p_sends demo_plan)) = 700"
  using plan_keeps_transaction [OF ref_fr_spec queue_fill_spec demo_transaction_ok demo_plan_drawn]
  by (auto simp: value_of_spend_def value_of_send_def demo_spend_def demo_note_asset demo_send_def)

text \<open>
  C30. One note, one nullifier. Two openings of one commitment agree in the value, the asset, the
  randomness and both keys, so at one leaf index they have one nullifier, unless two different
  input lists among the ten that the two openings hash have the same Poseidon hash.
\<close>

theorem commitment_fixes_nullifier:
  assumes "fr_spec L" "poseidon_spec L"
    and "sdk_commitment L n ow = Inr c" "sdk_commitment L n' ow' = Inr c"
  shows "(pn_value n = pn_value n' \<and> pn_asset n = pn_asset n' \<and>
      expose (pn_random n) = expose (pn_random n') \<and> expose (own_spend ow) = expose (own_spend ow') \<and>
      (\<forall>i. sdk_nullifier L ow i = sdk_nullifier L ow' i)) \<or>
    inputs_clash L (commitment_inputs L n ow) (commitment_inputs L n' ow')"
proof -
  have "sdk_nullifier L ow i = sdk_nullifier L ow' i" if "expose (own_view ow) = expose (own_view ow')" for i
    using that by (simp add: sdk_nullifier_def nullifier_key_def)
  with commitment_binds_lemma [OF assms] show ?thesis by blast
qed

text \<open>
  The reference hash is weak, so both alternatives occur: a note of 969 of the next asset has the
  commitment of \<open>demo_note\<close>, and the two openings show the clash.
\<close>

definition weak_note :: priv_note where
  "weak_note = \<lparr>pn_value = 969, pn_asset = addr 215267, pn_random = Secret (addr 11003)\<rparr>"

lemma weak_note: "sdk_commitment ref_crypto weak_note demo_owner = Inr demo_leaf"
  by (simp add: sdk_commitment_def note_public_key_def owner_public_def nullifier_key_def note_key_def
      commitment_from_key_def field_of_u64_addr expose_def weak_note_def demo_owner_def ref_domains
      ref_hashes bn254_r_def demo_leaf_def)

theorem commitment_fixes_nullifier_witness:
  "sdk_commitment ref_crypto demo_note demo_owner = sdk_commitment ref_crypto weak_note demo_owner \<and>
   inputs_clash ref_crypto (commitment_inputs ref_crypto demo_note demo_owner)
     (commitment_inputs ref_crypto weak_note demo_owner)"
proof -
  have "pn_value demo_note \<noteq> pn_value weak_note" by (simp add: demo_note_asset weak_note_def)
  with commitment_fixes_nullifier [OF ref_fr_spec ref_poseidon_spec demo_leaf(1) weak_note]
  show ?thesis using demo_leaf(1) weak_note by simp
qed

text \<open>
  C31. Membership is binding. Two leaves that climb at one index to one root are equal, and so are
  their authentication paths, unless the two climbs hash two different pairs of children to the
  same node.
\<close>

theorem membership_binding:
  assumes "fr_spec L" "poseidon_spec L" "is_scalar a" "is_scalar b"
    and "list_all is_scalar ss" "list_all is_scalar ts" "length ss = TREE_DEPTH" "length ts = TREE_DEPTH"
    and "merkle_root L a i ss = Inr r" "merkle_root L b i ts = Inr r"
  shows "(a = b \<and> ss = ts) \<or> path_collision (poseidon_node L)
    (path_inputs (poseidon_node L) a (unat i) ss) (path_inputs (poseidon_node L) b (unat i) ts)"
proof (rule climb_binding)
  show "climb (poseidon_node L) a (unat i) ss = climb (poseidon_node L) b (unat i) ts"
    using assms(9,10) merkle_root_eq [OF assms(1,2,3,5)] merkle_root_eq [OF assms(1,2,4,6)] assms(7,8)
    by (simp add: TREE_DEPTH_def)
qed (simp add: assms(7,8))

text \<open>
  Both sides of the alternative occur. The reference hash is weak: the leaves 0 and 1 beside 31 and
  0 have the same parent, so both climb to one root, and the collision is in the two paths.
\<close>

lemma weak_parent: "ref_node (addr 0) (addr 31) = ref_node (addr 1) (addr 0)"
proof -
  have "be_val (addr k) = k" if "k < bn254_r" for k
    unfolding addr_def using that by (rule be_val_scalar)
  then have "be_val (addr 0) = 0" "be_val (addr 1) = 1" "be_val (addr 31) = 31"
    by (simp_all add: bn254_r_def)
  moreover have "is_scalar (addr 0)" "is_scalar (addr 1)" "is_scalar (addr 31)"
    by (simp_all add: addr_scalar bn254_r_def)
  ultimately show ?thesis
    by (simp add: ref_node_def poseidon_node_def ref_crypto_def ref_poseidon_def bn254_r_def del: be_val_addr)
qed

lemma weak_climb:
  assumes "is_scalar a" "is_scalar s"
  shows "merkle_root ref_crypto a 0 (s # replicate 19 (addr 2)) =
    Inr (climb ref_node (ref_node a s) 0 (replicate 19 (addr 2)))"
proof -
  have "list_all is_scalar (s # replicate 19 (addr 2))"
    using assms(2) by (simp add: list_all_iff addr_scalar bn254_r_def)
  from merkle_root_eq [OF ref_fr_spec ref_poseidon_spec assms(1) this, of 0] show ?thesis
    by (simp add: ref_node_def)
qed

theorem membership_binding_witness:
  "addr 0 \<noteq> addr 1 \<and> path_collision ref_node
     (path_inputs ref_node (addr 0) 0 (addr 31 # replicate 19 (addr 2)))
     (path_inputs ref_node (addr 1) 0 (addr 0 # replicate 19 (addr 2)))"
proof -
  let ?ss = "addr 31 # replicate 19 (addr 2)" and ?ts = "addr 0 # replicate 19 (addr 2)"
  have sc: "is_scalar (addr k)" if "k \<le> 31" for k
    using that by (simp add: addr_scalar bn254_r_def)
  have paths: "list_all is_scalar ?ss" "list_all is_scalar ?ts" "length ?ss = TREE_DEPTH" "length ?ts = TREE_DEPTH"
    by (simp_all add: list_all_iff sc TREE_DEPTH_def)
  have "merkle_root ref_crypto (addr 0) 0 ?ss = Inr (climb ref_node (ref_node (addr 0) (addr 31)) 0 (replicate 19 (addr 2)))"
    by (rule weak_climb) (simp_all add: sc)
  moreover have "merkle_root ref_crypto (addr 1) 0 ?ts = Inr (climb ref_node (ref_node (addr 0) (addr 31)) 0 (replicate 19 (addr 2)))"
    unfolding weak_parent by (rule weak_climb) (simp_all add: sc)
  ultimately show ?thesis
    using membership_binding [OF ref_fr_spec ref_poseidon_spec sc [of 0] sc [of 1] paths, of 0]
    by (simp flip: ref_node_def)
qed

text \<open>
  C37. Secrets are canonical and not zero, and sampling ends. If after finitely many draws the
  generator fails or delivers a canonical non-zero element, \<open>Field::random\<close> returns; and
  whatever element it returns is canonical and not zero.
\<close>

theorem random_field_good:
  assumes "fr_spec L"
    and "draw_at fill 32 k g = None \<or> (\<exists>bs g'. draw_at fill 32 k g = Some (bs, g') \<and> good_draw bs)"
  shows "(\<exists>r. field_random L fill g = Some r) \<and>
    (\<forall>f g'. field_random L fill g = Some (Inr (f, g')) \<longrightarrow> is_scalar f \<and> f \<noteq> replicate 32 0)"
  using field_random_returns [OF assms]
  by (auto simp flip: field_zero_def dest: field_random_good [OF assms(1)])

theorem random_field_good_witness:
  "\<exists>r. field_random ref_crypto queue_fill [replicate 32 255, replicate 32 0, addr 5] = Some r"
proof -
  have "draw_at queue_fill 32 2 [replicate 32 255, replicate 32 0, addr 5] = Some (addr 5, [])"
    by (simp add: queue_fill_def numeral_2_eq_2)
  moreover have "good_draw (addr 5)"
    by (simp add: good_draw_def addr_scalar bn254_r_def field_zero_def addr_zero_iff)
  ultimately show ?thesis
    using random_field_good [OF ref_fr_spec, of queue_fill 2] by blast
qed

text \<open>
  C34. One public amount. The client's field encoding of a signed flow is the program's, it is the
  residue of the integer modulo the field order, and different flows have different encodings.
\<close>

theorem public_amount_agrees:
  assumes "fr_spec L"
  shows "from_signed L x = public_amount_field L (scast x) \<and>
    int (be_val (from_signed L x)) = sint x mod int bn254_r \<and>
    (from_signed L x = from_signed L y \<longleftrightarrow> x = y)"
  using from_signed_pool [OF assms] sdk_amount.enc_be_val [OF assms] sdk_amount.enc_inj [OF assms] by blast

theorem public_amount_agrees_witness:
  "int (be_val (from_signed ref_crypto (- 300))) = - 300 mod int bn254_r \<and>
   from_signed ref_crypto (- 300) \<noteq> from_signed ref_crypto 300"
proof -
  have "(- 300 :: i64) \<noteq> 300" "sint (- 300 :: i64) = - 300" by simp_all
  with public_amount_agrees [OF ref_fr_spec, of "- 300" 300] show ?thesis by metis
qed

text \<open>
  C33. One public witness. On canonical public inputs the bytes the client compares against the
  prover's are the bytes the program sends to the verifier, 236 of them, and they determine the
  public inputs.
\<close>

theorem public_witness_agrees:
  assumes "wf_public_inputs (as_pool_inputs p)" "wf_public_inputs (as_pool_inputs q)"
  shows "witness_bytes p = encode (as_pool_inputs p) \<and> length (witness_bytes p) = 236 \<and>
    (witness_bytes p = witness_bytes q \<longleftrightarrow> p = q)"
proof -
  have "as_pool_inputs p = as_pool_inputs q \<longleftrightarrow> p = q"
    by (cases p; cases q) (simp add: as_pool_inputs_def)
  then show ?thesis
    using witness_bytes_pool [OF assms(1)] witness_bytes_pool [OF assms(2)] length_encode [OF assms(1)]
      encode_inj [OF assms] by auto
qed

theorem public_witness_agrees_witness:
  "length (witness_bytes (pv_public (demo_values (addr 1)))) = 236 \<and>
   witness_bytes (pv_public (demo_values (addr 1))) \<noteq> witness_bytes (pv_public (demo_values (addr 2)))"
proof -
  have wf: "wf_public_inputs (as_pool_inputs (pv_public (demo_values h)))" if "is_scalar h" for h
    using client_wf_inputs [OF ref_fr_spec ref_poseidon_spec demo_values_ok [unfolded plan_values_of_iff]] that
    by (simp add: demo_values_def)
  have "is_scalar (addr 1)" "is_scalar (addr 2)" by (simp_all add: addr_scalar bn254_r_def del: One_nat_def)
  note agree = public_witness_agrees [OF wf [OF this(1)] wf [OF this(2)]]
  have "pv_public (demo_values (addr 1)) \<noteq> pv_public (demo_values (addr 2))"
    by (simp add: demo_values_def del: One_nat_def)
  with agree show ?thesis by blast
qed

text \<open>
  C35. Withdrawals are exact. \<open>Withdrawal::new\<close> accepts exactly the positive amounts below
  \<open>2 ^ 63\<close>, returns the amount it was given, and its public flow is the negated amount, so the
  program's conversion back to \<open>u64\<close> pays out that amount.
\<close>

theorem withdrawal_exact:
  "(\<exists>wd. withdrawal_new r a = Inr wd) = (0 < unat a \<and> unat a < 2 ^ 63) \<and>
   list_all (\<lambda>wd. withdrawal_amount wd = a \<and> sint (withdrawal_public_amount wd) = - int (unat a) \<and>
       unsigned_abs (withdrawal_public_amount wd) = a)
     (case withdrawal_new r a of Inl _ \<Rightarrow> [] | Inr wd \<Rightarrow> [wd])"
proof -
  have "unsigned_abs (withdrawal_public_amount wd) = a" if "withdrawal_new r a = Inr wd" for wd
    using withdrawal_flow(3) [OF that] that
    by (simp add: unsigned_abs_def withdrawal_public_amount_def withdrawal_new_eq_Inr)
  then show ?thesis
    using withdrawal_flow(1,2) by (auto simp: withdrawal_new_eq_Inr unat_gt_0 split: sum.splits)
qed

end
