(* ===== verification/Sdk_Worker.thy ===== *)
theory Sdk_Worker
  imports Sdk_Transaction
begin

text \<open>
  The client's side of the proving worker (\<^verbatim>\<open>proving/worker/\<close>: \<^verbatim>\<open>generated.rs\<close>,
  \<^verbatim>\<open>protocol.rs\<close>, \<^verbatim>\<open>process.rs\<close>, \<^verbatim>\<open>mod.rs\<close>). The operating system,
  the child process and the clock are parameters, the record \<open>os\<close> over an environment state
  \<open>'e\<close>: every operation asks the environment and gets its answer and the next state, so an
  adversarial child or an expiring deadline is one choice of the record. A ghost log keeps what
  was done to which child. \<open>prost\<close> is the parameter \<open>codec\<close>.
\<close>

section \<open>Messages\<close>

record ready =
  rd_protocol :: u32
  rd_artifact :: string

record request =
  rq_id :: u64
  rq_witness :: bytes

record response =
  rs_id :: u64
  rs_proof :: bytes
  rs_public :: bytes
  rs_failure :: "32 word"

datatype failure = Unspecified | ProveFailed

text \<open>\<open>Failure::try_from(i32)\<close>, which \<open>prost::Enumeration\<close> derives from the discriminants.\<close>

definition failure_try_from :: "32 word \<Rightarrow> failure option" where
  "failure_try_from value =
     (if value = 0 then Some Unspecified else if value = 1 then Some ProveFailed else None)"

text \<open>The derived \<open>Ord\<close> compares the discriminants.\<close>

instantiation failure :: linorder
begin

definition less_eq_failure :: "failure \<Rightarrow> failure \<Rightarrow> bool" where
  "less_eq_failure f g \<longleftrightarrow> f = Unspecified \<or> g = ProveFailed"

definition less_failure :: "failure \<Rightarrow> failure \<Rightarrow> bool" where
  "less_failure f g \<longleftrightarrow> f = Unspecified \<and> g = ProveFailed"

instance
proof
  fix f g h :: failure
  show "f < g \<longleftrightarrow> f \<le> g \<and> \<not> g \<le> f" "f \<le> f" "f \<le> g \<or> g \<le> f"
    by (cases f; cases g; simp add: less_eq_failure_def less_failure_def)+
  show "f \<le> h" if "f \<le> g" "g \<le> h"
    using that by (cases g) (auto simp: less_eq_failure_def)
  show "f = g" if "f \<le> g" "g \<le> f"
    using that by (cases f; cases g) (auto simp: less_eq_failure_def)
qed

end

definition as_str_name :: "failure \<Rightarrow> string" where
  "as_str_name f =
     (case f of Unspecified \<Rightarrow> ''FAILURE_UNSPECIFIED'' | ProveFailed \<Rightarrow> ''FAILURE_PROVE_FAILED'')"

definition from_str_name :: "string \<Rightarrow> failure option" where
  "from_str_name value =
     (if value = ''FAILURE_UNSPECIFIED'' then Some Unspecified
      else if value = ''FAILURE_PROVE_FAILED'' then Some ProveFailed
      else None)"

record codec =
  encode_request :: "request \<Rightarrow> bytes option"
  decode_ready :: "bytes \<Rightarrow> ready option"
  decode_response :: "bytes \<Rightarrow> response option"

definition MAX_REQUEST_BYTES :: nat where "MAX_REQUEST_BYTES = 2 * 2 ^ 20"
definition MAX_RESPONSE_BYTES :: nat where "MAX_RESPONSE_BYTES = 64 * 2 ^ 10"
definition WORKER_VERSION :: u32 where "WORKER_VERSION = 1"

section \<open>The operating system\<close>

text \<open>
  What the framed reader delivers, and what awaiting an operation under a deadline gives:
  \<open>Late\<close> is the deadline passing at that await, \<open>Abandoned\<close> the caller dropping the
  future there. \<open>os_next\<close> is told how long the length field is and the frame limit the codec
  was built with. \<open>os_spawn\<close> answers whether the pipes for input and output exist.
\<close>

datatype frame = Frame bytes | FrameError | EndOfStream
datatype 'a await = Arrived 'a | Late | Abandoned

record 'e os =
  os_canonicalize :: "string \<Rightarrow> 'e \<Rightarrow> string option"
  os_is_file :: "string \<Rightarrow> 'e \<Rightarrow> bool"
  os_spawn :: "string \<Rightarrow> string \<Rightarrow> 'e \<Rightarrow> (bool \<times> bool) option \<times> 'e"
  os_write :: "nat \<Rightarrow> bytes \<Rightarrow> 'e \<Rightarrow> bool await \<times> 'e"
  os_flush :: "nat \<Rightarrow> 'e \<Rightarrow> bool await \<times> 'e"
  os_next :: "nat \<Rightarrow> nat \<Rightarrow> nat \<Rightarrow> 'e \<Rightarrow> frame await \<times> 'e"
  os_kill :: "nat \<Rightarrow> 'e \<Rightarrow> 'e"
  os_deadline :: "nat \<Rightarrow> 'e \<Rightarrow> 'e"

datatype io_event =
    Spawned (event_pid: nat)
  | Wrote (event_pid: nat) bytes
  | Flushed (event_pid: nat)
  | Received (event_pid: nat) bytes
  | Killed (event_pid: nat)

record 'e sys =
  sys_env :: 'e
  sys_spawned :: nat
  sys_log :: "io_event list"

definition log_event :: "io_event \<Rightarrow> 'e \<Rightarrow> 'e sys \<Rightarrow> 'e sys" where
  "log_event ev env s = s\<lparr>sys_env := env, sys_log := sys_log s @ [ev]\<rparr>"

text \<open>
  What is awaited under \<open>tokio::time::timeout\<close> ends in a value or an error, or is cut off by
  the deadline or by the caller. A call that its caller dropped has no result: its local variables
  are dropped where it stood, and \<open>Cancelled\<close> stands for that.
\<close>

datatype 'a outcome = Done 'a | Failed sdk_error | Elapsed | Dropped
datatype 'a call = Returned "sdk_error + 'a" | Cancelled

type_synonym ('e, 'a) io = "'e sys \<Rightarrow> (sdk_error + 'a) \<times> 'e sys"
type_synonym ('e, 'a) async = "'e sys \<Rightarrow> 'a call \<times> 'e sys"
type_synonym ('e, 'a) aio = "'e sys \<Rightarrow> 'a outcome \<times> 'e sys"

definition bindA :: "('e, 'a) aio \<Rightarrow> ('a \<Rightarrow> ('e, 'b) aio) \<Rightarrow> ('e, 'b) aio" where
  "bindA m f s =
     (case m s of
        (Done x, s) \<Rightarrow> f x s
      | (Failed e, s) \<Rightarrow> (Failed e, s)
      | (Elapsed, s) \<Rightarrow> (Elapsed, s)
      | (Dropped, s) \<Rightarrow> (Dropped, s))"

definition liftA :: "sdk_error + 'a \<Rightarrow> ('e, 'a) aio" where
  "liftA r s = (case r of Inl e \<Rightarrow> (Failed e, s) | Inr x \<Rightarrow> (Done x, s))"

definition timeout :: "'e os \<Rightarrow> nat \<Rightarrow> ('e, 'a) aio \<Rightarrow> ('e, 'a) aio" where
  "timeout os duration m s = m (s\<lparr>sys_env := os_deadline os duration (sys_env s)\<rparr>)"

section \<open>Channel\<close>

text \<open>The pipes of a child, by its number, and the codec that the output is read with.\<close>

record channel =
  ch_input :: nat
  ch_output :: nat
  ch_length_field :: nat
  ch_max_frame :: nat

definition channel_new :: "nat \<Rightarrow> nat \<Rightarrow> channel" where
  "channel_new inp out =
     \<lparr>ch_input = inp, ch_output = out, ch_length_field = 4, ch_max_frame = MAX_RESPONSE_BYTES\<rparr>"

lemma channel_new_simps [simp]:
  "ch_input (channel_new i j) = i" "ch_output (channel_new i j) = j"
  "ch_length_field (channel_new i j) = 4" "ch_max_frame (channel_new i j) = MAX_RESPONSE_BYTES"
  by (simp_all add: channel_new_def)

definition await_io :: "bool await \<Rightarrow> unit outcome" where
  "await_io r =
     (case r of Late \<Rightarrow> Elapsed
      | Abandoned \<Rightarrow> Dropped
      | Arrived ok \<Rightarrow> if ok then Done () else Failed (ProverError ''worker input failed''))"

definition write_all :: "'e os \<Rightarrow> nat \<Rightarrow> bytes \<Rightarrow> ('e, unit) aio" where
  "write_all os pid bs s =
     (let (r, env) = os_write os pid bs (sys_env s)
      in (await_io r, log_event (Wrote pid bs) env s))"

definition flush :: "'e os \<Rightarrow> nat \<Rightarrow> ('e, unit) aio" where
  "flush os pid s =
     (let (r, env) = os_flush os pid (sys_env s)
      in (await_io r, log_event (Flushed pid) env s))"

definition channel_send :: "'e os \<Rightarrow> channel \<Rightarrow> bytes option \<Rightarrow> ('e, unit) aio" where
  "channel_send os ch encoded =
     (case encoded of
        None \<Rightarrow> liftA (Inl (ProverError ''worker request could not be encoded''))
      | Some body \<Rightarrow>
          if length body > MAX_REQUEST_BYTES
          then liftA (Inl (ProverError ''witness exceeded its size limit''))
          else case u32_try_from (length body) of
              None \<Rightarrow> liftA (Inl (ProverError ''witness exceeded its size limit''))
            | Some len \<Rightarrow>
                bindA (write_all os (ch_input ch) (u32_be len)) (\<lambda>_.
                bindA (write_all os (ch_input ch) body) (\<lambda>_.
                flush os (ch_input ch))))"

definition channel_receive :: "'e os \<Rightarrow> channel \<Rightarrow> (bytes \<Rightarrow> 'm option) \<Rightarrow> ('e, 'm) aio" where
  "channel_receive os ch decode s =
     (case os_next os (ch_output ch) (ch_length_field ch) (ch_max_frame ch) (sys_env s) of
        (Late, env) \<Rightarrow> (Elapsed, s\<lparr>sys_env := env\<rparr>)
      | (Abandoned, env) \<Rightarrow> (Dropped, s\<lparr>sys_env := env\<rparr>)
      | (Arrived EndOfStream, env) \<Rightarrow>
          (Failed (ProverError ''worker stopped''), s\<lparr>sys_env := env\<rparr>)
      | (Arrived FrameError, env) \<Rightarrow>
          (Failed (ProverError ''worker response exceeded its limit''), s\<lparr>sys_env := env\<rparr>)
      | (Arrived (Frame bs), env) \<Rightarrow>
          liftA (ok_or (ProverError ''worker response is malformed'') (decode bs))
            (log_event (Received (ch_output ch) bs) env s))"

section \<open>Process\<close>

text \<open>\<open>child\<close> is \<open>None\<close> once the process was stopped; the channel stays.\<close>

record process =
  pc_child :: "nat option"
  pc_channel :: channel

definition kill :: "'e os \<Rightarrow> nat \<Rightarrow> 'e sys \<Rightarrow> 'e sys" where
  "kill os pid s = log_event (Killed pid) (os_kill os pid (sys_env s)) s"

text \<open>A child whose pipes are missing is dropped, and \<open>KillOnDrop\<close> kills it.\<close>

definition process_start :: "'e os \<Rightarrow> string \<Rightarrow> string \<Rightarrow> ('e, process) io" where
  "process_start os exe artifacts s =
     (case os_canonicalize os exe (sys_env s) of
        None \<Rightarrow> (Inl (ProverError ''worker executable is unavailable''), s)
      | Some exe \<Rightarrow>
          if \<not> os_is_file os exe (sys_env s)
          then (Inl (ProverError ''worker executable is unavailable''), s)
          else case os_canonicalize os artifacts (sys_env s) of
              None \<Rightarrow> (Inl (ArtifactsError ''artifact directory is unavailable''), s)
            | Some artifacts \<Rightarrow>
                (case os_spawn os exe artifacts (sys_env s) of
                   (None, env) \<Rightarrow> (Inl (ProverError ''worker could not start''), s\<lparr>sys_env := env\<rparr>)
                 | (Some (has_input, has_output), env) \<Rightarrow>
                     let pid = sys_spawned s;
                         s = (log_event (Spawned pid) env s)\<lparr>sys_spawned := Suc pid\<rparr>
                     in if \<not> has_input then (Inl (ProverError ''worker input is unavailable''), kill os pid s)
                        else if \<not> has_output
                        then (Inl (ProverError ''worker output is unavailable''), kill os pid s)
                        else (Inr \<lparr>pc_child = Some pid, pc_channel = channel_new pid pid\<rparr>, s)))"

definition process_send :: "'e os \<Rightarrow> process \<Rightarrow> bytes option \<Rightarrow> ('e, unit) aio" where
  "process_send os p encoded = channel_send os (pc_channel p) encoded"

definition process_receive :: "'e os \<Rightarrow> process \<Rightarrow> (bytes \<Rightarrow> 'm option) \<Rightarrow> ('e, 'm) aio" where
  "process_receive os p decode = channel_receive os (pc_channel p) decode"

definition process_stop :: "'e os \<Rightarrow> process \<Rightarrow> 'e sys \<Rightarrow> process \<times> 'e sys" where
  "process_stop os p s =
     (case pc_child p of
        None \<Rightarrow> (p, s)
      | Some pid \<Rightarrow> (p\<lparr>pc_child := None\<rparr>, kill os pid s))"

definition process_drop :: "'e os \<Rightarrow> process \<Rightarrow> 'e sys \<Rightarrow> 'e sys" where
  "process_drop os p s = (case pc_child p of None \<Rightarrow> s | Some pid \<Rightarrow> kill os pid s)"

section \<open>Worker\<close>

record worker =
  wk_process :: process
  wk_next_request_id :: u64

text \<open>
  A start that is dropped while it waits for the greeting drops its process. (One that is dropped
  while \<open>stop\<close> waits for the killed child has nothing left to do.)
\<close>

definition worker_start ::
    "'e os \<Rightarrow> codec \<Rightarrow> string \<Rightarrow> string \<Rightarrow> string \<Rightarrow> nat \<Rightarrow> ('e, worker) async" where
  "worker_start os C exe artifacts artifact duration s =
     (case process_start os exe artifacts s of
        (Inl e, s) \<Rightarrow> (Returned (Inl e), s)
      | (Inr p, s) \<Rightarrow>
          (case timeout os duration (process_receive os p (decode_ready C)) s of
             (Done rd, s) \<Rightarrow>
               if rd_protocol rd = WORKER_VERSION \<and> rd_artifact rd = artifact
               then (Returned (Inr \<lparr>wk_process = p, wk_next_request_id = 0\<rparr>), s)
               else (Returned (Inl (ProverError ''worker identity does not match'')),
                     snd (process_stop os p s))
           | (Failed e, s) \<Rightarrow> (Returned (Inl e), snd (process_stop os p s))
           | (Elapsed, s) \<Rightarrow> (Returned (Inl TimeoutError), snd (process_stop os p s))
           | (Dropped, s) \<Rightarrow> (Cancelled, process_drop os p s)))"

definition validate_response :: "worker \<Rightarrow> response \<Rightarrow> sdk_error + bytes \<times> bytes" where
  "validate_response w rs =
     (if rs_id rs \<noteq> wk_next_request_id w
      then Inl (ProverError ''worker response ID does not match'')
      else bindE (ok_or (ProverError ''worker response is malformed'')
                   (failure_try_from (rs_failure rs))) (\<lambda>failure.
           if failure \<noteq> Unspecified then Inl (ProverError ''worker rejected the proof request'')
           else if rs_proof rs = [] \<or> rs_public rs = []
           then Inl (ProverError ''worker response is incomplete'')
           else Inr (rs_proof rs, rs_public rs)))"

text \<open>
  \<open>prove\<close> takes \<open>&mut self\<close>: the worker comes back changed, whatever the result. A dropped
  call leaves it in the middle of an exchange, its child running; it is for the owner to drop it.
\<close>

definition worker_prove ::
    "'e os \<Rightarrow> codec \<Rightarrow> bytes \<Rightarrow> nat \<Rightarrow> worker \<Rightarrow> 'e sys \<Rightarrow> (bytes \<times> bytes) call \<times> worker \<times> 'e sys" where
  "worker_prove os C witness duration w s =
     (let w = w\<lparr>wk_next_request_id := wk_next_request_id w + 1\<rparr>;
          stopped = (\<lambda>e s. let (p, s) = process_stop os (wk_process w) s
                            in (Returned (Inl e), w\<lparr>wk_process := p\<rparr>, s))
      in if wk_next_request_id w = 0
         then stopped (ProverError ''worker request ID was exhausted'') s
         else
           let request = \<lparr>rq_id = wk_next_request_id w, rq_witness = witness\<rparr>
           in case timeout os duration
                  (bindA (process_send os (wk_process w) (encode_request C request)) (\<lambda>_.
                   bindA (process_receive os (wk_process w) (decode_response C)) (\<lambda>rs.
                   liftA (validate_response w rs)))) s of
                (Done result, s) \<Rightarrow> (Returned (Inr result), w, s)
              | (Failed e, s) \<Rightarrow> stopped e s
              | (Elapsed, s) \<Rightarrow> stopped TimeoutError s
              | (Dropped, s) \<Rightarrow> (Cancelled, w, s))"

section \<open>Behaviour\<close>

text \<open>
  Awaited computations only write to the log, and only about their own child. \<open>aio_spec pid m Q\<close>
  says so of \<open>m\<close>, and that \<open>Q\<close> holds of the value and of the new events when \<open>m\<close> finishes.
\<close>

definition appended :: "'e sys \<Rightarrow> io_event list \<Rightarrow> 'e sys \<Rightarrow> bool" where
  "appended s evs t \<longleftrightarrow> sys_log t = sys_log s @ evs \<and> sys_spawned t = sys_spawned s"

fun traffic_event :: "nat \<Rightarrow> io_event \<Rightarrow> bool" where
  "traffic_event pid (Wrote p bs) = (p = pid)"
| "traffic_event pid (Flushed p) = (p = pid)"
| "traffic_event pid (Received p bs) = (p = pid)"
| "traffic_event pid (Spawned p) = False"
| "traffic_event pid (Killed p) = False"

abbreviation traffic :: "nat \<Rightarrow> io_event list \<Rightarrow> bool" where
  "traffic pid evs \<equiv> list_all (traffic_event pid) evs"

definition aio_spec :: "nat \<Rightarrow> ('e, 'a) aio \<Rightarrow> ('a \<Rightarrow> io_event list \<Rightarrow> bool) \<Rightarrow> bool" where
  "aio_spec pid m Q \<longleftrightarrow>
     (\<forall>s r t. m s = (r, t) \<longrightarrow>
        (\<exists>evs. appended s evs t \<and> traffic pid evs \<and> (\<forall>x. r = Done x \<longrightarrow> Q x evs)))"

named_theorems aio_rules

lemma appended_refl [simp]: "appended s [] s"
  by (simp add: appended_def)

lemma appended_trans: "appended s xs t \<Longrightarrow> appended t ys u \<Longrightarrow> appended s (xs @ ys) u"
  by (simp add: appended_def)

lemma appended_log: "appended s [ev] (log_event ev env s)"
  by (simp add: appended_def log_event_def)

lemma aio_specD:
  assumes "aio_spec pid m Q" "m s = (r, t)"
  shows "\<exists>evs. appended s evs t \<and> traffic pid evs \<and> (\<forall>x. r = Done x \<longrightarrow> Q x evs)"
  using assms(1) [unfolded aio_spec_def, rule_format, OF assms(2)] .

lemma aio_weaken:
  assumes "aio_spec pid m Q" and "\<And>x evs. Q x evs \<Longrightarrow> R x evs"
  shows "aio_spec pid m R"
  unfolding aio_spec_def
proof (intro allI impI)
  fix s r t assume "m s = (r, t)"
  from aio_specD [OF assms(1) this] assms(2)
  show "\<exists>evs. appended s evs t \<and> traffic pid evs \<and> (\<forall>x. r = Done x \<longrightarrow> R x evs)" by metis
qed

lemma aio_lift [aio_rules]: "aio_spec pid (liftA r) (\<lambda>x evs. r = Inr x \<and> evs = [])"
  unfolding aio_spec_def liftA_def by (auto intro: exI [of _ "[]"] split: sum.splits)

lemma aio_bind [aio_rules]:
  assumes "aio_spec pid m Q" and "\<And>x. aio_spec pid (f x) (R x)"
  shows "aio_spec pid (bindA m f) (\<lambda>y evs. \<exists>x xs ys. Q x xs \<and> R x y ys \<and> evs = xs @ ys)"
  unfolding aio_spec_def
proof (intro allI impI)
  fix s r t assume run: "bindA m f s = (r, t)"
  obtain o1 u where m: "m s = (o1, u)" by fastforce
  obtain xs where xs: "appended s xs u" "traffic pid xs" "\<forall>x. o1 = Done x \<longrightarrow> Q x xs"
    using aio_specD [OF assms(1) m] by blast
  show "\<exists>evs. appended s evs t \<and> traffic pid evs \<and>
      (\<forall>y. r = Done y \<longrightarrow> (\<exists>x xs ys. Q x xs \<and> R x y ys \<and> evs = xs @ ys))"
  proof (cases o1)
    case (Done x)
    with run m have "f x u = (r, t)" by (simp add: bindA_def)
    from aio_specD [OF assms(2) this]
    obtain ys where "appended u ys t" "traffic pid ys" "\<forall>y. r = Done y \<longrightarrow> R x y ys"
      by blast
    with xs Done show ?thesis by (intro exI [of _ "xs @ ys"]) (auto intro: appended_trans)
  qed (use run m xs in \<open>auto simp: bindA_def\<close>)
qed

lemma aio_timeout [aio_rules]: "aio_spec pid m Q \<Longrightarrow> aio_spec pid (timeout os d m) Q"
  unfolding aio_spec_def timeout_def appended_def by fastforce

lemma aio_write [aio_rules]: "aio_spec pid (write_all os pid bs) (\<lambda>_ evs. evs = [Wrote pid bs])"
  unfolding aio_spec_def write_all_def
  by (auto simp: case_prod_beta intro!: exI [of _ "[Wrote pid bs]"] appended_log)

lemma aio_flush [aio_rules]: "aio_spec pid (flush os pid) (\<lambda>_ evs. evs = [Flushed pid])"
  unfolding aio_spec_def flush_def
  by (auto simp: case_prod_beta intro!: exI [of _ "[Flushed pid]"] appended_log)

text \<open>A message that was sent is a frame: its length in four bytes, then the body.\<close>

definition framed :: "nat \<Rightarrow> bytes \<Rightarrow> io_event list" where
  "framed pid body = [Wrote pid (be_bytes 4 (length body)), Wrote pid body, Flushed pid]"

lemma aio_send:
  "aio_spec (ch_input ch) (channel_send os ch encoded)
     (\<lambda>_ evs. \<exists>body. encoded = Some body \<and> length body \<le> MAX_REQUEST_BYTES \<and> evs = framed (ch_input ch) body)"
proof (cases encoded)
  case None
  show ?thesis
    unfolding channel_send_def None option.case by (rule aio_weaken [OF aio_lift]) simp
next
  case (Some body)
  show ?thesis
  proof (cases "length body > MAX_REQUEST_BYTES")
    case True
    then show ?thesis
      unfolding channel_send_def Some option.case if_P [OF True] by (intro aio_weaken [OF aio_lift]) simp
  next
    case False
    then have small: "length body < 2 ^ 32" by (simp add: MAX_REQUEST_BYTES_def)
    then have len: "u32_try_from (length body) = Some (word_of_nat (length body))"
      by (simp add: u32_try_from_def)
    have hdr: "u32_be (word_of_nat (length body)) = be_bytes 4 (length body)"
      using small by (simp add: u32_be_def unat_of_nat)
    have "aio_spec (ch_input ch) (bindA (write_all os (ch_input ch) (be_bytes 4 (length body))) (\<lambda>_.
        bindA (write_all os (ch_input ch) body) (\<lambda>_. flush os (ch_input ch))))
        (\<lambda>_ evs. evs = framed (ch_input ch) body)"
      by (rule aio_weaken [OF aio_bind [OF aio_write aio_bind [OF aio_write aio_flush]]])
        (auto simp: framed_def)
    with Some False len hdr show ?thesis
      unfolding channel_send_def by (simp add: aio_spec_def)
  qed
qed

lemma aio_receive:
  "aio_spec (ch_output ch) (channel_receive os ch decode)
     (\<lambda>x evs. \<exists>bs. decode bs = Some x \<and> evs = [Received (ch_output ch) bs])"
  unfolding aio_spec_def
proof (intro allI impI)
  fix s r t assume run: "channel_receive os ch decode s = (r, t)"
  obtain a env where n: "os_next os (ch_output ch) (ch_length_field ch) (ch_max_frame ch) (sys_env s) = (a, env)" by fastforce
  have silent: "appended s [] (s\<lparr>sys_env := env\<rparr>)" by (simp add: appended_def)
  show "\<exists>evs. appended s evs t \<and> traffic (ch_output ch) evs \<and>
      (\<forall>x. r = Done x \<longrightarrow> (\<exists>bs. decode bs = Some x \<and> evs = [Received (ch_output ch) bs]))"
  proof (cases a)
    case Late
    with run n silent show ?thesis by (auto simp: channel_receive_def)
  next
    case Abandoned
    with run n silent show ?thesis by (auto simp: channel_receive_def)
  next
    case (Arrived fr)
    show ?thesis
    proof (cases fr)
      case (Frame bs)
      with run n Arrived show ?thesis
        by (cases "decode bs") (auto simp: channel_receive_def liftA_def intro!: exI [of _ "[Received (ch_output ch) bs]"] appended_log)
    qed (use run n Arrived silent in \<open>auto simp: channel_receive_def\<close>)
  qed
qed

text \<open>
  One exchange on a child's pipes: the request with the identifier \<open>i\<close> goes out as a frame, and
  one response comes back with the same identifier, no failure, and a proof and public bytes.
\<close>

definition exchange ::
    "codec \<Rightarrow> nat \<Rightarrow> u64 \<Rightarrow> bytes \<Rightarrow> bytes \<times> bytes \<Rightarrow> io_event list \<Rightarrow> bool" where
  "exchange C pid i witness result evs \<longleftrightarrow>
     (\<exists>body bs rs. encode_request C \<lparr>rq_id = i, rq_witness = witness\<rparr> = Some body \<and>
        length body \<le> MAX_REQUEST_BYTES \<and> decode_response C bs = Some rs \<and> rs_id rs = i \<and>
        failure_try_from (rs_failure rs) = Some Unspecified \<and>
        rs_proof rs = fst result \<and> rs_public rs = snd result \<and> fst result \<noteq> [] \<and> snd result \<noteq> [] \<and>
        evs = framed pid body @ [Received pid bs])"

lemma validate_response_eq_Inr:
  "validate_response w rs = Inr result \<longleftrightarrow>
     rs_id rs = wk_next_request_id w \<and> failure_try_from (rs_failure rs) = Some Unspecified \<and>
     rs_proof rs = fst result \<and> rs_public rs = snd result \<and> fst result \<noteq> [] \<and> snd result \<noteq> []"
  by (cases result) (auto simp: validate_response_def)

lemma aio_exchange:
  assumes "pc_channel (wk_process w) = channel_new pid pid"
  shows "aio_spec pid
     (timeout os duration
        (bindA (process_send os (wk_process w)
                  (encode_request C \<lparr>rq_id = wk_next_request_id w, rq_witness = witness\<rparr>)) (\<lambda>_.
         bindA (process_receive os (wk_process w) (decode_response C)) (\<lambda>rs.
         liftA (validate_response w rs)))))
     (\<lambda>result evs. exchange C pid (wk_next_request_id w) witness result evs)"
proof -
  note send = aio_send [of "channel_new pid pid", simplified]
    and receive = aio_receive [of "channel_new pid pid", simplified]
  show ?thesis
    unfolding process_send_def process_receive_def assms
    by (rule aio_timeout, rule aio_weaken [OF aio_bind [OF send aio_bind [OF receive aio_lift]]])
      (fastforce simp: exchange_def validate_response_eq_Inr)
qed

text \<open>A worker that runs is one whose child is the one its channel belongs to.\<close>

definition worker_up :: "nat \<Rightarrow> worker \<Rightarrow> bool" where
  "worker_up pid w \<longleftrightarrow> wk_process w = \<lparr>pc_child = Some pid, pc_channel = channel_new pid pid\<rparr>"

lemma appended_kill: "appended s evs t \<Longrightarrow> appended s (evs @ [Killed pid]) (kill os pid t)"
  by (simp add: appended_def kill_def log_event_def)

lemma process_stop_up:
  "worker_up pid w \<Longrightarrow> process_stop os (wk_process w) s = (\<lparr>pc_child = None, pc_channel = channel_new pid pid\<rparr>, kill os pid s)"
  by (simp add: worker_up_def process_stop_def)

lemma worker_prove_cases:
  assumes "worker_prove os C witness duration w s = (r, w', t)" and "worker_up pid w"
  shows "(\<exists>result evs. r = Returned (Inr result) \<and> w' = w\<lparr>wk_next_request_id := wk_next_request_id w + 1\<rparr> \<and>
      wk_next_request_id w' \<noteq> 0 \<and> appended s evs t \<and> traffic pid evs \<and>
      exchange C pid (wk_next_request_id w') witness result evs) \<or>
    (\<exists>e evs. r = Returned (Inl e) \<and> pc_child (wk_process w') = None \<and> traffic pid evs \<and>
      appended s (evs @ [Killed pid]) t) \<or>
    (\<exists>evs. r = Cancelled \<and> worker_up pid w' \<and> traffic pid evs \<and> appended s evs t)"
proof -
  let ?w = "w\<lparr>wk_next_request_id := wk_next_request_id w + 1\<rparr>"
  have up: "worker_up pid ?w" using assms(2) by (simp add: worker_up_def)
  note stop = process_stop_up [OF up, of os]
  show ?thesis
  proof (cases "wk_next_request_id ?w = 0")
    case True
    have "appended s ([] @ [Killed pid]) (kill os pid s)" by (rule appended_kill) simp
    with True assms(1) stop show ?thesis
      by (intro disjI2 disjI1 exI [of _ "ProverError ''worker request ID was exhausted''"] exI [of _ "[]"])
        (auto simp: worker_prove_def Let_def)
  next
    case False
    let ?m = "timeout os duration
        (bindA (process_send os (wk_process ?w)
                  (encode_request C \<lparr>rq_id = wk_next_request_id ?w, rq_witness = witness\<rparr>)) (\<lambda>_.
         bindA (process_receive os (wk_process ?w) (decode_response C)) (\<lambda>rs.
         liftA (validate_response ?w rs))))"
    obtain o1 u where m: "?m s = (o1, u)" by fastforce
    have pid: "pc_channel (wk_process ?w) = channel_new pid pid" using up by (simp add: worker_up_def)
    from aio_specD [OF aio_exchange [OF pid] m] obtain evs where
      evs: "appended s evs u" "traffic pid evs"
        "\<forall>x. o1 = Done x \<longrightarrow> exchange C pid (wk_next_request_id ?w) witness x evs"
      by blast
    show ?thesis
    proof (cases o1)
      case (Done x)
      with assms(1) False m evs show ?thesis
        by (intro disjI1 exI [of _ x] exI [of _ evs]) (auto simp: worker_prove_def Let_def)
    next
      case (Failed e)
      with assms(1) False m evs(1,2) stop appended_kill [OF evs(1), of pid os] show ?thesis
        by (intro disjI2 disjI1 exI [of _ e] exI [of _ evs]) (auto simp: worker_prove_def Let_def)
    next
      case Elapsed
      with assms(1) False m evs(1,2) stop appended_kill [OF evs(1), of pid os] show ?thesis
        by (intro disjI2 disjI1 exI [of _ TimeoutError] exI [of _ evs]) (auto simp: worker_prove_def Let_def)
    next
      case Dropped
      with assms(1) False m evs(1,2) up show ?thesis
        by (intro disjI2 exI [of _ evs]) (auto simp: worker_prove_def Let_def)
    qed
  qed
qed

text \<open>A child that was started with success has announced itself and has seen no request.\<close>

definition greeted :: "codec \<Rightarrow> string \<Rightarrow> nat \<Rightarrow> io_event list \<Rightarrow> bool" where
  "greeted C artifact pid evs \<longleftrightarrow>
     (\<exists>bs rd. decode_ready C bs = Some rd \<and> rd_protocol rd = WORKER_VERSION \<and>
        rd_artifact rd = artifact \<and> evs = [Received pid bs])"

definition launched :: "'e sys \<Rightarrow> io_event list \<Rightarrow> 'e sys \<Rightarrow> bool" where
  "launched s evs t \<longleftrightarrow>
     sys_spawned t = Suc (sys_spawned s) \<and> sys_log t = sys_log s @ Spawned (sys_spawned s) # evs"

lemma launched_kill: "launched s evs t \<Longrightarrow> launched s (evs @ [Killed pid]) (kill os pid t)"
  by (simp add: launched_def kill_def log_event_def)

lemma launched_appended: "launched s xs t \<Longrightarrow> appended t ys u \<Longrightarrow> launched s (xs @ ys) u"
  by (simp add: launched_def appended_def)

lemma process_start_cases:
  assumes "process_start os exe artifacts s = (r, t)"
  shows "(\<exists>e. r = Inl e \<and> appended s [] t) \<or>
    (\<exists>e. r = Inl e \<and> launched s [Killed (sys_spawned s)] t) \<or>
    (r = Inr \<lparr>pc_child = Some (sys_spawned s), pc_channel = channel_new (sys_spawned s) (sys_spawned s)\<rparr> \<and> launched s [] t)"
  using assms
  by (auto simp: process_start_def appended_def launched_def kill_def log_event_def Let_def
      split: option.splits if_splits prod.splits)

lemma worker_start_cases:
  assumes "worker_start os C exe artifacts artifact duration s = (r, t)"
  shows "(\<exists>e. r = Returned (Inl e) \<and> appended s [] t) \<or>
    (\<exists>evs. (\<forall>w. r \<noteq> Returned (Inr w)) \<and> traffic (sys_spawned s) evs \<and>
       launched s (evs @ [Killed (sys_spawned s)]) t) \<or>
    (\<exists>w evs. r = Returned (Inr w) \<and> worker_up (sys_spawned s) w \<and> wk_next_request_id w = 0 \<and>
       traffic (sys_spawned s) evs \<and> greeted C artifact (sys_spawned s) evs \<and> launched s evs t)"
proof -
  obtain q u where q: "process_start os exe artifacts s = (q, u)" by fastforce
  let ?pid = "sys_spawned s"
  from process_start_cases [OF q] consider
    (no) e where "q = Inl e" "appended s [] u"
    | (dead) e where "q = Inl e" "launched s ([] @ [Killed ?pid]) u"
    | (up) "q = Inr \<lparr>pc_child = Some ?pid, pc_channel = channel_new ?pid ?pid\<rparr>" "launched s [] u"
    by auto
  then show ?thesis
  proof cases
    case no
    with assms q show ?thesis by (auto simp: worker_start_def)
  next
    case dead
    with assms q show ?thesis
      by (intro disjI2 disjI1 exI [of _ "[]"]) (auto simp: worker_start_def)
  next
    case up
    let ?p = "\<lparr>pc_child = Some ?pid, pc_channel = channel_new ?pid ?pid\<rparr>"
    let ?m = "timeout os duration (process_receive os ?p (decode_ready C))"
    obtain o1 v where m: "?m u = (o1, v)" by fastforce
    have "aio_spec ?pid ?m (\<lambda>rd evs. \<exists>bs. decode_ready C bs = Some rd \<and> evs = [Received ?pid bs])"
      unfolding process_receive_def
      by (rule aio_timeout) (use aio_receive [of "channel_new ?pid ?pid"] in simp)
    from aio_specD [OF this m] obtain evs where
      evs: "appended u evs v" "traffic ?pid evs"
        "\<forall>rd. o1 = Done rd \<longrightarrow> (\<exists>bs. decode_ready C bs = Some rd \<and> evs = [Received ?pid bs])"
      by (elim exE conjE) (rule that)
    have v: "launched s evs v" using launched_appended [OF up(2) evs(1)] by simp
    note killed = launched_kill [OF v, of ?pid os]
    have stop: "snd (process_stop os ?p v) = kill os ?pid v" "process_drop os ?p v = kill os ?pid v"
      by (simp_all add: process_stop_def process_drop_def)
    have r: "(r, t) = (case o1 of Done rd \<Rightarrow>
          if rd_protocol rd = WORKER_VERSION \<and> rd_artifact rd = artifact
          then (Returned (Inr \<lparr>wk_process = ?p, wk_next_request_id = 0\<rparr>), v)
          else (Returned (Inl (ProverError ''worker identity does not match'')), kill os ?pid v)
        | Failed e \<Rightarrow> (Returned (Inl e), kill os ?pid v)
        | Elapsed \<Rightarrow> (Returned (Inl TimeoutError), kill os ?pid v)
        | Dropped \<Rightarrow> (Cancelled, kill os ?pid v))"
      using assms q up(1) m stop by (cases o1) (auto simp: worker_start_def split: if_splits)
    show ?thesis
    proof (cases "\<exists>w. r = Returned (Inr w)")
      case True
      with r evs(3) have "r = Returned (Inr \<lparr>wk_process = ?p, wk_next_request_id = 0\<rparr>)" "t = v"
        "greeted C artifact ?pid evs"
        by (auto simp: greeted_def split: outcome.splits if_splits)
      with evs(2) v show ?thesis
        by (intro disjI2 exI [of _ "\<lparr>wk_process = ?p, wk_next_request_id = 0\<rparr>"] exI [of _ evs])
          (simp add: worker_up_def)
    next
      case False
      with r have "t = kill os ?pid v" by (auto split: outcome.splits if_splits)
      with evs(2) killed False show ?thesis by blast
    qed
  qed
qed

end
