(* ===== verification/Sdk_Witness.thy ===== *)
theory Sdk_Witness
  imports Sdk_Transaction
begin

text \<open>
  The artifact bundle and the circuit witness of the client (\<^verbatim>\<open>proving/artifacts.rs\<close>,
  \<^verbatim>\<open>proving/witness.rs\<close>). The file system is the parameter \<open>read\<close>, from a
  directory and a file name to the contents; \<open>serde_json\<close> and the Noir tool chain are the
  record \<open>noir\<close> over programs \<open>'p\<close>, initial witness maps \<open>'w\<close> and solved witness stacks
  \<open>'k\<close>.
\<close>

section \<open>Artifacts\<close>

record files =
  fl_acir :: string
  fl_ccs :: string
  fl_pk :: string
  fl_vk :: string

record manifest =
  mf_id :: string
  mf_noir :: string
  mf_circuit :: string
  mf_files :: files

record 'p artifacts =
  ar_manifest :: manifest
  ar_program :: 'p

text \<open>
  The values of the circuit's inputs. \<open>FieldElement\<close> is the field of \<open>ark-bn254\<close> again, so
  \<open>from_be_bytes_reduce\<close> is the reduction of \<open>crypto\<close>.
\<close>

datatype 'fr input_value = InputField 'fr | InputVec "'fr input_value list"

type_synonym 'fr input_map = "string \<rightharpoonup> 'fr input_value"

record ('p, 'w, 'k, 'fr) noir =
  json_manifest :: "bytes \<Rightarrow> manifest option"
  json_program :: "bytes \<Rightarrow> 'p option"
  program_noir_version :: "'p \<Rightarrow> string"
  program_hash :: "'p \<Rightarrow> string"
  abi_encode :: "'p \<Rightarrow> 'fr input_map \<Rightarrow> 'w option"
  execute_program :: "'p \<Rightarrow> 'w \<Rightarrow> 'k option"
  serialize_stack :: "'k \<Rightarrow> bytes option"

definition NOIR_VERSION :: string where
  "NOIR_VERSION = ''1.0.0-beta.22+c57152f91260ecdb9faad4efc20abb14b6d2ece7''"

text \<open>\<open>include_str!\<close> of \<^verbatim>\<open>prover/veil402-gnark/artifacts/transaction-v4/manifest.json\<close>.\<close>

definition PINNED_MANIFEST :: string where
  \<open>PINNED_MANIFEST = concat (map (\<lambda>line. line @ [CHR 0x0A])
    [''{'',
     ''  "id": "transaction-v4",'',
     ''  "noir": "1.0.0-beta.22+c57152f91260ecdb9faad4efc20abb14b6d2ece7",'',
     ''  "circuit": "7454497435393738459",'',
     ''  "files": {'',
     ''    "acir": "3232d3d65a7988c9a1a53d1813278011aaa5a3a3972baae8088768d0eb656fb4",'',
     ''    "ccs": "9c5ddf3acc2a0d2215badeca633263b08e5f82b83a27ab1db29b5793ae562d9e",'',
     ''    "pk": "2c8b347155e91e343a0e2ff8fd65bb70172dd350077d44452c86023c6298fff7",'',
     ''    "vk": "54acbfbc6440461598445fb045e20de6313a51339b409169ec839d7075788176"'',
     ''  }'',
     ''}''])\<close>

definition checked_file ::
    "'fr crypto \<Rightarrow> (string \<Rightarrow> string \<Rightarrow> bytes option) \<Rightarrow> string \<Rightarrow> string \<Rightarrow> string \<Rightarrow> sdk_error + bytes" where
  "checked_file L read directory name expected =
     bindE (ok_or (ArtifactsError ''artifact is unavailable'') (read directory name)) (\<lambda>bs.
     let actual = hex_bytes (sha256_digest L bs)
     in if actual \<noteq> expected then Inl (ArtifactsError ''artifact checksum does not match'') else Inr bs)"

definition artifacts_open ::
    "'fr crypto \<Rightarrow> ('p, 'w, 'k, 'fr) noir \<Rightarrow> (string \<Rightarrow> string \<Rightarrow> bytes option) \<Rightarrow> string \<Rightarrow>
     sdk_error + 'p artifacts" where
  "artifacts_open L N read directory =
     bindE (ok_or (ArtifactsError ''manifest is unavailable'') (read directory ''manifest.json'')) (\<lambda>manifest_bytes.
     if manifest_bytes \<noteq> ascii PINNED_MANIFEST
     then Inl (ArtifactsError ''manifest does not match this SDK'')
     else
     bindE (ok_or (ArtifactsError ''manifest is malformed'') (json_manifest N manifest_bytes)) (\<lambda>manifest.
     if mf_noir manifest \<noteq> NOIR_VERSION then Inl (ArtifactsError ''Noir version does not match'')
     else
     bindE (checked_file L read directory ''transaction.json'' (fl_acir (mf_files manifest))) (\<lambda>program_bytes.
     bindE (ok_or (ArtifactsError ''ACIR is malformed'') (json_program N program_bytes)) (\<lambda>program.
     if program_noir_version N program \<noteq> mf_noir manifest
     then Inl (ArtifactsError ''ACIR Noir version does not match'')
     else if program_hash N program \<noteq> mf_circuit manifest
     then Inl (ArtifactsError ''circuit hash does not match'')
     else
     bindE (checked_file L read directory ''transaction.ccs'' (fl_ccs (mf_files manifest))) (\<lambda>_.
     bindE (checked_file L read directory ''transaction.pk'' (fl_pk (mf_files manifest))) (\<lambda>_.
     bindE (checked_file L read directory ''transaction.vk'' (fl_vk (mf_files manifest))) (\<lambda>_.
     Inr \<lparr>ar_manifest = manifest, ar_program = program\<rparr>)))))))"

section \<open>The witness\<close>

definition input_field :: "'fr crypto \<Rightarrow> field \<Rightarrow> 'fr input_value" where
  "input_field L f = InputField (fr_from_be_mod L f)"

definition input_fields :: "'fr crypto \<Rightarrow> field list \<Rightarrow> 'fr input_value" where
  "input_fields L fs = InputVec (map (input_field L) fs)"

definition pair_list :: "'a pair \<Rightarrow> 'a list" where
  "pair_list p = [fst p, snd p]"

definition input_map :: "'fr crypto \<Rightarrow> plan \<Rightarrow> plan_values \<Rightarrow> 'fr input_map" where
  "input_map L p v =
     (let public = pv_public v;
          spends = pair_list (p_spends p);
          sends = pair_list (p_sends p)
      in Map.empty
        (''root'' \<mapsto> input_field L (spi_root public),
         ''nullifiers'' \<mapsto> input_fields L (pair_list (spi_nullifiers public)),
         ''out_commitments'' \<mapsto> input_fields L (pair_list (spi_commitments public)),
         ''public_amount'' \<mapsto> input_field L (spi_amount public),
         ''ext_data_hash'' \<mapsto> input_field L (spi_hash public),
         ''bound_hash'' \<mapsto> input_field L (spi_hash public),
         ''in_values'' \<mapsto> input_fields L (map (\<lambda>sp. field_of_u64 L (pn_value (sp_note sp))) spends),
         ''asset_id'' \<mapsto> input_field L (p_asset p),
         ''in_random'' \<mapsto> input_fields L (map (\<lambda>sp. expose (pn_random (sp_note sp))) spends),
         ''spending_keys'' \<mapsto> input_fields L (map (\<lambda>sp. expose (own_spend (sp_owner sp))) spends),
         ''viewing_keys'' \<mapsto> input_fields L (map (\<lambda>sp. expose (own_view (sp_owner sp))) spends),
         ''leaf_indices'' \<mapsto>
           input_fields L (map (\<lambda>sp. field_of_u64 L (ucast (mp_index (sp_merkle sp)))) spends),
         ''siblings'' \<mapsto> InputVec (map (\<lambda>sp. input_fields L (mp_siblings (sp_merkle sp))) spends),
         ''out_npks'' \<mapsto> input_fields L (pair_list (pv_output_keys v)),
         ''out_values'' \<mapsto> input_fields L (map (\<lambda>s. field_of_u64 L (sd_value s)) sends)))"

record circuit_witness =
  cw_bytes :: bytes
  cw_public :: sdk_public_inputs

definition witness_build ::
    "'fr crypto \<Rightarrow> ('p, 'w, 'k, 'fr) noir \<Rightarrow> 'p artifacts \<Rightarrow> plan \<Rightarrow> public_flow \<Rightarrow>
     sdk_error + circuit_witness" where
  "witness_build L N artifacts p public =
     bindE (plan_values_of L p public) (\<lambda>values.
     let input = input_map L p values in
     bindE (ok_or WitnessError (abi_encode N (ar_program artifacts) input)) (\<lambda>initial.
     bindE (ok_or WitnessError (execute_program N (ar_program artifacts) initial)) (\<lambda>stack.
     bindE (ok_or WitnessError (serialize_stack N stack)) (\<lambda>bs.
     Inr \<lparr>cw_bytes = bs, cw_public = pv_public values\<rparr>))))"

section \<open>Behaviour\<close>

lemma checked_file_eq_Inr:
  "checked_file L read directory name expected = Inr bs \<longleftrightarrow>
     read directory name = Some bs \<and> hex_bytes (sha256_digest L bs) = expected"
  by (auto simp: checked_file_def Let_def)

lemma artifacts_open_eq_Inr:
  "artifacts_open L N read directory = Inr a \<longleftrightarrow>
     read directory ''manifest.json'' = Some (ascii PINNED_MANIFEST) \<and>
     json_manifest N (ascii PINNED_MANIFEST) = Some (ar_manifest a) \<and>
     mf_noir (ar_manifest a) = NOIR_VERSION \<and>
     (\<exists>bs. checked_file L read directory ''transaction.json'' (fl_acir (mf_files (ar_manifest a))) = Inr bs \<and>
        json_program N bs = Some (ar_program a)) \<and>
     program_noir_version N (ar_program a) = NOIR_VERSION \<and>
     program_hash N (ar_program a) = mf_circuit (ar_manifest a) \<and>
     (\<exists>bs. checked_file L read directory ''transaction.ccs'' (fl_ccs (mf_files (ar_manifest a))) = Inr bs) \<and>
     (\<exists>bs. checked_file L read directory ''transaction.pk'' (fl_pk (mf_files (ar_manifest a))) = Inr bs) \<and>
     (\<exists>bs. checked_file L read directory ''transaction.vk'' (fl_vk (mf_files (ar_manifest a))) = Inr bs)"
  by (cases a) (auto simp: artifacts_open_def)

lemma witness_build_eq_Inr:
  "witness_build L N a p public = Inr w \<longleftrightarrow>
     (\<exists>v initial stack. plan_values_of L p public = Inr v \<and>
        abi_encode N (ar_program a) (input_map L p v) = Some initial \<and>
        execute_program N (ar_program a) initial = Some stack \<and>
        serialize_stack N stack = Some (cw_bytes w) \<and> cw_public w = pv_public v)"
  by (cases w) (auto simp: witness_build_def Let_def)

end
