(* ===== verification/Sdk_Client.thy ===== *)
theory Sdk_Client
  imports Sdk_Worker Sdk_Witness Sdk_Solana
begin

text \<open>
  The client's entry points (\<^verbatim>\<open>client/mod.rs\<close>): opening, proving with one supervised
  worker, transfers and withdrawals. A call of \<open>prove\<close> runs under the worker's mutex, so calls
  are the steps of the transition system \<open>veil_step\<close>.
\<close>

section \<open>State\<close>

record config =
  cf_worker :: string
  cf_artifacts :: string
  cf_timeout :: nat

definition config_new :: "string \<Rightarrow> string \<Rightarrow> config" where
  "config_new worker artifacts =
     \<lparr>cf_worker = worker, cf_artifacts = artifacts, cf_timeout = 120\<rparr>"

definition config_timeout :: "config \<Rightarrow> nat \<Rightarrow> config" where
  "config_timeout c t = c\<lparr>cf_timeout := t\<rparr>"

record 'p veil =
  vl_artifacts :: "'p artifacts"
  vl_artifact_directory :: string
  vl_worker_executable :: string
  vl_timeout :: nat
  vl_worker :: "worker option"

definition veil_open ::
    "'fr crypto \<Rightarrow> ('p, 'w, 'k, 'fr) noir \<Rightarrow> (string \<Rightarrow> string \<Rightarrow> bytes option) \<Rightarrow> config \<Rightarrow>
     sdk_error + 'p veil" where
  "veil_open L N read c =
     bindE (artifacts_open L N read (cf_artifacts c)) (\<lambda>artifacts.
     Inr \<lparr>vl_artifacts = artifacts, vl_artifact_directory = cf_artifacts c,
          vl_worker_executable = cf_worker c, vl_timeout = cf_timeout c, vl_worker = None\<rparr>)"

section \<open>Proving\<close>

text \<open>The worker out of the slot, or a new one.\<close>

definition take_worker :: "'e os \<Rightarrow> codec \<Rightarrow> 'p veil \<Rightarrow> ('e, worker) async" where
  "take_worker os C v s =
     (case vl_worker v of
        Some worker \<Rightarrow> (Returned (Inr worker), s)
      | None \<Rightarrow> worker_start os C (vl_worker_executable v) (vl_artifact_directory v)
                  (mf_id (ar_manifest (vl_artifacts v))) (vl_timeout v) s)"

text \<open>
  A worker that is not put back into the slot is dropped at the return, or with the future of a
  dropped call, which kills the child unless it was stopped before.
\<close>

definition veil_prove ::
    "'fr crypto \<Rightarrow> ('p, 'w, 'k, 'fr) noir \<Rightarrow> 'e os \<Rightarrow> codec \<Rightarrow> plan \<Rightarrow> public_flow \<Rightarrow>
     'p veil \<Rightarrow> 'e sys \<Rightarrow> sdk_proof call \<times> 'p veil \<times> 'e sys" where
  "veil_prove L N os C p public v s =
     (case witness_build L N (vl_artifacts v) p public of
        Inl e \<Rightarrow> (Returned (Inl e), v, s)
      | Inr witness \<Rightarrow>
          let empty = v\<lparr>vl_worker := None\<rparr>
          in case take_worker os C v s of
               (Cancelled, s) \<Rightarrow> (Cancelled, empty, s)
             | (Returned (Inl e), s) \<Rightarrow> (Returned (Inl e), empty, s)
             | (Returned (Inr worker), s) \<Rightarrow>
                 (case worker_prove os C (cw_bytes witness) (vl_timeout v) worker s of
                    (Cancelled, worker, s) \<Rightarrow>
                      (Cancelled, empty, process_drop os (wk_process worker) s)
                  | (Returned (Inl e), worker, s) \<Rightarrow>
                      (Returned (Inl e), empty, process_drop os (wk_process worker) s)
                  | (Returned (Inr (bs, public)), worker, s) \<Rightarrow>
                      if public \<noteq> witness_bytes (cw_public witness)
                      then (Returned (Inl (ProverError ''public witness does not match transaction'')),
                            empty, process_drop os (wk_process worker) s)
                      else (Returned (Inr \<lparr>pr_bytes = bs, pr_public = cw_public witness,
                                           pr_artifact = mf_id (ar_manifest (vl_artifacts v))\<rparr>),
                            v\<lparr>vl_worker := Some worker\<rparr>, s)))"

section \<open>Transfers and withdrawals\<close>

record prepared =
  pp_proof :: sdk_proof
  pp_instruction :: sdk_instruction

text \<open>
  Everything a call uses of its surroundings: the address derivation of the chain, the
  cryptography, Borsh, the random generator, the Noir tool chain, the operating system and the
  message codec.
\<close>

record ('fr, 'g, 'p, 'w, 'k, 'e) surroundings =
  su_runtime :: runtime
  su_crypto :: "'fr crypto"
  su_borsh :: "transact_args \<Rightarrow> bytes option"
  su_fill :: "'g fill"
  su_noir :: "('p, 'w, 'k, 'fr) noir"
  su_os :: "'e os"
  su_codec :: codec

text \<open>The outer \<open>None\<close> is a padding loop that never returns.\<close>

definition veil_prepare ::
    "('fr, 'g, 'p, 'w, 'k, 'e) surroundings \<Rightarrow> 'p veil \<Rightarrow> sdk_pool \<Rightarrow> transaction \<Rightarrow> pubkey \<Rightarrow> i64 \<Rightarrow>
     pubkey \<Rightarrow> 'g \<Rightarrow> 'e sys \<Rightarrow> (prepared call \<times> 'p veil \<times> 'e sys) option" where
  "veil_prepare S v pool t recipient amount payer g s =
     (case plan_of (su_crypto S) (su_fill S) t (sdk_pool_asset pool) g of
        None \<Rightarrow> None
      | Some (Inl e) \<Rightarrow> Some (Returned (Inl e), v, s)
      | Some (Inr (plan, g)) \<Rightarrow>
          Some (case bindE (external_new plan recipient) (\<lambda>external.
                     bindE (pool_bind (su_crypto S) pool external amount) (\<lambda>hash.
                     Inr (external, hash))) of
                  Inl e \<Rightarrow> (Returned (Inl e), v, s)
                | Inr (external, hash) \<Rightarrow>
                    let public = \<lparr>pf_amount = amount, pf_hash = hash\<rparr>
                    in case veil_prove (su_crypto S) (su_noir S) (su_os S) (su_codec S) plan public v s of
                         (Cancelled, v, s) \<Rightarrow> (Cancelled, v, s)
                       | (Returned (Inl e), v, s) \<Rightarrow> (Returned (Inl e), v, s)
                       | (Returned (Inr proof), v, s) \<Rightarrow>
                           (Returned
                             (bindE (pool_instruction (su_runtime S) (su_crypto S) (su_borsh S) pool proof
                                       external amount payer) (\<lambda>instruction.
                              Inr \<lparr>pp_proof = proof, pp_instruction = instruction\<rparr>)), v, s)))"

definition veil_transfer ::
    "('fr, 'g, 'p, 'w, 'k, 'e) surroundings \<Rightarrow> 'p veil \<Rightarrow> sdk_pool \<Rightarrow> transaction \<Rightarrow> pubkey \<Rightarrow> 'g \<Rightarrow>
     'e sys \<Rightarrow> (prepared call \<times> 'p veil \<times> 'e sys) option" where
  "veil_transfer S v pool t payer g s = veil_prepare S v pool t (sdk_pool_address pool) 0 payer g s"

definition veil_withdraw ::
    "('fr, 'g, 'p, 'w, 'k, 'e) surroundings \<Rightarrow> 'p veil \<Rightarrow> sdk_pool \<Rightarrow> transaction \<Rightarrow> withdrawal \<Rightarrow> pubkey \<Rightarrow>
     'g \<Rightarrow> 'e sys \<Rightarrow> (prepared call \<times> 'p veil \<times> 'e sys) option" where
  "veil_withdraw S v pool t wd payer g s =
     (if withdrawal_recipient wd = sdk_pool_address pool
      then Some (Returned (Inl (WithdrawalError ''recipient resolves to the pool vault'')), v, s)
      else veil_prepare S v pool t (withdrawal_recipient wd) (withdrawal_public_amount wd) payer g s)"

section \<open>Supervision\<close>

text \<open>
  \<open>session C artifact pid evs i\<close>: what was done to the child \<open>pid\<close> is its start and greeting
  and then one complete exchange for each of the identifiers 1 to \<open>i\<close>, in order.
\<close>

inductive session :: "codec \<Rightarrow> string \<Rightarrow> nat \<Rightarrow> io_event list \<Rightarrow> u64 \<Rightarrow> bool"
  for C :: codec and artifact :: string and pid :: nat where
  session_open: "greeted C artifact pid evs \<Longrightarrow> session C artifact pid (Spawned pid # evs) 0"
| session_exchange:
    "session C artifact pid evs i \<Longrightarrow> i + 1 \<noteq> 0 \<Longrightarrow> exchange C pid (i + 1) witness result xs \<Longrightarrow>
       session C artifact pid (evs @ xs) (i + 1)"

definition events_of :: "nat \<Rightarrow> io_event list \<Rightarrow> io_event list" where
  "events_of pid evs = filter (\<lambda>ev. event_pid ev = pid) evs"

text \<open>
  The children are supervised: each one that was started is killed or is the child of the worker
  in the slot, and that one is between two exchanges of its session.
\<close>

definition children_ok :: "nat option \<Rightarrow> 'e sys \<Rightarrow> bool" where
  "children_ok live s \<longleftrightarrow>
     (\<forall>ev \<in> set (sys_log s). event_pid ev < sys_spawned s) \<and>
     (\<forall>pid < sys_spawned s. live = Some pid \<or> Killed pid \<in> set (sys_log s))"

definition supervised :: "codec \<Rightarrow> string \<Rightarrow> worker option \<Rightarrow> 'e sys \<Rightarrow> bool" where
  "supervised C artifact slot s \<longleftrightarrow>
     (case slot of
        None \<Rightarrow> children_ok None s
      | Some w \<Rightarrow> \<exists>pid < sys_spawned s. worker_up pid w \<and> children_ok (Some pid) s \<and>
          session C artifact pid (events_of pid (sys_log s)) (wk_next_request_id w))"

lemma events_of_append [simp]: "events_of pid (xs @ ys) = events_of pid xs @ events_of pid ys"
  by (simp add: events_of_def)

lemma traffic_pid: "traffic_event pid ev \<Longrightarrow> event_pid ev = pid"
  by (cases ev) auto

lemma events_of_traffic: "traffic pid evs \<Longrightarrow> events_of pid evs = evs"
  by (induction evs) (auto simp: events_of_def dest: traffic_pid)

lemma traffic_pids: "traffic pid evs \<Longrightarrow> ev \<in> set evs \<Longrightarrow> event_pid ev = pid"
  by (auto simp: list_all_iff dest: traffic_pid)

lemma worker_up_unique: "worker_up pid w \<Longrightarrow> worker_up pid' w \<Longrightarrow> pid' = pid"
  by (simp add: worker_up_def)

lemma events_of_fresh: "\<forall>ev \<in> set evs. event_pid ev < n \<Longrightarrow> n \<le> pid \<Longrightarrow> events_of pid evs = []"
  by (auto simp: events_of_def filter_empty_conv)

text \<open>How the steps of a call change the supervision.\<close>

lemma children_killed:
  assumes "children_ok (Some pid) s" "pid < sys_spawned s" "traffic pid evs"
    and "appended s (evs @ [Killed pid]) t"
  shows "children_ok None t"
  using assms(1,2,4) traffic_pids [OF assms(3)] unfolding children_ok_def appended_def by auto

lemma children_traffic:
  assumes "children_ok live s" "pid < sys_spawned s" "traffic pid evs" "appended s evs t"
  shows "children_ok live t"
  using assms(1,2,4) traffic_pids [OF assms(3)] unfolding children_ok_def appended_def by auto

lemma children_launched:
  assumes "children_ok None s" "\<forall>ev \<in> set evs. event_pid ev = sys_spawned s" "launched s evs t"
  shows "children_ok (Some (sys_spawned s)) t"
  using assms unfolding children_ok_def launched_def by (auto simp: less_Suc_eq)

lemma supervised_silent:
  "supervised C artifact slot s \<Longrightarrow> appended s [] t \<Longrightarrow> supervised C artifact slot t"
  by (simp add: supervised_def appended_def children_ok_def split: option.splits)

lemma supervised_up:
  assumes "supervised C artifact (Some w) s"
  obtains pid where "worker_up pid w" and "pid < sys_spawned s" and "children_ok (Some pid) s"
    and "session C artifact pid (events_of pid (sys_log s)) (wk_next_request_id w)"
  using assms unfolding supervised_def option.case by blast

lemma supervised_killed:
  assumes "supervised C artifact (Some w) s" "worker_up pid w" "traffic pid evs"
    and "appended s (evs @ [Killed pid]) t"
  shows "supervised C artifact None t"
  using assms(1)
proof (rule supervised_up)
  fix q assume "worker_up q w" "q < sys_spawned s" "children_ok (Some q) s"
  moreover from this assms(2) have "q = pid" using worker_up_unique by blast
  ultimately show ?thesis
    using children_killed [OF _ _ assms(3,4)] by (simp add: supervised_def)
qed

lemma supervised_exchanged:
  assumes "supervised C artifact (Some w) s" "worker_up pid w" "traffic pid evs" "appended s evs t"
    and w': "w' = w\<lparr>wk_next_request_id := wk_next_request_id w + 1\<rparr>" "wk_next_request_id w' \<noteq> 0"
    and "exchange C pid (wk_next_request_id w') witness result evs"
  shows "supervised C artifact (Some w') t"
  using assms(1)
proof (rule supervised_up)
  fix q assume q: "worker_up q w" "q < sys_spawned s" "children_ok (Some q) s"
    "session C artifact q (events_of q (sys_log s)) (wk_next_request_id w)"
  then have [simp]: "q = pid" using assms(2) worker_up_unique by blast
  have "session C artifact pid (events_of pid (sys_log s) @ evs) (wk_next_request_id w + 1)"
    using q(4) assms(5-7) by (intro session_exchange) auto
  then have "session C artifact pid (events_of pid (sys_log t)) (wk_next_request_id w')"
    using assms(4) w'(1) events_of_traffic [OF assms(3)] by (simp add: appended_def)
  moreover have "worker_up pid w'" using assms(2) by (simp add: w'(1) worker_up_def)
  moreover have "children_ok (Some pid) t"
    using q children_traffic [OF _ _ assms(3,4)] by simp
  ultimately show ?thesis using q(2) assms(4) by (auto simp: supervised_def appended_def)
qed

lemma supervised_launch_failed:
  assumes "supervised C artifact None s" "traffic (sys_spawned s) evs"
    and "launched s (evs @ [Killed (sys_spawned s)]) t"
  shows "supervised C artifact None t"
proof -
  have "children_ok (Some (sys_spawned s)) t"
    using assms(1) traffic_pids [OF assms(2)]
    by (intro children_launched [OF _ _ assms(3)]) (auto simp: supervised_def)
  then show ?thesis using assms(3) by (auto simp: supervised_def children_ok_def launched_def)
qed

lemma supervised_launched:
  assumes "supervised C artifact None s" "worker_up (sys_spawned s) w" "wk_next_request_id w = 0"
    and "traffic (sys_spawned s) evs" "greeted C artifact (sys_spawned s) evs" "launched s evs t"
  shows "supervised C artifact (Some w) t"
proof -
  let ?pid = "sys_spawned s"
  have "events_of ?pid (sys_log s) = []"
    using assms(1) by (intro events_of_fresh) (auto simp: supervised_def children_ok_def)
  then have "events_of ?pid (sys_log t) = Spawned ?pid # evs"
    using assms(6) events_of_traffic [OF assms(4)]
    by (simp add: launched_def) (simp add: events_of_def)
  moreover have "session C artifact ?pid (Spawned ?pid # evs) 0"
    using assms(5) by (rule session_open)
  moreover have "children_ok (Some ?pid) t"
    using assms(1) traffic_pids [OF assms(4)]
    by (intro children_launched [OF _ _ assms(6)]) (auto simp: supervised_def)
  ultimately show ?thesis
    using assms(2,3,6) by (auto simp: supervised_def launched_def)
qed

lemma process_drop_up: "worker_up pid w \<Longrightarrow> process_drop os (wk_process w) s = kill os pid s"
  by (simp add: worker_up_def process_drop_def)

lemma process_drop_stopped: "pc_child p = None \<Longrightarrow> process_drop os p s = s"
  by (simp add: process_drop_def)

abbreviation artifact_id :: "'p veil \<Rightarrow> string" where
  "artifact_id v \<equiv> mf_id (ar_manifest (vl_artifacts v))"

lemma take_worker_supervised:
  assumes "take_worker os C v s = (r, t)" "supervised C (artifact_id v) (vl_worker v) s"
  shows "supervised C (artifact_id v) (case r of Returned (Inr w) \<Rightarrow> Some w | _ \<Rightarrow> None) t"
proof (cases "vl_worker v")
  case (Some w)
  with assms show ?thesis by (auto simp: take_worker_def)
next
  case None
  with assms(2) have empty: "supervised C (artifact_id v) None s" by simp
  from None assms(1) have "worker_start os C (vl_worker_executable v) (vl_artifact_directory v)
      (artifact_id v) (vl_timeout v) s = (r, t)"
    by (simp add: take_worker_def)
  from worker_start_cases [OF this] show ?thesis
  proof (elim disjE exE conjE)
    fix e assume "r = Returned (Inl e)" "appended s [] t"
    with supervised_silent [OF empty] show ?thesis by simp
  next
    fix evs assume "\<forall>w. r \<noteq> Returned (Inr w)" "traffic (sys_spawned s) evs"
      "launched s (evs @ [Killed (sys_spawned s)]) t"
    with supervised_launch_failed [OF empty] show ?thesis by (simp split: call.split sum.split)
  next
    fix w evs assume "r = Returned (Inr w)" "worker_up (sys_spawned s) w" "wk_next_request_id w = 0"
      "traffic (sys_spawned s) evs" "greeted C (artifact_id v) (sys_spawned s) evs" "launched s evs t"
    with supervised_launched [OF empty] show ?thesis by simp
  qed
qed

text \<open>
  A worker that is stopped or dropped after it was used leaves no child behind, whatever it had
  written and read.
\<close>

lemma supervised_dropped:
  assumes "supervised C artifact (Some w) s" "worker_up pid w" "worker_up pid w'"
    and "traffic pid evs" "appended s evs t"
  shows "supervised C artifact None (process_drop os (wk_process w') t)"
  unfolding process_drop_up [OF assms(3)]
  by (rule supervised_killed [OF assms(1,2,4)]) (rule appended_kill [OF assms(5)])

text \<open>The result of a call: which error left what, and what a proof comes from.\<close>

lemma veil_prove_cases:
  assumes "veil_prove L N os C p public v s = (r, v', t)" "supervised C (artifact_id v) (vl_worker v) s"
  obtains (rejected) e where "witness_build L N (vl_artifacts v) p public = Inl e"
      "r = Returned (Inl e)" "v' = v" "t = s"
  | (failed) w where "witness_build L N (vl_artifacts v) p public = Inr w" "\<forall>x. r \<noteq> Returned (Inr x)"
      "v' = v\<lparr>vl_worker := None\<rparr>" "supervised C (artifact_id v) None t"
  | (proved) w worker pid result evs pre where
      "witness_build L N (vl_artifacts v) p public = Inr w"
      "r = Returned (Inr \<lparr>pr_bytes = fst result, pr_public = cw_public w, pr_artifact = artifact_id v\<rparr>)"
      "v' = v\<lparr>vl_worker := Some worker\<rparr>" "supervised C (artifact_id v) (Some worker) t"
      "worker_up pid worker" "snd result = witness_bytes (cw_public w)"
      "exchange C pid (wk_next_request_id worker) (cw_bytes w) result evs" "sys_log t = pre @ evs"
proof (cases "witness_build L N (vl_artifacts v) p public")
  case (Inl e)
  with assms(1) have "r = Returned (Inl e)" "v' = v" "t = s" by (auto simp: veil_prove_def)
  then show thesis by (rule rejected [OF Inl])
next
  case (Inr w)
  note built = this
  obtain r1 u where tk: "take_worker os C v s = (r1, u)" by fastforce
  note sup = take_worker_supervised [OF tk assms(2)]
  show thesis
  proof (cases "\<exists>wk. r1 = Returned (Inr wk)")
    case False
    with assms(1) built tk have "\<forall>x. r \<noteq> Returned (Inr x)" "v' = v\<lparr>vl_worker := None\<rparr>" "t = u"
      by (auto simp: veil_prove_def Let_def split: call.splits sum.splits)
    with sup False show thesis
      by (intro failed [OF built]) (simp_all split: call.splits sum.splits)
  next
    case True
    then obtain wk where r1: "r1 = Returned (Inr wk)" by blast
    then have up: "supervised C (artifact_id v) (Some wk) u" using sup by simp
    then obtain pid where pid: "worker_up pid wk" by (rule supervised_up)
    obtain r2 wk' u' where wp: "worker_prove os C (cw_bytes w) (vl_timeout v) wk u = (r2, wk', u')"
      by (metis prod_cases3)
    note run = assms(1) [unfolded veil_prove_def built sum.case tk r1 prod.case call.case wp Let_def]
    from worker_prove_cases [OF wp pid] show thesis
    proof (elim disjE exE conjE)
      fix e evs
      assume "r2 = Returned (Inl e)" "pc_child (wk_process wk') = None" "traffic pid evs" "appended u (evs @ [Killed pid]) u'"
      moreover from this run have "r = Returned (Inl e)" "v' = v\<lparr>vl_worker := None\<rparr>" "t = u'"
        by (auto simp: process_drop_stopped)
      ultimately show thesis
        using supervised_killed [OF up pid, of evs t] by (intro failed [OF built]) simp_all
    next
      fix evs assume "r2 = Cancelled" "worker_up pid wk'" "traffic pid evs" "appended u evs u'"
      with run supervised_dropped [OF up pid] show thesis by (intro failed [OF built]) auto
    next
      fix result evs
      assume ok: "r2 = Returned (Inr result)" "wk' = wk\<lparr>wk_next_request_id := wk_next_request_id wk + 1\<rparr>"
        "wk_next_request_id wk' \<noteq> 0" "appended u evs u'" "traffic pid evs"
        "exchange C pid (wk_next_request_id wk') (cw_bytes w) result evs"
      have pid': "worker_up pid wk'" using pid ok(2) by (simp add: worker_up_def)
      show thesis
      proof (cases "snd result = witness_bytes (cw_public w)")
        case True
        with run ok(1) have "r = Returned (Inr \<lparr>pr_bytes = fst result, pr_public = cw_public w, pr_artifact = artifact_id v\<rparr>)"
          "v' = v\<lparr>vl_worker := Some wk'\<rparr>" "t = u'"
          by (auto split: prod.splits)
        with True supervised_exchanged [OF up pid ok(5,4,2,3,6)] pid' ok(4,6) built
        show thesis by (intro proved [of w result wk' pid evs "sys_log u"]) (auto simp: appended_def)
      next
        case False
        with run ok(1) have "\<forall>x. r \<noteq> Returned (Inr x)" "v' = v\<lparr>vl_worker := None\<rparr>"
          "t = process_drop os (wk_process wk') u'"
          by (auto split: prod.splits)
        with supervised_dropped [OF up pid pid' ok(5,4), of os] show thesis
          by (intro failed [OF built]) simp_all
      qed
    qed
  qed
qed

text \<open>
  The transition system of one opened client. Besides a whole call there are the two ways of
  dropping one that \<open>veil_prove\<close> does not show: before it has the mutex, where nothing has
  happened yet, and while it waits for a child that it has killed.
\<close>

inductive veil_step ::
    "'fr crypto \<Rightarrow> ('p, 'w, 'k, 'fr) noir \<Rightarrow> 'e os \<Rightarrow> codec \<Rightarrow> 'p veil \<times> 'e sys \<Rightarrow>
     (plan \<times> public_flow) \<times> sdk_proof call \<Rightarrow> 'p veil \<times> 'e sys \<Rightarrow> bool"
  for L :: "'fr crypto" and N :: "('p, 'w, 'k, 'fr) noir" and os :: "'e os" and C :: codec where
  veil_prove_step:
    "veil_prove L N os C p public v s = (r, v', t) \<Longrightarrow> veil_step L N os C (v, s) ((p, public), r) (v', t)"
| veil_drop_waiting: "veil_step L N os C (v, s) ((p, public), Cancelled) (v, s)"
| veil_drop_stopping:
    "veil_prove L N os C p public v s = (Returned (Inl e), v', t) \<Longrightarrow>
       veil_step L N os C (v, s) ((p, public), Cancelled) (v', t)"

inductive_cases veil_stepE [elim!]: "veil_step L N os C x l y"

definition veil_inv :: "codec \<Rightarrow> 'p artifacts \<Rightarrow> 'p veil \<times> 'e sys \<Rightarrow> bool" where
  "veil_inv C a x \<longleftrightarrow> vl_artifacts (fst x) = a \<and>
     supervised C (mf_id (ar_manifest a)) (vl_worker (fst x)) (snd x)"

interpretation veil: transition_invariant "veil_step L N os C" "veil_inv C a"
  for L :: "'fr crypto" and N :: "('p, 'w, 'k, 'fr) noir" and os :: "'e os" and C :: codec
    and a :: "'p artifacts"
proof unfold_locales
  fix x l y assume inv: "veil_inv C a x" and step: "veil_step L N os C x l y"
  have kept: "veil_inv C a (v', t)"
    if "x = (v, s)" "veil_prove L N os C p public v s = (r, v', t)" for v s p public r v' t
  proof -
    have "supervised C (artifact_id v) (vl_worker v) s" "vl_artifacts v = a"
      using inv by (auto simp: veil_inv_def that(1))
    from that(2) this(1) show ?thesis
      by (rule veil_prove_cases) (use inv in \<open>simp_all add: veil_inv_def that(1)\<close>)
  qed
  from step show "veil_inv C a y"
    by (elim veil_stepE) (use inv kept in auto)
qed

end
