(* ===== verification/Gnark_Prover.thy ===== *)
theory Gnark_Prover
  imports Sdk_Witness
begin

text \<open>
  The worker's prover (\<^verbatim>\<open>prover/veil402-gnark/prover.go\<close>): it opens the artifact bundle and
  turns a witness into a proof that it has verified itself. gnark, Sunspot, \<^verbatim>\<open>encoding/json\<close>
  and the operating system are the record \<open>gnark\<close> over constraint systems \<open>'c\<close>, keys \<open>'k\<close>
  and \<open>'v\<close>, programs \<open>'a\<close>, witnesses \<open>'w\<close>, proofs \<open>'p\<close> and an environment state \<open>'e\<close>,
  which holds the files, the pipes, gnark's randomness and Go's order of iteration over a map: a
  file may change between two reads, and two proofs of one witness may differ.
\<close>

section \<open>Parameters\<close>

record go_files =
  gf_ACIR :: string
  gf_CCS :: string
  gf_PK :: string
  gf_VK :: string

record go_manifest =
  gm_ID :: string
  gm_Noir :: string
  gm_Circuit :: string
  gm_Files :: go_files

text \<open>
  \<open>gk_copy\<close> is what the copying goroutine and the closing of the writer come to: the stream
  that can be read at the other end, and whether the copy and the closing went well.
\<close>

record ('a, 'c, 'k, 'v, 'w, 'p, 'e) gnark =
  gk_file :: "string \<Rightarrow> string \<Rightarrow> 'e \<Rightarrow> bytes option \<times> 'e"
  gk_range :: "(string \<times> string) list \<Rightarrow> 'e \<Rightarrow> (string \<times> string) list \<times> 'e"
  gk_unmarshal :: "bytes \<Rightarrow> go_manifest option"
  gk_load_acir :: "bytes \<Rightarrow> 'a option"
  gk_noir_version :: "'a \<Rightarrow> string"
  gk_hash :: "'a \<Rightarrow> string"
  gk_read_ccs :: "bytes \<Rightarrow> 'c option"
  gk_read_pk :: "bytes \<Rightarrow> 'k option"
  gk_read_vk :: "bytes \<Rightarrow> 'v option"
  gk_pipe :: "'e \<Rightarrow> bool \<times> 'e"
  gk_copy :: "bytes \<Rightarrow> 'e \<Rightarrow> (bytes \<times> bool \<times> bool) \<times> 'e"
  gk_close_reader :: "'e \<Rightarrow> bool \<times> 'e"
  gk_get_witness :: "'a \<Rightarrow> bytes \<Rightarrow> nat \<Rightarrow> 'w option"
  gk_prove :: "'c \<Rightarrow> 'k \<Rightarrow> 'w \<Rightarrow> 'e \<Rightarrow> 'p option \<times> 'e"
  gk_public :: "'w \<Rightarrow> 'w option"
  gk_verify :: "'p \<Rightarrow> 'v \<Rightarrow> 'w \<Rightarrow> bool"
  gk_write_proof :: "'p \<Rightarrow> bytes option"
  gk_write_public :: "'w \<Rightarrow> bytes option"

text \<open>The errors, one for each message of the source and for each call that can fail.\<close>

datatype prover_error =
    FileUnavailable
  | ManifestMismatch
  | ManifestMalformed
  | ChecksumMismatch
  | IdentityMismatch
  | ArtifactMalformed
  | PipeUnavailable
  | WitnessMalformed
  | PipeWriteFailed
  | PipeCloseFailed
  | ProvingFailed
  | PublicFailed
  | VerificationFailed
  | SerializationFailed

type_synonym ('e, 'r) go = "'e \<Rightarrow> (prover_error + 'r) \<times> 'e"

definition bindG :: "('e, 'r) go \<Rightarrow> ('r \<Rightarrow> ('e, 's) go) \<Rightarrow> ('e, 's) go" where
  "bindG m f e = (case m e of (Inl err, e) \<Rightarrow> (Inl err, e) | (Inr x, e) \<Rightarrow> f x e)"

definition liftG :: "prover_error + 'r \<Rightarrow> ('e, 'r) go" where
  "liftG r e = (r, e)"

definition or_fail :: "prover_error \<Rightarrow> ('e \<Rightarrow> 'r option \<times> 'e) \<Rightarrow> ('e, 'r) go" where
  "or_fail err m e = (let (r, e) = m e in (ok_or err r, e))"

lemma bindG_eq_Inr [simp]:
  "bindG m f e = (Inr y, e') \<longleftrightarrow> (\<exists>x e''. m e = (Inr x, e'') \<and> f x e'' = (Inr y, e'))"
  by (auto simp: bindG_def split: prod.splits sum.splits)

lemma liftG_eq_Inr [simp]: "liftG r e = (Inr y, e') \<longleftrightarrow> r = Inr y \<and> e' = e"
  by (auto simp: liftG_def)

lemma or_fail_eq_Inr [simp]: "or_fail err m e = (Inr y, e') \<longleftrightarrow> m e = (Some y, e')"
  by (auto simp: or_fail_def split: prod.splits)

section \<open>Opening the bundle\<close>

text \<open>\<open>go:embed\<close> of the manifest that the client includes as \<open>PINNED_MANIFEST\<close>.\<close>

definition pinnedManifest :: bytes where "pinnedManifest = ascii PINNED_MANIFEST"

definition verifyFile ::
    "('a, 'c, 'k, 'v, 'w, 'p, 'e) gnark \<Rightarrow> 'fr crypto \<Rightarrow> string \<Rightarrow> string \<Rightarrow> string \<Rightarrow> ('e, unit) go" where
  "verifyFile G L directory name expected =
     bindG (or_fail FileUnavailable (gk_file G directory name)) (\<lambda>bs.
     if hex_bytes (sha256_digest L bs) \<noteq> expected then liftG (Inl ChecksumMismatch)
     else liftG (Inr ()))"

fun verify_files ::
    "('a, 'c, 'k, 'v, 'w, 'p, 'e) gnark \<Rightarrow> 'fr crypto \<Rightarrow> string \<Rightarrow> (string \<times> string) list \<Rightarrow> ('e, unit) go" where
  "verify_files G L directory [] = liftG (Inr ())"
| "verify_files G L directory ((name, expected) # paths) =
     bindG (verifyFile G L directory name expected) (\<lambda>_. verify_files G L directory paths)"

definition read_artifact ::
    "('a, 'c, 'k, 'v, 'w, 'p, 'e) gnark \<Rightarrow> string \<Rightarrow> string \<Rightarrow> (bytes \<Rightarrow> 'r option) \<Rightarrow> ('e, 'r) go" where
  "read_artifact G directory name read_from =
     bindG (or_fail FileUnavailable (gk_file G directory name)) (\<lambda>bs.
     liftG (ok_or ArtifactMalformed (read_from bs)))"

record ('a, 'c, 'k, 'v) prover =
  gp_artifact :: string
  gp_program :: 'a
  gp_ccs :: 'c
  gp_pk :: 'k
  gp_vk :: 'v

definition manifest_paths :: "go_manifest \<Rightarrow> (string \<times> string) list" where
  "manifest_paths m =
     [(''transaction.json'', gf_ACIR (gm_Files m)), (''transaction.ccs'', gf_CCS (gm_Files m)),
      (''transaction.pk'', gf_PK (gm_Files m)), (''transaction.vk'', gf_VK (gm_Files m))]"

definition openProver ::
    "('a, 'c, 'k, 'v, 'w, 'p, 'e) gnark \<Rightarrow> 'fr crypto \<Rightarrow> string \<Rightarrow> ('e, ('a, 'c, 'k, 'v) prover) go" where
  "openProver G L directory =
     bindG (or_fail FileUnavailable (gk_file G directory ''manifest.json'')) (\<lambda>manifestBytes.
     if manifestBytes \<noteq> pinnedManifest then liftG (Inl ManifestMismatch)
     else
     bindG (liftG (ok_or ManifestMalformed (gk_unmarshal G manifestBytes))) (\<lambda>m.
     bindG (\<lambda>e. let (paths, e) = gk_range G (manifest_paths m) e in (Inr paths, e)) (\<lambda>paths.
     bindG (verify_files G L directory paths) (\<lambda>_.
     bindG (read_artifact G directory ''transaction.json'' (gk_load_acir G)) (\<lambda>program.
     if gk_noir_version G program \<noteq> gm_Noir m \<or> gk_hash G program \<noteq> gm_Circuit m
     then liftG (Inl IdentityMismatch)
     else
     bindG (read_artifact G directory ''transaction.ccs'' (gk_read_ccs G)) (\<lambda>ccs.
     bindG (read_artifact G directory ''transaction.pk'' (gk_read_pk G)) (\<lambda>pk.
     bindG (read_artifact G directory ''transaction.vk'' (gk_read_vk G)) (\<lambda>vk.
     liftG (Inr \<lparr>gp_artifact = gm_ID m, gp_program = program, gp_ccs = ccs, gp_pk = pk, gp_vk = vk\<rparr>)))))))))"

section \<open>Proving\<close>

definition witnessFromBytes ::
    "('a, 'c, 'k, 'v, 'w, 'p, 'e) gnark \<Rightarrow> 'a \<Rightarrow> bytes \<Rightarrow> nat \<Rightarrow> ('e, 'w) go" where
  "witnessFromBytes G program encoded field e =
     (case gk_pipe G e of
        (False, e) \<Rightarrow> (Inl PipeUnavailable, e)
      | (True, e) \<Rightarrow>
          let ((stream, copied, closed), e) = gk_copy G encoded e;
              result = gk_get_witness G program stream field;
              (reader_closed, e) = gk_close_reader G e
          in (case result of
                None \<Rightarrow> (Inl WitnessMalformed, e)
              | Some w \<Rightarrow>
                  if \<not> copied then (Inl PipeWriteFailed, e)
                  else if \<not> closed then (Inl PipeCloseFailed, e)
                  else if \<not> reader_closed then (Inl PipeCloseFailed, e)
                  else (Inr w, e)))"

definition prover_prove ::
    "('a, 'c, 'k, 'v, 'w, 'p, 'e) gnark \<Rightarrow> ('a, 'c, 'k, 'v) prover \<Rightarrow> bytes \<Rightarrow> ('e, bytes \<times> bytes) go" where
  "prover_prove G p encoded =
     bindG (witnessFromBytes G (gp_program p) encoded bn254_r) (\<lambda>full.
     bindG (or_fail ProvingFailed (gk_prove G (gp_ccs p) (gp_pk p) full)) (\<lambda>proof.
     bindG (liftG (ok_or PublicFailed (gk_public G full))) (\<lambda>public.
     if \<not> gk_verify G proof (gp_vk p) public then liftG (Inl VerificationFailed)
     else
     bindG (liftG (ok_or SerializationFailed (gk_write_proof G proof))) (\<lambda>proofBytes.
     bindG (liftG (ok_or SerializationFailed (gk_write_public G public))) (\<lambda>publicBytes.
     liftG (Inr (proofBytes, publicBytes)))))))"

section \<open>What comes out was verified\<close>

text \<open>A copy that succeeded has put exactly the source into the pipe.\<close>

definition pipe_spec :: "('a, 'c, 'k, 'v, 'w, 'p, 'e) gnark \<Rightarrow> bool" where
  "pipe_spec G \<longleftrightarrow>
     (\<forall>bs e stream closed e'. gk_copy G bs e = ((stream, True, closed), e') \<longrightarrow> stream = bs)"

lemma witnessFromBytes_eq_Inr:
  assumes "pipe_spec G" "witnessFromBytes G program encoded field e = (Inr w, e')"
  shows "gk_get_witness G program encoded field = Some w"
proof -
  obtain stream closed e1 e2 where copy: "gk_copy G encoded e1 = ((stream, True, closed), e2)"
      "gk_get_witness G program stream field = Some w"
    using assms(2)
    by (auto simp: witnessFromBytes_def Let_def split: prod.splits bool.splits option.splits if_splits)
  have "stream = encoded" using assms(1) copy(1) unfolding pipe_spec_def by blast
  with copy(2) show ?thesis by simp
qed

text \<open>
  What the prover stands for: the bytes are those of a proof that gnark accepted under the loaded
  verifying key, for the public part of the witness that Sunspot read from the bytes given.
\<close>

definition verified_for ::
    "('a, 'c, 'k, 'v, 'w, 'p, 'e) gnark \<Rightarrow> ('a, 'c, 'k, 'v) prover \<Rightarrow> bytes \<Rightarrow> bytes \<times> bytes \<Rightarrow> bool" where
  "verified_for G p encoded result \<longleftrightarrow>
     (\<exists>full public proof. gk_get_witness G (gp_program p) encoded bn254_r = Some full \<and>
        gk_public G full = Some public \<and> gk_verify G proof (gp_vk p) public \<and>
        gk_write_proof G proof = Some (fst result) \<and> gk_write_public G public = Some (snd result))"

lemma prover_prove_verified:
  assumes "pipe_spec G" "prover_prove G p encoded e = (Inr result, e')"
  shows "verified_for G p encoded result"
  using assms(2) witnessFromBytes_eq_Inr [OF assms(1)]
  by (fastforce simp: prover_prove_def verified_for_def split: if_splits)

section \<open>What is opened is pinned\<close>

text \<open>
  The files are read twice, once for the checksum and once for the contents, so this is about a
  directory that does not change while it is opened. The order in which Go goes through the
  checksums does not matter.
\<close>

definition steady :: "('a, 'c, 'k, 'v, 'w, 'p, 'e) gnark \<Rightarrow> string \<Rightarrow> (string \<Rightarrow> bytes option) \<Rightarrow> bool" where
  "steady G directory files \<longleftrightarrow>
     (\<forall>name e. fst (gk_file G directory name e) = files name) \<and>
     (\<forall>paths e. set (fst (gk_range G paths e)) = set paths)"

definition pinned_file :: "'fr crypto \<Rightarrow> (string \<Rightarrow> bytes option) \<Rightarrow> string \<Rightarrow> string \<Rightarrow> (bytes \<Rightarrow> 'r option) \<Rightarrow> 'r \<Rightarrow> bool" where
  "pinned_file L files name expected read_from x \<longleftrightarrow>
     (\<exists>bs. files name = Some bs \<and> hex_bytes (sha256_digest L bs) = expected \<and> read_from bs = Some x)"

lemma steady_file: "steady G directory files \<Longrightarrow> gk_file G directory name e = (r, e') \<Longrightarrow> r = files name"
  unfolding steady_def by (metis fst_conv)

lemma verify_files_steady:
  assumes "steady G directory files" "verify_files G L directory paths e = (Inr u, e')"
    and "(name, expected) \<in> set paths"
  shows "\<exists>bs. files name = Some bs \<and> hex_bytes (sha256_digest L bs) = expected"
  using assms(2,3)
proof (induction paths arbitrary: e)
  case (Cons path paths)
  obtain name' expected' where path: "path = (name', expected')" by fastforce
  from Cons.prems(1) obtain bs e1 e2 where
    head: "gk_file G directory name' e = (Some bs, e1)" "hex_bytes (sha256_digest L bs) = expected'"
    and tail: "verify_files G L directory paths e2 = (Inr u, e')"
    by (auto simp: path verifyFile_def split: if_splits)
  have "files name' = Some bs" using steady_file [OF assms(1) head(1)] by simp
  with head(2) tail Cons.prems(2) Cons.IH show ?case by (auto simp: path)
qed simp

lemma read_artifact_steady:
  assumes "steady G directory files" "read_artifact G directory name read_from e = (Inr x, e')"
  shows "\<exists>bs. files name = Some bs \<and> read_from bs = Some x"
proof -
  from assms(2) obtain bs e1 where "gk_file G directory name e = (Some bs, e1)" "read_from bs = Some x"
    by (auto simp: read_artifact_def)
  with steady_file [OF assms(1) this(1)] show ?thesis by metis
qed

lemma openProver_pinned:
  assumes st: "steady G directory files" and opened: "openProver G L directory e = (Inr p, e')"
  obtains m where "gk_unmarshal G pinnedManifest = Some m" "gp_artifact p = gm_ID m"
    "gk_noir_version G (gp_program p) = gm_Noir m" "gk_hash G (gp_program p) = gm_Circuit m"
    "pinned_file L files ''transaction.json'' (gf_ACIR (gm_Files m)) (gk_load_acir G) (gp_program p)"
    "pinned_file L files ''transaction.ccs'' (gf_CCS (gm_Files m)) (gk_read_ccs G) (gp_ccs p)"
    "pinned_file L files ''transaction.pk'' (gf_PK (gm_Files m)) (gk_read_pk G) (gp_pk p)"
    "pinned_file L files ''transaction.vk'' (gf_VK (gm_Files m)) (gk_read_vk G) (gp_vk p)"
proof -
  from opened obtain m paths e1 e2 e3 e4 e5 e6 e7 where m: "gk_unmarshal G pinnedManifest = Some m"
    and range: "gk_range G (manifest_paths m) e1 = (paths, e2)"
    and checked: "verify_files G L directory paths e2 = (Inr (), e3)"
    and loaded: "read_artifact G directory ''transaction.json'' (gk_load_acir G) e3 = (Inr (gp_program p), e4)"
      "read_artifact G directory ''transaction.ccs'' (gk_read_ccs G) e4 = (Inr (gp_ccs p), e5)"
      "read_artifact G directory ''transaction.pk'' (gk_read_pk G) e5 = (Inr (gp_pk p), e6)"
      "read_artifact G directory ''transaction.vk'' (gk_read_vk G) e6 = (Inr (gp_vk p), e7)"
    and names: "gp_artifact p = gm_ID m" "gk_noir_version G (gp_program p) = gm_Noir m"
      "gk_hash G (gp_program p) = gm_Circuit m"
    by (auto simp: openProver_def split: if_splits prod.splits)
  have "set paths = set (manifest_paths m)" using st range unfolding steady_def by (metis fst_conv)
  then have digest: "\<exists>bs. files name = Some bs \<and> hex_bytes (sha256_digest L bs) = expected"
    if "(name, expected) \<in> set (manifest_paths m)" for name expected
    using verify_files_steady [OF st checked] that by blast
  have "pinned_file L files ''transaction.json'' (gf_ACIR (gm_Files m)) (gk_load_acir G) (gp_program p)"
    "pinned_file L files ''transaction.ccs'' (gf_CCS (gm_Files m)) (gk_read_ccs G) (gp_ccs p)"
    "pinned_file L files ''transaction.pk'' (gf_PK (gm_Files m)) (gk_read_pk G) (gp_pk p)"
    "pinned_file L files ''transaction.vk'' (gf_VK (gm_Files m)) (gk_read_vk G) (gp_vk p)"
    using digest [of "''transaction.json''"] digest [of "''transaction.ccs''"]
      digest [of "''transaction.pk''"] digest [of "''transaction.vk''"]
      loaded [THEN read_artifact_steady [OF st]]
    by (auto simp: manifest_paths_def pinned_file_def)
  with m names show thesis by (rule that)
qed

end
