(* ===== verification/Gnark_Worker.thy ===== *)
theory Gnark_Worker
  imports Sdk_Client Gnark_Prover
begin

text \<open>
  The other end of the client's pipes: the messages of the worker's protocol
  (\<^verbatim>\<open>prover/veil402-gnark/protocol.go\<close>) and the transcript of a session, which answers one
  request after the other and is a function of the input; \<open>Gnark_Goroutines\<close> has the two
  goroutines that produce it. The prover is the parameter \<open>P\<close>, a computation over the environment
  of \<open>Gnark_Prover\<close>, whose \<open>prover_prove\<close> it stands for. Go's protobuf runtime is the record
  \<open>proto\<close>.
\<close>

section \<open>Messages\<close>

definition protocolVersion :: u32 where "protocolVersion = 1"
definition maxRequestBytes :: nat where "maxRequestBytes = 2 * 2 ^ 20"
definition maxResponseBytes :: nat where "maxResponseBytes = 64 * 2 ^ 10"

record proto =
  unmarshal_request :: "bytes \<Rightarrow> request option"
  marshal_ready :: "ready \<Rightarrow> bytes option"
  marshal_response :: "response \<Rightarrow> bytes option"

datatype go_error =
    Eof
  | UnexpectedEof
  | RequestTooLarge
  | BadMessage
  | MarshalFailed
  | ResponseTooLarge
  | UnexpectedRequestId
  | RequestIdExhausted
  | StdoutFailed

type_synonym 'e proving = "bytes \<Rightarrow> ('e, bytes \<times> bytes) go"

text \<open>\<open>io.ReadFull\<close>: nothing read at all is \<open>EOF\<close>, a short read \<open>ErrUnexpectedEOF\<close>.\<close>

definition read_full :: "nat \<Rightarrow> bytes \<Rightarrow> go_error + bytes \<times> bytes" where
  "read_full n input =
     (if n \<le> length input then Inr (take n input, drop n input)
      else if input = [] then Inl Eof else Inl UnexpectedEof)"

definition readMessage :: "(bytes \<Rightarrow> 'm option) \<Rightarrow> bytes \<Rightarrow> go_error + 'm \<times> bytes" where
  "readMessage unmarshal input =
     bindE (read_full 4 input) (\<lambda>(header, rest).
     let size = be_val header in
     if size > maxRequestBytes then Inl RequestTooLarge
     else bindE (read_full size rest) (\<lambda>(body, rest).
          bindE (ok_or BadMessage (unmarshal body)) (\<lambda>message.
          Inr (message, rest))))"

definition writeMessage :: "bytes option \<Rightarrow> go_error + bytes" where
  "writeMessage marshalled =
     bindE (ok_or MarshalFailed marshalled) (\<lambda>body.
     if length body > maxResponseBytes then Inl ResponseTooLarge
     else Inr (be_bytes 4 (length body) @ body))"

section \<open>The loop\<close>

definition go_prove :: "'e proving \<Rightarrow> request \<Rightarrow> 'e \<Rightarrow> response \<times> 'e" where
  "go_prove P rq e =
     (case P (rq_witness rq) e of
        (Inl _, e) \<Rightarrow> (\<lparr>rs_id = rq_id rq, rs_proof = [], rs_public = [], rs_failure = 1\<rparr>, e)
      | (Inr (proof, public), e) \<Rightarrow>
          (\<lparr>rs_id = rq_id rq, rs_proof = proof, rs_public = public, rs_failure = 0\<rparr>, e))"

lemma readMessage_shorter:
  "readMessage unmarshal input = Inr (m, rest) \<Longrightarrow> length rest < length input"
  by (auto simp: readMessage_def read_full_def Let_def split: if_splits)

function serve_requests :: "proto \<Rightarrow> 'e proving \<Rightarrow> u64 \<Rightarrow> bytes \<Rightarrow> 'e \<Rightarrow> bytes \<times> go_error" where
  "serve_requests W P next input e =
     (case readMessage (unmarshal_request W) input of
        Inl err \<Rightarrow> ([], err)
      | Inr (request, rest) \<Rightarrow>
          if rq_id request \<noteq> next then ([], UnexpectedRequestId)
          else if next + 1 = 0 then ([], RequestIdExhausted)
          else
            let (response, e) = go_prove P request e
            in case writeMessage (marshal_response W response) of
              Inl err \<Rightarrow> ([], err)
            | Inr output \<Rightarrow>
                let (outputs, err) = serve_requests W P (next + 1) rest e in (output @ outputs, err))"
  by pat_completeness auto
termination
  by (relation "measure (\<lambda>(W, P, next, input, e). length input)") (auto dest: readMessage_shorter)

declare serve_requests.simps [simp del]

definition serve :: "proto \<Rightarrow> 'e proving \<Rightarrow> string \<Rightarrow> bytes \<Rightarrow> 'e \<Rightarrow> bytes \<times> go_error" where
  "serve W P artifact input e =
     (case writeMessage (marshal_ready W \<lparr>rd_protocol = protocolVersion, rd_artifact = artifact\<rparr>) of
        Inl err \<Rightarrow> ([], err)
      | Inr output \<Rightarrow> let (outputs, err) = serve_requests W P 1 input e in (output @ outputs, err))"

section \<open>The two ends together\<close>

text \<open>Both ends speak protobuf: what one side encodes the other side decodes.\<close>

definition proto_agrees :: "codec \<Rightarrow> proto \<Rightarrow> bool" where
  "proto_agrees C W \<longleftrightarrow>
     (\<forall>rq body. encode_request C rq = Some body \<longrightarrow> unmarshal_request W body = Some rq) \<and>
     (\<forall>rd body. marshal_ready W rd = Some body \<longrightarrow> decode_ready C body = Some rd) \<and>
     (\<forall>rs body. marshal_response W rs = Some body \<longrightarrow> decode_response C body = Some rs)"

text \<open>What the client wrote to a child.\<close>

fun written :: "nat \<Rightarrow> io_event list \<Rightarrow> bytes" where
  "written pid [] = []"
| "written pid (Wrote p bs # evs) = (if p = pid then bs else []) @ written pid evs"
| "written pid (_ # evs) = written pid evs"

lemma written_append [simp]: "written pid (xs @ ys) = written pid xs @ written pid ys"
  by (induction pid xs rule: written.induct) simp_all

lemma written_framed [simp]: "written pid (framed pid body) = be_bytes 4 (length body) @ body"
  by (simp add: framed_def)

lemma readMessage_frame:
  assumes "length body \<le> maxRequestBytes" "unmarshal body = Some m"
  shows "readMessage unmarshal ((be_bytes 4 (length body) @ body) @ rest) = Inr (m, rest)"
proof -
  have "length body < 256 ^ 4" using assms(1) by (simp add: maxRequestBytes_def)
  then have "be_val (be_bytes 4 (length body)) = length body" by simp
  with assms show ?thesis by (simp add: readMessage_def read_full_def Let_def del: be_val_be_bytes)
qed

text \<open>A successful \<open>channel_send\<close> is read back by the worker.\<close>

lemma send_read:
  assumes "proto_agrees C W" "channel_send os ch (encode_request C rq) s = (Done (), t)"
  shows "\<exists>evs. appended s evs t \<and> traffic (ch_input ch) evs \<and>
    readMessage (unmarshal_request W) (written (ch_input ch) evs @ rest) = Inr (rq, rest)"
proof -
  from aio_specD [OF aio_send assms(2)] obtain evs body where
    evs: "appended s evs t" "traffic (ch_input ch) evs" "encode_request C rq = Some body"
      "length body \<le> MAX_REQUEST_BYTES" "evs = framed (ch_input ch) body"
    by auto
  have "unmarshal_request W body = Some rq" using assms(1) evs(3) by (simp add: proto_agrees_def)
  with evs readMessage_frame [of body "unmarshal_request W" rq rest] show ?thesis
    by (intro exI [of _ evs]) (simp add: MAX_REQUEST_BYTES_def maxRequestBytes_def)
qed

text \<open>The frames of consecutive requests, and the frames of their responses.\<close>

fun request_frames :: "codec \<Rightarrow> u64 \<Rightarrow> bytes list \<Rightarrow> bytes option" where
  "request_frames C i [] = Some []"
| "request_frames C i (w # ws) =
     (case encode_request C \<lparr>rq_id = i, rq_witness = w\<rparr> of
        None \<Rightarrow> None
      | Some body \<Rightarrow>
          if length body > MAX_REQUEST_BYTES then None
          else map_option ((@) (be_bytes 4 (length body) @ body)) (request_frames C (i + 1) ws))"

fun response_frames :: "proto \<Rightarrow> 'e proving \<Rightarrow> u64 \<Rightarrow> bytes list \<Rightarrow> 'e \<Rightarrow> bytes option" where
  "response_frames W P i [] e = Some []"
| "response_frames W P i (w # ws) e =
     (let (response, e) = go_prove P \<lparr>rq_id = i, rq_witness = w\<rparr> e
      in case writeMessage (marshal_response W response) of
           Inl err \<Rightarrow> None
         | Inr output \<Rightarrow> map_option ((@) output) (response_frames W P (i + 1) ws e))"

lemma serve_requests_Eof: "serve_requests W P next [] e = ([], Eof)"
  by (subst serve_requests.simps) (simp add: readMessage_def read_full_def)

lemma serve_answers:
  assumes "proto_agrees C W" "request_frames C i ws = Some inp" "response_frames W P i ws e = Some outp"
    and "unat i + length ws < 2 ^ 64"
  shows "serve_requests W P i inp e = (outp, Eof)"
  using assms(2-4)
proof (induction ws arbitrary: i inp outp e)
  case Nil
  then show ?case by (simp add: serve_requests_Eof)
next
  case (Cons w ws)
  let ?rq = "\<lparr>rq_id = i, rq_witness = w\<rparr>"
  obtain body inp' where body: "encode_request C ?rq = Some body" "length body \<le> MAX_REQUEST_BYTES"
      "request_frames C (i + 1) ws = Some inp'" "inp = (be_bytes 4 (length body) @ body) @ inp'"
    using Cons.prems(1) by (auto split: option.splits if_splits)
  obtain rs e' where rs: "go_prove P ?rq e = (rs, e')" by fastforce
  obtain out outp' where out: "writeMessage (marshal_response W rs) = Inr out"
      "response_frames W P (i + 1) ws e' = Some outp'" "outp = out @ outp'"
    using Cons.prems(2) rs by (auto split: sum.splits)
  have next_id: "i + 1 \<noteq> 0" and small: "unat (i + 1) + length ws < 2 ^ 64"
  proof -
    have lt: "unat i + 1 < 2 ^ 64" using Cons.prems(3) by simp
    then have "unat (i + 1) = unat i + 1" by (simp add: unat_word_ariths)
    then show "i + 1 \<noteq> 0" and "unat (i + 1) + length ws < 2 ^ 64" using Cons.prems(3) by auto
  qed
  have "readMessage (unmarshal_request W) inp = Inr (?rq, inp')"
    unfolding body(4) using assms(1) body(1,2)
    by (intro readMessage_frame) (simp_all add: proto_agrees_def MAX_REQUEST_BYTES_def maxRequestBytes_def)
  then show ?case
    using Cons.IH [OF body(3) out(2) small] next_id out(1,3) rs
    by (subst serve_requests.simps) simp
qed

text \<open>What a client's session wrote are the frames of the requests 1, 2, and so on.\<close>

lemma request_frames_snoc:
  assumes "request_frames C i ws = Some inp"
    and "encode_request C \<lparr>rq_id = i + of_nat (length ws), rq_witness = w\<rparr> = Some body"
    and "length body \<le> MAX_REQUEST_BYTES"
  shows "request_frames C i (ws @ [w]) = Some (inp @ be_bytes 4 (length body) @ body)"
  using assms
proof (induction ws arbitrary: i inp)
  case (Cons v ws)
  have "i + 1 + of_nat (length ws) = i + of_nat (length (v # ws))" by simp
  with Cons.prems(2) have "encode_request C \<lparr>rq_id = i + 1 + of_nat (length ws), rq_witness = w\<rparr> = Some body"
    by (simp only:)
  with Cons.prems(1,3) Cons.IH [of "i + 1"] show ?case by (auto split: option.splits if_splits)
qed simp

lemma session_written:
  assumes "session C artifact pid evs i"
  shows "\<exists>ws. length ws = unat i \<and> request_frames C 1 ws = Some (written pid evs)"
  using assms
proof (induction rule: session.induct)
  case (session_open evs)
  then show ?case by (auto simp: greeted_def)
next
  case (session_exchange evs i witness result xs)
  then obtain ws where ws: "length ws = unat i" "request_frames C 1 ws = Some (written pid evs)" by blast
  from session_exchange.hyps(3) obtain body bs where
    body: "encode_request C \<lparr>rq_id = i + 1, rq_witness = witness\<rparr> = Some body"
      "length body \<le> MAX_REQUEST_BYTES" "xs = framed pid body @ [Received pid bs]"
    unfolding exchange_def by blast
  have "unat (i + 1) = Suc (unat i)"
    using unatSuc [of i] session_exchange.hyps(2) by (simp add: add.commute)
  moreover have "1 + of_nat (length ws) = i + 1" by (simp add: ws(1))
  with body(1) have "encode_request C \<lparr>rq_id = 1 + of_nat (length ws), rq_witness = witness\<rparr> = Some body"
    by (simp only:)
  note request_frames_snoc [OF ws(2) this body(2)]
  ultimately show ?case
    using ws(1) body(3) by (intro exI [of _ "ws @ [witness]"]) simp
qed

end
