(* ===== verification/Gnark_Goroutines.thy ===== *)
theory Gnark_Goroutines
  imports Gnark_Worker
begin

text \<open>
  The worker process as it runs (\<^verbatim>\<open>main.go\<close>, \<^verbatim>\<open>serve\<close> and
  \<^verbatim>\<open>readRequests\<close> of \<^verbatim>\<open>protocol.go\<close>): the goroutine that reads requests and
  the one that serves them, with the unbuffered channel \<open>requests\<close> and the channel \<open>failed\<close> of
  one place between them. Any goroutine may move at any time, the client's bytes arrive in any
  pieces, output leaves in any pieces, a write may fail, and the reader ends the process at the
  end of the input, whatever the other goroutine is doing. The transcript of \<open>Gnark_Worker\<close> is
  what such a process writes.
\<close>

section \<open>State\<close>

datatype reader_pc = NotStarted | ReadNext | Offering request | ReaderDone

text \<open>
  \<open>Writing left next\<close>: the message has \<open>left\<close> to go out, and \<open>next\<close> is the identifier
  expected after it. \<open>Stopped\<close>: \<open>serve\<close> has returned the error.
\<close>

datatype serve_pc = Writing bytes u64 | Selecting u64 | Proving request u64 | Stopped go_error

record 'e worker_state =
  gw_stdin :: bytes
  gw_closed :: bool
  gw_unread :: bytes
  gw_reader :: reader_pc
  gw_failed :: "go_error option"
  gw_serve :: serve_pc
  gw_env :: 'e
  gw_stdout :: bytes
  gw_exit :: "nat option"

definition serve_start :: "proto \<Rightarrow> string \<Rightarrow> 'e \<Rightarrow> 'e worker_state" where
  "serve_start W artifact e =
     \<lparr>gw_stdin = [], gw_closed = False, gw_unread = [], gw_reader = NotStarted, gw_failed = None,
      gw_serve =
        (case writeMessage (marshal_ready W \<lparr>rd_protocol = protocolVersion, rd_artifact = artifact\<rparr>) of
           Inl err \<Rightarrow> Stopped err
         | Inr output \<Rightarrow> Writing output 1),
      gw_env = e, gw_stdout = [], gw_exit = None\<rparr>"

text \<open>\<open>main\<close>: the exit code, or the process with its prover.\<close>

definition go_main ::
    "('a, 'c, 'k, 'v, 'w, 'p, 'e) gnark \<Rightarrow> 'fr crypto \<Rightarrow> proto \<Rightarrow> string \<Rightarrow> 'e \<Rightarrow>
     nat + ('a, 'c, 'k, 'v) prover \<times> 'e worker_state" where
  "go_main G L W artifacts e =
     (if artifacts = [] then Inl 2
      else case openProver G L artifacts e of
          (Inl err, e) \<Rightarrow> Inl 1
        | (Inr p, e) \<Rightarrow> Inr (p, serve_start W (gp_artifact p) e))"

section \<open>Steps\<close>

datatype worker_event =
    Arrives bytes | Closes
  | Reads | ReadFails | Takes | Fails | Proves | Emits bytes | Finishes | EmitFails | Exits nat

fun by_client :: "worker_event \<Rightarrow> bool" where
  "by_client (Arrives bs) = True"
| "by_client Closes = True"
| "by_client _ = False"

text \<open>A request that was received: its identifier is checked before it is proved.\<close>

definition take_request :: "u64 \<Rightarrow> request \<Rightarrow> serve_pc" where
  "take_request next request =
     (if rq_id request \<noteq> next then Stopped UnexpectedRequestId
      else if next + 1 = 0 then Stopped RequestIdExhausted
      else Proving request (next + 1))"

definition respond :: "proto \<Rightarrow> u64 \<Rightarrow> response \<Rightarrow> serve_pc" where
  "respond W next response =
     (case writeMessage (marshal_response W response) of
        Inl err \<Rightarrow> Stopped err
      | Inr output \<Rightarrow> Writing output next)"

text \<open>
  A message cannot be read while it is incomplete and the pipe is open. The reader starts when the
  greeting is out.
\<close>

definition read_blocks :: "bool \<Rightarrow> go_error \<Rightarrow> bool" where
  "read_blocks closed err \<longleftrightarrow> \<not> closed \<and> (err = Eof \<or> err = UnexpectedEof)"

inductive gw_step :: "proto \<Rightarrow> 'e proving \<Rightarrow> 'e worker_state \<Rightarrow> worker_event \<Rightarrow> 'e worker_state \<Rightarrow> bool"
  for W :: proto and P :: "'e proving" where
  gw_arrives:
    "gw_exit x = None \<Longrightarrow> \<not> gw_closed x \<Longrightarrow>
       gw_step W P x (Arrives bs) (x\<lparr>gw_stdin := gw_stdin x @ bs, gw_unread := gw_unread x @ bs\<rparr>)"
| gw_closes: "gw_exit x = None \<Longrightarrow> gw_step W P x Closes (x\<lparr>gw_closed := True\<rparr>)"
| gw_reads:
    "gw_exit x = None \<Longrightarrow> gw_reader x = ReadNext \<Longrightarrow>
     readMessage (unmarshal_request W) (gw_unread x) = Inr (request, rest) \<Longrightarrow>
       gw_step W P x Reads (x\<lparr>gw_unread := rest, gw_reader := Offering request\<rparr>)"
| gw_parent_gone:
    "gw_exit x = None \<Longrightarrow> gw_reader x = ReadNext \<Longrightarrow>
     readMessage (unmarshal_request W) (gw_unread x) = Inl Eof \<Longrightarrow> gw_closed x \<Longrightarrow>
       gw_step W P x (Exits 0) (x\<lparr>gw_reader := ReaderDone, gw_exit := Some 0\<rparr>)"
| gw_read_fails:
    "gw_exit x = None \<Longrightarrow> gw_reader x = ReadNext \<Longrightarrow>
     readMessage (unmarshal_request W) (gw_unread x) = Inl err \<Longrightarrow> err \<noteq> Eof \<Longrightarrow>
     \<not> read_blocks (gw_closed x) err \<Longrightarrow>
       gw_step W P x ReadFails (x\<lparr>gw_reader := ReaderDone, gw_failed := Some err\<rparr>)"
| gw_takes:
    "gw_exit x = None \<Longrightarrow> gw_reader x = Offering request \<Longrightarrow> gw_serve x = Selecting next \<Longrightarrow>
       gw_step W P x Takes (x\<lparr>gw_reader := ReadNext, gw_serve := take_request next request\<rparr>)"
| gw_fails:
    "gw_exit x = None \<Longrightarrow> gw_failed x = Some err \<Longrightarrow> gw_serve x = Selecting next \<Longrightarrow>
       gw_step W P x Fails (x\<lparr>gw_failed := None, gw_serve := Stopped err\<rparr>)"
| gw_proves:
    "gw_exit x = None \<Longrightarrow> gw_serve x = Proving request next \<Longrightarrow> go_prove P request (gw_env x) = (response, e) \<Longrightarrow>
       gw_step W P x Proves (x\<lparr>gw_env := e, gw_serve := respond W next response\<rparr>)"
| gw_emits:
    "gw_exit x = None \<Longrightarrow> gw_serve x = Writing (bs @ left) next \<Longrightarrow> bs \<noteq> [] \<Longrightarrow>
       gw_step W P x (Emits bs) (x\<lparr>gw_stdout := gw_stdout x @ bs, gw_serve := Writing left next\<rparr>)"
| gw_emit_fails:
    "gw_exit x = None \<Longrightarrow> gw_serve x = Writing left next \<Longrightarrow> left \<noteq> [] \<Longrightarrow>
       gw_step W P x EmitFails (x\<lparr>gw_serve := Stopped StdoutFailed\<rparr>)"
| gw_finishes:
    "gw_exit x = None \<Longrightarrow> gw_serve x = Writing [] next \<Longrightarrow>
       gw_step W P x Finishes
         (x\<lparr>gw_reader := (if gw_reader x = NotStarted then ReadNext else gw_reader x),
            gw_serve := Selecting next\<rparr>)"
| gw_returns:
    "gw_exit x = None \<Longrightarrow> gw_serve x = Stopped err \<Longrightarrow>
       gw_step W P x (Exits 1) (x\<lparr>gw_exit := Some 1\<rparr>)"

inductive_cases gw_stepE: "gw_step W P x l y"

section \<open>The transcript still to come\<close>

lemma readMessage_more:
  "readMessage u input = Inr (m, rest) \<Longrightarrow> readMessage u (input @ f) = Inr (m, rest @ f)"
  by (auto simp: readMessage_def read_full_def Let_def split: if_splits)

lemma readMessage_fails_more:
  "readMessage u input = Inl err \<Longrightarrow> err \<noteq> Eof \<Longrightarrow> err \<noteq> UnexpectedEof \<Longrightarrow>
     readMessage u (input @ f) = Inl err"
  by (auto simp: readMessage_def read_full_def Let_def bindE_eq_Inl ok_or_eq_Inl split: if_splits)

definition serve_one :: "proto \<Rightarrow> 'e proving \<Rightarrow> u64 \<Rightarrow> request \<Rightarrow> bytes \<Rightarrow> 'e \<Rightarrow> bytes \<times> go_error" where
  "serve_one W P next request rest e =
     (case take_request next request of
        Proving request next \<Rightarrow>
          (let (response, e) = go_prove P request e
           in case writeMessage (marshal_response W response) of
                Inl err \<Rightarrow> ([], err)
              | Inr output \<Rightarrow> apfst ((@) output) (serve_requests W P next rest e))
      | Stopped err \<Rightarrow> ([], err)
      | _ \<Rightarrow> ([], Eof))"

lemma serve_requests_eq:
  "serve_requests W P next input e =
     (case readMessage (unmarshal_request W) input of
        Inl err \<Rightarrow> ([], err)
      | Inr (request, rest) \<Rightarrow> serve_one W P next request rest e)"
  by (subst serve_requests.simps)
    (auto simp: serve_one_def take_request_def apfst_def map_prod_def Let_def
      split: sum.splits prod.splits)

text \<open>What the reader will bring, and what is still to be written.\<close>

definition awaited :: "proto \<Rightarrow> 'e proving \<Rightarrow> 'e worker_state \<Rightarrow> u64 \<Rightarrow> 'e \<Rightarrow> bytes \<Rightarrow> bytes \<times> go_error" where
  "awaited W P x next e future =
     (case gw_reader x of
        ReaderDone \<Rightarrow> ([], case gw_failed x of None \<Rightarrow> Eof | Some err \<Rightarrow> err)
      | Offering request \<Rightarrow> serve_one W P next request (gw_unread x @ future) e
      | _ \<Rightarrow> serve_requests W P next (gw_unread x @ future) e)"

definition remaining :: "proto \<Rightarrow> 'e proving \<Rightarrow> 'e worker_state \<Rightarrow> bytes \<Rightarrow> bytes \<times> go_error" where
  "remaining W P x future =
     (case gw_serve x of
        Writing left next \<Rightarrow> apfst ((@) left) (awaited W P x next (gw_env x) future)
      | Selecting next \<Rightarrow> awaited W P x next (gw_env x) future
      | Proving request next \<Rightarrow>
          (let (response, e) = go_prove P request (gw_env x)
           in case writeMessage (marshal_response W response) of
                Inl err \<Rightarrow> ([], err)
              | Inr output \<Rightarrow> apfst ((@) output) (awaited W P x next e future))
      | Stopped err \<Rightarrow> ([], err))"

text \<open>
  No step changes what is written altogether: what is out, then what remains. Only a failing write
  cuts it short. After the end of the input there is no future.
\<close>

definition admissible :: "'e worker_state \<Rightarrow> bytes \<Rightarrow> bool" where
  "admissible x future \<longleftrightarrow> (gw_closed x \<longrightarrow> future = [])"

fun arriving :: "worker_event \<Rightarrow> bytes" where
  "arriving (Arrives bs) = bs"
| "arriving _ = []"

fun emitted :: "worker_event \<Rightarrow> bytes" where
  "emitted (Emits bs) = bs"
| "emitted _ = []"

definition reader_ok :: "'e worker_state \<Rightarrow> bool" where
  "reader_ok x \<longleftrightarrow> (gw_failed x = None \<or> gw_reader x = ReaderDone \<and> gw_failed x \<noteq> Some Eof)"

lemma apfst_append [simp]:
  "apfst ((@) []) z = z"
  "apfst ((@) xs) (apfst ((@) ys) z) = apfst ((@) (xs @ ys)) z"
  by (cases z; simp)+

lemma remaining_cong:
  assumes "gw_serve y = gw_serve x" "gw_env y = gw_env x"
    and "\<And>next e. awaited W P x next e f = awaited W P y next e f'"
  shows "remaining W P x f = remaining W P y f'"
  using assms by (auto simp: remaining_def split: serve_pc.split sum.split prod.split)

lemma step_remaining:
  assumes "gw_step W P x l y" "reader_ok x" "admissible y future" "l \<noteq> EmitFails"
  shows "remaining W P x (arriving l @ future) = apfst ((@) (emitted l)) (remaining W P y future)"
  using assms(1)
proof (cases rule: gw_step.cases)
  case (gw_arrives bs)
  have "remaining W P x (bs @ future) = remaining W P y future"
    by (rule remaining_cong) (simp_all add: gw_arrives awaited_def split: reader_pc.split)
  then show ?thesis by (simp add: gw_arrives(1))
next
  case gw_closes
  have "remaining W P x future = remaining W P y future"
    by (rule remaining_cong) (simp_all add: gw_closes awaited_def split: reader_pc.split)
  then show ?thesis by (simp add: gw_closes(1))
next
  case (gw_reads request rest)
  have "remaining W P x future = remaining W P y future"
    using readMessage_more [OF gw_reads(5)]
    by (intro remaining_cong) (simp_all add: gw_reads awaited_def serve_requests_eq)
  then show ?thesis by (simp add: gw_reads(1))
next
  case gw_parent_gone
  have "future = []" using assms(3) gw_parent_gone by (simp add: admissible_def)
  moreover have "gw_failed x = None" using assms(2) gw_parent_gone(4) by (simp add: reader_ok_def)
  ultimately have "remaining W P x future = remaining W P y future"
    by (intro remaining_cong) (simp_all add: gw_parent_gone awaited_def serve_requests_eq)
  then show ?thesis by (simp add: gw_parent_gone(1))
next
  case (gw_read_fails err)
  have "readMessage (unmarshal_request W) (gw_unread x @ future) = Inl err"
    using assms(3) gw_read_fails readMessage_fails_more [OF gw_read_fails(5,6)]
    by (cases "err = UnexpectedEof") (auto simp: read_blocks_def admissible_def)
  then have "remaining W P x future = remaining W P y future"
    by (intro remaining_cong) (simp_all add: gw_read_fails awaited_def serve_requests_eq)
  then show ?thesis by (simp add: gw_read_fails(1))
next
  case (gw_takes request i)
  have "awaited W P y j e future = serve_requests W P j (gw_unread x @ future) e" for j e
    by (simp add: gw_takes awaited_def)
  moreover have "gw_serve y = take_request i request" "gw_env y = gw_env x" by (simp_all add: gw_takes)
  ultimately have "remaining W P y future = serve_one W P i request (gw_unread x @ future) (gw_env x)"
    by (auto simp: remaining_def serve_one_def take_request_def split: sum.split prod.split)
  with gw_takes(1,4,5) show ?thesis by (simp add: remaining_def awaited_def)
next
  case (gw_fails err i)
  then show ?thesis using assms(2) by (auto simp: remaining_def awaited_def reader_ok_def)
next
  case (gw_proves request i response e)
  have "awaited W P y i e future = awaited W P x i e future" for i e
    by (simp add: gw_proves awaited_def split: reader_pc.split)
  moreover have "gw_serve y = respond W i response" "gw_env y = e" by (simp_all add: gw_proves)
  ultimately have "remaining W P y future = (case writeMessage (marshal_response W response) of
      Inl err \<Rightarrow> ([], err) | Inr out \<Rightarrow> apfst ((@) out) (awaited W P x i e future))"
    by (simp add: remaining_def respond_def split: sum.split)
  with gw_proves(1,4,5) show ?thesis by (simp add: remaining_def)
next
  case (gw_emits bs left i)
  have "awaited W P y i e future = awaited W P x i e future" for i e
    by (simp add: gw_emits awaited_def split: reader_pc.split)
  with gw_emits show ?thesis by (simp add: remaining_def)
next
  case (gw_finishes i)
  then show ?thesis by (simp add: remaining_def awaited_def split: reader_pc.split)
next
  case (gw_returns err)
  then show ?thesis by (simp add: remaining_def)
qed (use assms(4) in simp)

section \<open>Invariant\<close>

text \<open>
  Which states of the goroutines go together: an error that waits in \<open>failed\<close> is the reader's
  last word, a reader that is done has left one or ended the process, and before the greeting is
  out there is no reader.
\<close>

definition control_ok :: "'e worker_state \<Rightarrow> bool" where
  "control_ok x \<longleftrightarrow> reader_ok x \<and> gw_serve x \<noteq> Stopped Eof \<and>
     (gw_reader x = ReaderDone \<longrightarrow> gw_failed x \<noteq> None \<or> gw_exit x \<noteq> None \<or> (\<exists>err. gw_serve x = Stopped err)) \<and>
     (gw_reader x = NotStarted \<longrightarrow> (\<exists>left i. gw_serve x = Writing left i) \<or> (\<exists>err. gw_serve x = Stopped err)) \<and>
     (gw_exit x = None \<or>
      gw_exit x = Some 0 \<and> gw_closed x \<and> gw_reader x = ReaderDone \<and> gw_failed x = None \<or>
      gw_exit x = Some 1 \<and> (\<exists>err. gw_serve x = Stopped err))"

definition gw_inv :: "proto \<Rightarrow> 'e proving \<Rightarrow> string \<Rightarrow> 'e \<Rightarrow> 'e worker_state \<Rightarrow> bool" where
  "gw_inv W P artifact e x \<longleftrightarrow> control_ok x \<and>
     (\<forall>future. admissible x future \<longrightarrow>
        (\<exists>rest. serve W P artifact (gw_stdin x @ future) e = apfst ((@) (gw_stdout x)) rest \<and>
           (gw_serve x \<noteq> Stopped StdoutFailed \<longrightarrow> remaining W P x future = rest)))"

lemma writeMessage_error: "writeMessage m = Inl err \<Longrightarrow> err = MarshalFailed \<or> err = ResponseTooLarge"
  by (auto simp: writeMessage_def bindE_eq_Inl ok_or_eq_Inl split: if_splits)

lemma take_request_cases:
  "(\<exists>err. take_request i request = Stopped err \<and> err \<noteq> Eof) \<or>
   take_request i request = Proving request (i + 1)"
  by (simp add: take_request_def)

lemma respond_cases:
  "(\<exists>err. respond W i response = Stopped err \<and> err \<noteq> Eof) \<or>
   (\<exists>left. respond W i response = Writing left i)"
  using writeMessage_error [of "marshal_response W response"]
  by (cases "writeMessage (marshal_response W response)") (auto simp: respond_def)

lemma step_control:
  assumes "gw_step W P x l y" "control_ok x"
  shows "control_ok y"
  using assms(1)
proof (cases rule: gw_step.cases)
  case (gw_takes request i)
  with assms(2) show ?thesis
    using take_request_cases [of i request] by (auto simp: control_ok_def reader_ok_def)
next
  case (gw_proves request i response e)
  with assms(2) show ?thesis
    using respond_cases [of W i response] by (auto simp: control_ok_def reader_ok_def)
qed (use assms(2) in \<open>auto simp: control_ok_def reader_ok_def\<close>)

lemma step_traffic:
  "gw_step W P x l y \<Longrightarrow> gw_stdin y = gw_stdin x @ arriving l \<and> gw_stdout y = gw_stdout x @ emitted l \<and>
     (gw_closed x \<longrightarrow> gw_closed y \<and> arriving l = [])"
  by (cases rule: gw_step.cases) auto

lemma step_stopped:
  "gw_step W P x l y \<Longrightarrow> gw_serve x = Stopped err \<Longrightarrow> gw_serve y = Stopped err \<and> emitted l = []"
  by (cases rule: gw_step.cases) auto

interpretation goroutines: transition_invariant "gw_step W P" "gw_inv W P artifact e"
  for W :: proto and P :: "'e proving" and artifact :: string and e :: 'e
proof unfold_locales
  fix x l y assume inv: "gw_inv W P artifact e x" and step: "gw_step W P x l y"
  have ok: "control_ok x" using inv by (simp add: gw_inv_def)
  note traffic = step_traffic [OF step]
  have "\<exists>rest. serve W P artifact (gw_stdin y @ future) e = apfst ((@) (gw_stdout y)) rest \<and>
      (gw_serve y \<noteq> Stopped StdoutFailed \<longrightarrow> remaining W P y future = rest)"
    if adm: "admissible y future" for future
  proof -
    have "admissible x (arriving l @ future)" using adm traffic by (auto simp: admissible_def)
    then obtain rest where rest:
      "serve W P artifact (gw_stdin y @ future) e = apfst ((@) (gw_stdout x)) rest"
      "gw_serve x \<noteq> Stopped StdoutFailed \<longrightarrow> remaining W P x (arriving l @ future) = rest"
      using inv traffic unfolding gw_inv_def by auto
    consider "gw_serve x = Stopped StdoutFailed" | "l = EmitFails"
      | "gw_serve x \<noteq> Stopped StdoutFailed" "l \<noteq> EmitFails" by blast
    then show ?thesis
    proof cases
      case 1
      with step_stopped [OF step] rest(1) traffic show ?thesis by (intro exI [of _ rest]) simp
    next
      case 2
      with step have "gw_serve y = Stopped StdoutFailed" by (cases rule: gw_step.cases) auto
      with 2 rest(1) traffic show ?thesis by (intro exI [of _ rest]) simp
    next
      case 3
      then have "rest = apfst ((@) (emitted l)) (remaining W P y future)"
        using rest(2) step_remaining [OF step _ adm] ok by (simp add: control_ok_def)
      with rest(1) traffic show ?thesis by (intro exI [of _ "remaining W P y future"]) simp
    qed
  qed
  with step_control [OF step ok] show "gw_inv W P artifact e y" by (simp add: gw_inv_def)
qed

lemma gw_inv_start: "gw_inv W P artifact e (serve_start W artifact e)"
proof (cases "writeMessage (marshal_ready W \<lparr>rd_protocol = protocolVersion, rd_artifact = artifact\<rparr>)")
  case (Inl err)
  with writeMessage_error [OF Inl] show ?thesis
    by (auto simp: gw_inv_def control_ok_def reader_ok_def serve_start_def serve_def remaining_def)
next
  case (Inr greeting)
  then show ?thesis
    by (auto simp: gw_inv_def control_ok_def reader_ok_def serve_start_def serve_def remaining_def
        awaited_def apfst_def map_prod_def)
qed

section \<open>What a run has written\<close>

definition gw_run :: "proto \<Rightarrow> 'e proving \<Rightarrow> string \<Rightarrow> 'e \<Rightarrow> worker_event list \<Rightarrow> 'e worker_state \<Rightarrow> bool" where
  "gw_run W P artifact e ls x \<longleftrightarrow> run (gw_step W P) (serve_start W artifact e) ls x"

lemma gw_run_inv: "gw_run W P artifact e ls x \<Longrightarrow> gw_inv W P artifact e x"
  unfolding gw_run_def by (rule goroutines.run_inv [OF _ gw_inv_start])

lemma gw_written_prefix:
  assumes "gw_inv W P artifact e x"
  shows "\<exists>rest. fst (serve W P artifact (gw_stdin x) e) = gw_stdout x @ rest"
proof -
  have "admissible x []" by (simp add: admissible_def)
  with assms obtain rest where "serve W P artifact (gw_stdin x @ []) e = apfst ((@) (gw_stdout x)) rest"
    unfolding gw_inv_def by blast
  then show ?thesis by (intro exI [of _ "fst rest"]) simp
qed

lemma gw_remaining:
  assumes "gw_inv W P artifact e x" "gw_serve x \<noteq> Stopped StdoutFailed"
  shows "serve W P artifact (gw_stdin x) e = apfst ((@) (gw_stdout x)) (remaining W P x [])"
proof -
  have "admissible x []" by (simp add: admissible_def)
  with assms show ?thesis unfolding gw_inv_def by fastforce
qed

text \<open>A process in which only the client can do something has written everything.\<close>

definition quiescent :: "proto \<Rightarrow> 'e proving \<Rightarrow> 'e worker_state \<Rightarrow> bool" where
  "quiescent W P x \<longleftrightarrow> gw_exit x = None \<and> (\<forall>l y. gw_step W P x l y \<longrightarrow> by_client l)"

lemma quiescent_written:
  assumes "gw_inv W P artifact e x" "quiescent W P x"
  shows "\<not> gw_closed x \<and> fst (serve W P artifact (gw_stdin x) e) = gw_stdout x"
proof -
  have no: "gw_exit x = None" and stuck: "\<And>l y. gw_step W P x l y \<Longrightarrow> by_client l"
    using assms(2) by (auto simp: quiescent_def)
  have ok: "control_ok x" using assms(1) by (simp add: gw_inv_def)
  obtain i where sel: "gw_serve x = Selecting i"
  proof (cases "gw_serve x")
    case (Writing left i)
    then show thesis
      using stuck [OF gw_finishes [OF no]] stuck [OF gw_emit_fails [OF no]] by (cases left) auto
  next
    case (Proving request i)
    obtain response e where "go_prove P request (gw_env x) = (response, e)" by fastforce
    with stuck [OF gw_proves [OF no Proving]] show thesis by simp
  next
    case (Stopped err)
    then show thesis using stuck [OF gw_returns [OF no]] by simp
  qed (rule that)
  have "gw_reader x = ReadNext"
  proof (cases "gw_reader x")
    case ReaderDone
    with ok no sel obtain err where "gw_failed x = Some err" by (auto simp: control_ok_def)
    with stuck [OF gw_fails [OF no _ sel]] show ?thesis by simp
  qed (use ok sel stuck [OF gw_takes [OF no _ sel]] in \<open>auto simp: control_ok_def\<close>)
  moreover obtain err where err: "readMessage (unmarshal_request W) (gw_unread x) = Inl err"
    "read_blocks (gw_closed x) err"
  proof (cases "readMessage (unmarshal_request W) (gw_unread x)")
    case (Inl err)
    with stuck [OF gw_parent_gone [OF no calculation]] stuck [OF gw_read_fails [OF no calculation Inl]]
    show thesis by (intro that [OF Inl]) (auto simp: read_blocks_def)
  next
    case (Inr y)
    then obtain request rest where "readMessage (unmarshal_request W) (gw_unread x) = Inr (request, rest)"
      by (cases y) simp
    with stuck [OF gw_reads [OF no calculation]] show thesis by fastforce
  qed
  ultimately have "remaining W P x [] = ([], err)"
    by (simp add: sel remaining_def awaited_def serve_requests_eq)
  with gw_remaining [OF assms(1)] err(2) show ?thesis by (simp add: sel read_blocks_def)
qed

text \<open>
  The worker cannot run for ever on its own: what it does between two bytes of the client ends.
  The order compares, one after the other, the unread input, how far the reader is, how far
  \<open>serve\<close> is, what is left of its message, and whether the process is running.
\<close>

fun reader_rank :: "reader_pc \<Rightarrow> nat" where
  "reader_rank NotStarted = 3"
| "reader_rank (Offering request) = 2"
| "reader_rank ReadNext = 1"
| "reader_rank ReaderDone = 0"

fun serve_rank :: "serve_pc \<Rightarrow> nat \<times> nat" where
  "serve_rank (Proving request i) = (3, 0)"
| "serve_rank (Writing left i) = (2, length left)"
| "serve_rank (Selecting i) = (1, 0)"
| "serve_rank (Stopped err) = (0, 0)"

definition worker_rank :: "'e worker_state \<Rightarrow> nat \<times> nat \<times> (nat \<times> nat) \<times> nat" where
  "worker_rank x =
     (length (gw_unread x), reader_rank (gw_reader x), serve_rank (gw_serve x),
      case gw_exit x of None \<Rightarrow> 1 | Some _ \<Rightarrow> 0)"

definition rank_less :: "((nat \<times> nat \<times> (nat \<times> nat) \<times> nat) \<times> (nat \<times> nat \<times> (nat \<times> nat) \<times> nat)) set" where
  "rank_less = less_than <*lex*> less_than <*lex*> (less_than <*lex*> less_than) <*lex*> less_than"

lemma wf_rank_less: "wf rank_less"
  unfolding rank_less_def by (intro wf_lex_prod wf_less_than)

lemma step_rank:
  assumes "gw_step W P x l y" "\<not> by_client l"
  shows "(worker_rank y, worker_rank x) \<in> rank_less"
  using assms(1)
proof (cases rule: gw_step.cases)
  case (gw_reads request rest)
  then show ?thesis
    using readMessage_shorter [OF gw_reads(5)] by (simp add: worker_rank_def rank_less_def)
next
  case (gw_takes request i)
  then show ?thesis by (simp add: worker_rank_def rank_less_def)
next
  case (gw_proves request i response e)
  then show ?thesis
    using respond_cases [of W i response] by (auto simp: worker_rank_def rank_less_def)
qed (use assms(2) in \<open>auto simp: worker_rank_def rank_less_def\<close>)

lemma worker_settles: "wfp (\<lambda>y x. \<exists>l. gw_step W P x l y \<and> \<not> by_client l)"
proof -
  have "{(y, x). \<exists>l. gw_step W P x l y \<and> \<not> by_client l} \<subseteq> inv_image rank_less worker_rank"
    using step_rank by (fastforce simp: inv_image_def)
  then show ?thesis
    unfolding wfp_def by (rule wf_subset [OF wf_inv_image [OF wf_rank_less]])
qed

end
