(* ===== verification/Client_Pool.thy ===== *)
theory Client_Pool
  imports Sdk_Client Sdk_Pool
begin

text \<open>
  A whole client call against the program: what \<open>transfer\<close> and \<open>withdraw\<close> return is an
  instruction for a plan whose values check out, with the proof of exactly these values, so the
  acceptance lemma of \<open>Sdk_Pool\<close> applies to it.
\<close>

section \<open>What a returned proof and instruction are\<close>

lemma veil_prove_values:
  assumes "veil_prove L N os C p public v s = (Returned (Inr proof), v', t)"
  obtains pv where "plan_values_of L p public = Inr pv" and "pr_public proof = pv_public pv"
    and "pr_artifact proof = artifact_id v" and "vl_worker v' \<noteq> None"
  using assms
  by (auto simp: veil_prove_def Let_def witness_build_eq_Inr split: call.splits sum.splits prod.splits if_splits)

lemma veil_prepare_eq:
  assumes "veil_prepare S v pool t recipient amount payer g s = Some (Returned (Inr pp), v', s')"
  obtains p g' ext hash pv where
    "plan_of (su_crypto S) (su_fill S) t (spo_asset pool) g = Some (Inr (p, g'))"
    and "external_new p recipient = Inr ext"
    and "sdk_binding (su_crypto S) pool ext amount = Inr hash"
    and "plan_values_of (su_crypto S) p \<lparr>pf_amount = amount, pf_hash = hash\<rparr> = Inr pv"
    and "pr_public (pp_proof pp) = pv_public pv"
    and "pr_artifact (pp_proof pp) = artifact_id v"
    and "sdk_transact (su_runtime S) (su_crypto S) (su_borsh S) pool (pp_proof pp) ext amount payer =
      Inr (pp_instruction pp)"
proof -
  obtain p g' ext hash where plan: "plan_of (su_crypto S) (su_fill S) t (spo_asset pool) g = Some (Inr (p, g'))"
    and ext: "external_new p recipient = Inr ext"
    and hash: "sdk_binding (su_crypto S) pool ext amount = Inr hash"
    using assms unfolding veil_prepare_def by (auto simp: bindE_def split: option.splits sum.splits)
  obtain r v1 s1 where prove: "veil_prove (su_crypto S) (su_noir S) (su_os S) (su_codec S) p
      \<lparr>pf_amount = amount, pf_hash = hash\<rparr> v s = (r, v1, s1)"
    by (metis prod_cases3)
  obtain pr where r: "r = Returned (Inr pr)"
    and ins: "sdk_transact (su_runtime S) (su_crypto S) (su_borsh S) pool pr ext amount payer =
      Inr (pp_instruction pp)" and pp: "pp_proof pp = pr"
    using assms plan ext hash prove unfolding veil_prepare_def
    by (auto simp: Let_def split: call.splits sum.splits)
  show thesis
    using prove [unfolded r]
  proof (rule veil_prove_values)
    fix pv assume "plan_values_of (su_crypto S) p \<lparr>pf_amount = amount, pf_hash = hash\<rparr> = Inr pv"
      "pr_public pr = pv_public pv" "pr_artifact pr = artifact_id v"
    then show thesis using that [OF plan ext hash] ins pp by simp
  qed
qed

section \<open>Its acceptance\<close>

lemma prepared_accepted:
  assumes "spl_spec R" "light_spec R H TREE_HEIGHT lv" "fr_spec L" "poseidon_spec L"
    "system_program_id R = SYSTEM_PROGRAM"
    and "R = su_runtime S" "L = su_crypto S"
    and pool: "sdk_pool_new R L pool_program_id verifier mint domain = Inr sp"
    and call: "veil_prepare S v sp t recipient amount payer g s = Some (Returned (Inr pp), v', s')"
    and c: "transact_ctx_of (si_accounts (pp_instruction pp)) = Some c"
    and proven: "length (pr_bytes (pp_proof pp)) = 388"
      "cpi_invoke R verifier (pr_bytes (pp_proof pp) @ witness_bytes (pr_public (pp_proof pp)))"
    and amount: "sint amount \<le> 0" "sint amount < 0 \<Longrightarrow> tr_recipient_ata c \<noteq> tr_vault c"
    and state: "chain_ready R lv ls l c (accts w)" "pool_verifier (tl_pool l) = verifier"
      "asset_mint (pool_asset (tl_pool l)) = mint" "pool_domain (tl_pool l) = domain"
    and pay: "\<And>a. tx_ext_amount a = amount \<Longrightarrow> ed_recipient (tx_ext_data a) = recipient \<Longrightarrow>
      payable c l a (accts w)"
    and root: "spi_root (pr_public (pp_proof pp)) \<in> set (recent_roots H TREE_HEIGHT ROOTS_SIZE ls)"
      "spi_root (pr_public (pp_proof pp)) \<noteq> replicate 32 0"
  shows "\<exists>a encoded w'. su_borsh S a = Some encoded \<and>
    si_data (pp_instruction pp) = transact_discriminator L @ encoded \<and>
    tx_ext_amount a = amount \<and> ed_recipient (tx_ext_data a) = recipient \<and>
    tx_nullifiers a = spi_nullifiers (pr_public (pp_proof pp)) \<and>
    tx_out_commitments a = spi_commitments (pr_public (pp_proof pp)) \<and>
    c = client_ctx R verifier mint (client_recipient_ata R mint recipient amount) (tx_nullifiers a) payer \<and>
    transact R L c a w = Inr w'"
  using call
proof (rule veil_prepare_eq)
  fix p g' ext hash pv
  assume ext: "external_new p recipient = Inr ext"
    and pv: "plan_values_of (su_crypto S) p \<lparr>pf_amount = amount, pf_hash = hash\<rparr> = Inr pv"
    and public: "pr_public (pp_proof pp) = pv_public pv"
    and i: "sdk_transact (su_runtime S) (su_crypto S) (su_borsh S) sp (pp_proof pp) ext amount payer =
      Inr (pp_instruction pp)"
  note ins = i [folded assms(6,7)] and vals = pv [folded assms(7)]
  let ?a = "instruction_args (pp_proof pp) ext amount"
  have a: "tx_ext_amount ?a = amount" "ed_recipient (tx_ext_data ?a) = recipient"
      "tx_nullifiers ?a = spi_nullifiers (pr_public (pp_proof pp))"
      "tx_out_commitments ?a = spi_commitments (pr_public (pp_proof pp))"
    using ext by (simp_all add: instruction_args_def external_new_eq_Inr)
  have "c = client_ctx R verifier mint (client_recipient_ata R mint recipient amount) (tx_nullifiers ?a) payer"
    using sdk_transact_eq_Inr(5) [OF ins pool] c ext a(3) by (simp add: external_new_eq_Inr)
  moreover obtain encoded where "su_borsh S ?a = Some encoded"
      "si_data (pp_instruction pp) = transact_discriminator L @ encoded"
    using sdk_transact_eq_Inr(3) [OF ins pool] by blast
  moreover have "\<exists>w'. transact R L c ?a w = Inr w'"
    by (rule client_accepted [OF assms(1-5) pool vals public ext ins c proven amount(1) _ state(1) _
          state(2-4) root]) (use amount(2) pay a in simp_all)
  ultimately show ?thesis using a by blast
qed

end
