(* ===== verification/Gnark_Client.thy ===== *)
theory Gnark_Client
  imports Gnark_Goroutines Client_Pool
begin

text \<open>
  The two ends of the pipes together: the client's supervised session with a child that is a
  worker process. What such a child answers is what its prover gave for the request, so a proof
  that the client returns is one that gnark has verified.
\<close>

section \<open>Frames\<close>

definition message_frame :: "bytes \<Rightarrow> bytes" where
  "message_frame body = be_bytes 4 (length body) @ body"

lemma length_message_frame [simp]: "length (message_frame body) = 4 + length body"
  by (simp add: message_frame_def)

lemma message_frame_not_Nil [simp]: "message_frame body \<noteq> []"
  using length_message_frame [of body] by (metis add_eq_0_iff_both_eq_0 list.size(3) zero_neq_numeral)

lemma message_frame_eq:
  assumes "message_frame b @ xs = message_frame c @ ys" "length b < 2 ^ 32" "length c < 2 ^ 32"
  shows "b = c \<and> xs = ys"
proof -
  have parts: "be_bytes 4 (length b) = be_bytes 4 (length c)" "b @ xs = c @ ys"
    using assms(1) by (auto simp: message_frame_def append_eq_append_conv)
  then have "be_val (be_bytes 4 (length b)) = be_val (be_bytes 4 (length c))" by (simp only:)
  then have "length b = length c" using assms(2,3) by simp
  with parts(2) show ?thesis by simp
qed

lemma writeMessage_eq_Inr:
  "writeMessage m = Inr out \<longleftrightarrow>
     (\<exists>body. m = Some body \<and> length body \<le> maxResponseBytes \<and> out = message_frame body)"
  by (cases m) (auto simp: writeMessage_def message_frame_def)

text \<open>What a child has delivered to the client.\<close>

fun delivered :: "nat \<Rightarrow> io_event list \<Rightarrow> bytes" where
  "delivered pid [] = []"
| "delivered pid (Received p bs # evs) = (if p = pid then message_frame bs else []) @ delivered pid evs"
| "delivered pid (_ # evs) = delivered pid evs"

lemma delivered_append [simp]: "delivered pid (xs @ ys) = delivered pid xs @ delivered pid ys"
  by (induction pid xs rule: delivered.induct) simp_all

lemma delivered_framed [simp]: "delivered pid (framed pid body) = []"
  by (simp add: framed_def)

lemma pipes_events_of [simp]:
  "written pid (events_of pid evs) = written pid evs"
  "delivered pid (events_of pid evs) = delivered pid evs"
proof (induction evs)
  case (Cons ev evs)
  case 1
  with Cons show ?case by (cases ev) (simp_all add: events_of_def)
  case 2
  with Cons show ?case by (cases ev) (simp_all add: events_of_def)
qed (simp_all add: events_of_def)

section \<open>The exchanges of a session\<close>

lemma exchange_unique:
  assumes "proto_agrees C W" "exchange C pid i w result evs" "exchange C pid j w' result' evs"
  shows "w = w' \<and> result = result' \<and> i = j"
proof -
  from assms(2,3) obtain body bs rs body' bs' rs' where
    "encode_request C \<lparr>rq_id = i, rq_witness = w\<rparr> = Some body" "decode_response C bs = Some rs"
    "evs = framed pid body @ [Received pid bs]"
    "encode_request C \<lparr>rq_id = j, rq_witness = w'\<rparr> = Some body'" "decode_response C bs' = Some rs'"
    "evs = framed pid body' @ [Received pid bs']"
    and results: "result = (rs_proof rs, rs_public rs)" "result' = (rs_proof rs', rs_public rs')"
    unfolding exchange_def by (metis prod.collapse)
  moreover from this have "body = body'" "bs = bs'" by (auto simp: framed_def)
  moreover have "unmarshal_request W body = Some \<lparr>rq_id = i, rq_witness = w\<rparr>"
    "unmarshal_request W body' = Some \<lparr>rq_id = j, rq_witness = w'\<rparr>"
    using assms(1) calculation unfolding proto_agrees_def by blast+
  ultimately show ?thesis by simp
qed

lemma exchange_length: "exchange C pid i w result evs \<Longrightarrow> length evs = 4"
  by (auto simp: exchange_def framed_def)

text \<open>
  A session as the list of its exchanges: each one's witness and the bytes of its response. The
  last pair is the last exchange.
\<close>

definition exchanges :: "codec \<Rightarrow> nat \<Rightarrow> io_event list \<Rightarrow> u64 \<Rightarrow> (bytes \<times> bytes) list \<Rightarrow> bool" where
  "exchanges C pid evs i ps \<longleftrightarrow>
     length ps = unat i \<and> request_frames C 1 (map fst ps) = Some (written pid evs) \<and>
     (\<exists>greeting. delivered pid evs = message_frame greeting @ concat (map (\<lambda>p. message_frame (snd p)) ps) \<and>
        Received pid greeting \<in> set evs) \<and>
     (\<forall>p \<in> set ps. Received pid (snd p) \<in> set evs)"

lemma exchanges_snoc:
  assumes ps: "exchanges C pid evs i ps" and "i + 1 \<noteq> 0" "exchange C pid (i + 1) w result xs"
  shows "\<exists>bs rs. exchanges C pid (evs @ xs) (i + 1) (ps @ [(w, bs)]) \<and> decode_response C bs = Some rs \<and>
    failure_try_from (rs_failure rs) = Some Unspecified \<and> result = (rs_proof rs, rs_public rs)"
proof -
  from assms(3) obtain body bs rs where
    body: "encode_request C \<lparr>rq_id = i + 1, rq_witness = w\<rparr> = Some body"
      "length body \<le> MAX_REQUEST_BYTES" "xs = framed pid body @ [Received pid bs]"
    and rs: "decode_response C bs = Some rs" "failure_try_from (rs_failure rs) = Some Unspecified"
      "result = (rs_proof rs, rs_public rs)"
    unfolding exchange_def by (metis prod.collapse)
  have "unat (i + 1) = Suc (unat i)"
    using unatSuc [of i] assms(2) by (simp add: add.commute)
  moreover have "1 + of_nat (length (map fst ps)) = i + 1" using ps by (simp add: exchanges_def)
  with body(1) have "encode_request C \<lparr>rq_id = 1 + of_nat (length (map fst ps)), rq_witness = w\<rparr> = Some body"
    by (simp only:)
  note request_frames_snoc [OF _ this body(2)]
  ultimately have "exchanges C pid (evs @ xs) (i + 1) (ps @ [(w, bs)])"
    using ps body(3) by (auto simp: exchanges_def message_frame_def)
  with rs show ?thesis by blast
qed

lemma session_exchanges: "session C artifact pid evs i \<Longrightarrow> \<exists>ps. exchanges C pid evs i ps"
proof (induction rule: session.induct)
  case (session_open evs)
  then show ?case by (auto simp: greeted_def exchanges_def)
next
  case (session_exchange evs i witness result xs)
  then show ?case using exchanges_snoc by blast
qed

lemma session_last:
  assumes "proto_agrees C W" "session C artifact pid evs i" "evs = pre @ xs" "exchange C pid i w result xs"
  shows "\<exists>ps bs rs. exchanges C pid evs i (ps @ [(w, bs)]) \<and> decode_response C bs = Some rs \<and>
    failure_try_from (rs_failure rs) = Some Unspecified \<and> result = (rs_proof rs, rs_public rs)"
  using assms(2)
proof (cases rule: session.cases)
  case session_open
  then have "length xs \<le> 2" using assms(3) by (auto simp: greeted_def append_eq_Cons_conv)
  with exchange_length [OF assms(4)] show ?thesis by simp
next
  case (session_exchange evs' j w' result' xs')
  have "xs' = xs"
    using session_exchange(1) assms(3) exchange_length [OF assms(4)] exchange_length [OF session_exchange(5)]
    by simp
  with session_exchange(5) have "w' = w" "result' = result"
    using exchange_unique [OF assms(1) _ assms(4)] by blast+
  with session_exchange session_exchanges [OF session_exchange(3)] exchanges_snoc show ?thesis by metis
qed

section \<open>A child that is the worker\<close>

text \<open>
  The child \<open>pid\<close> is a worker process: some run of it has received what the client wrote, and
  has written what the client got, and perhaps more that is still on its way. The frame limit is
  the one that the client's codec enforces.
\<close>

definition worker_child :: "proto \<Rightarrow> 'e proving \<Rightarrow> string \<Rightarrow> nat \<Rightarrow> io_event list \<Rightarrow> bool" where
  "worker_child W P artifact pid log \<longleftrightarrow>
     (\<exists>e ls x. gw_run W P artifact e ls x \<and> gw_stdin x = written pid log \<and>
        (\<exists>rest. gw_stdout x = delivered pid log @ rest)) \<and>
     (\<forall>bs. Received pid bs \<in> set log \<longrightarrow> length bs \<le> MAX_RESPONSE_BYTES)"

definition answered :: "proto \<Rightarrow> 'e proving \<Rightarrow> bytes \<times> bytes \<Rightarrow> bool" where
  "answered W P p \<longleftrightarrow>
     (\<exists>i e response e'. go_prove P \<lparr>rq_id = i, rq_witness = fst p\<rparr> e = (response, e') \<and>
        marshal_response W response = Some (snd p))"

lemma served_one:
  assumes "readMessage (unmarshal_request W) input = Inr (request, rest)"
    and "go_prove P request e = (response, e')" "fst (serve_requests W P i input e) \<noteq> []"
  shows "\<exists>b. marshal_response W response = Some b \<and> length b \<le> maxResponseBytes \<and>
    fst (serve_requests W P i input e) = message_frame b @ fst (serve_requests W P (i + 1) rest e')"
proof -
  have one: "serve_requests W P i input e = serve_one W P i request rest e"
    using assms(1) by (simp add: serve_requests_eq)
  show ?thesis
  proof (cases "writeMessage (marshal_response W response)")
    case (Inl err)
    with assms(2,3) have False
      by (simp add: one serve_one_def take_request_def split: if_splits)
    then show ?thesis ..
  next
    case (Inr out)
    then obtain b where "marshal_response W response = Some b" "length b \<le> maxResponseBytes"
      "out = message_frame b"
      unfolding writeMessage_eq_Inr by blast
    with assms(2,3) Inr show ?thesis
      by (simp add: one serve_one_def take_request_def split: if_splits)
  qed
qed

lemma served_answers:
  assumes "proto_agrees C W" "request_frames C i (map fst ps) = Some inp"
    and "\<forall>p \<in> set ps. length (snd p) \<le> MAX_RESPONSE_BYTES"
    and "fst (serve_requests W P i inp e) = concat (map (\<lambda>p. message_frame (snd p)) ps) @ rest"
  shows "\<forall>p \<in> set ps. answered W P p"
  using assms(2-4)
proof (induction ps arbitrary: i inp e)
  case (Cons p ps)
  let ?rq = "\<lparr>rq_id = i, rq_witness = fst p\<rparr>"
  obtain body inp' where body: "encode_request C ?rq = Some body" "length body \<le> MAX_REQUEST_BYTES"
      "request_frames C (i + 1) (map fst ps) = Some inp'" "inp = (be_bytes 4 (length body) @ body) @ inp'"
    using Cons.prems(1) by (auto split: option.splits if_splits)
  have read: "readMessage (unmarshal_request W) inp = Inr (?rq, inp')"
    unfolding body(4) using assms(1) body(1,2)
    by (intro readMessage_frame) (simp_all add: proto_agrees_def MAX_REQUEST_BYTES_def maxRequestBytes_def)
  have out: "fst (serve_requests W P i inp e) = message_frame (snd p) @ concat (map (\<lambda>p. message_frame (snd p)) ps) @ rest"
    using Cons.prems(3) by simp
  then have some: "fst (serve_requests W P i inp e) \<noteq> []" by (simp add: message_frame_def)
  obtain response e' where response: "go_prove P ?rq e = (response, e')" by fastforce
  obtain b where b: "marshal_response W response = Some b" "length b \<le> maxResponseBytes"
      "fst (serve_requests W P i inp e) = message_frame b @ fst (serve_requests W P (i + 1) inp' e')"
    using served_one [OF read response some] by (elim exE conjE) (rule that)
  have "length (snd p) \<le> MAX_RESPONSE_BYTES" using Cons.prems(2) by simp
  then have small: "length (snd p) < 2 ^ 32" "length b < 2 ^ 32"
    using b(2) by (simp_all add: MAX_RESPONSE_BYTES_def maxResponseBytes_def)
  note same = message_frame_eq [OF trans [OF out [symmetric] b(3)] small]
  have "marshal_response W response = Some (snd p)" using same b(1) by simp
  with response have "answered W P p" unfolding answered_def by (intro exI conjI)
  have rest: "fst (serve_requests W P (i + 1) inp' e') = concat (map (\<lambda>p. message_frame (snd p)) ps) @ rest"
    using same by (rule conjunct2 [THEN sym])
  with Cons.IH [OF body(3) _ rest] Cons.prems(2) \<open>answered W P p\<close> show ?case by simp
qed simp

lemma child_answers:
  assumes "proto_agrees C W" "exchanges C pid (events_of pid log) i ps" "worker_child W P artifact pid log"
  shows "\<forall>p \<in> set ps. answered W P p"
proof -
  obtain e ls x rest where x: "gw_run W P artifact e ls x" "gw_stdin x = written pid log"
      "gw_stdout x = delivered pid log @ rest"
    and small: "\<And>bs. Received pid bs \<in> set log \<Longrightarrow> length bs \<le> MAX_RESPONSE_BYTES"
    using assms(3) unfolding worker_child_def by blast
  obtain greeting where ps: "request_frames C 1 (map fst ps) = Some (written pid log)"
      "delivered pid log = message_frame greeting @ concat (map (\<lambda>p. message_frame (snd p)) ps)"
      "Received pid greeting \<in> set log" "\<forall>p \<in> set ps. Received pid (snd p) \<in> set log"
    using assms(2) by (auto simp: exchanges_def) (auto simp: events_of_def)
  obtain more where "fst (serve W P artifact (written pid log) e) =
      message_frame greeting @ concat (map (\<lambda>p. message_frame (snd p)) ps) @ more"
    using gw_written_prefix [OF gw_run_inv [OF x(1)]] x(2,3) ps(2) by auto
  moreover from this obtain hello where hello: "length hello \<le> maxResponseBytes"
      "fst (serve W P artifact (written pid log) e) =
        message_frame hello @ fst (serve_requests W P 1 (written pid log) e)"
    by (auto simp: serve_def message_frame_def writeMessage_eq_Inr split: sum.splits prod.splits)
  ultimately have "fst (serve_requests W P 1 (written pid log) e) = concat (map (\<lambda>p. message_frame (snd p)) ps) @ more"
    using message_frame_eq [of greeting "concat (map (\<lambda>p. message_frame (snd p)) ps) @ more" hello
        "fst (serve_requests W P 1 (written pid log) e)"] small [OF ps(3)]
    by (simp add: MAX_RESPONSE_BYTES_def maxResponseBytes_def)
  from served_answers [OF assms(1) ps(1) _ this] small ps(4) show ?thesis by blast
qed

text \<open>A response without a failure comes from a proof.\<close>

lemma answered_proof:
  assumes "proto_agrees C W" "answered W P (w, bs)" "decode_response C bs = Some rs"
    and "failure_try_from (rs_failure rs) = Some Unspecified"
  shows "\<exists>e e'. P w e = (Inr (rs_proof rs, rs_public rs), e')"
proof -
  obtain i e response e' where go: "go_prove P \<lparr>rq_id = i, rq_witness = w\<rparr> e = (response, e')"
    "marshal_response W response = Some bs"
    using assms(2) unfolding answered_def by auto
  then have "response = rs" using assms(1,3) unfolding proto_agrees_def by auto
  with go(1) assms(4) show ?thesis
    by (cases "P w e") (fastforce simp: go_prove_def failure_try_from_def split: sum.splits prod.splits)
qed

section \<open>A returned proof\<close>

lemma returned_proof:
  assumes "proto_agrees C W" "supervised C (artifact_id v) (vl_worker v) s"
    and "veil_prove L N os C p public v s = (Returned (Inr proof), v', t)"
    and "witness_build L N (vl_artifacts v) p public = Inr w"
    and "\<And>pid. pid < sys_spawned t \<Longrightarrow> worker_child W P artifact pid (sys_log t)"
  shows "\<exists>e e'. P (cw_bytes w) e = (Inr (pr_bytes proof, witness_bytes (pr_public proof)), e')"
  using assms(3,2)
proof (rule veil_prove_cases)
  fix w' worker pid result evs pre
  assume built: "witness_build L N (vl_artifacts v) p public = Inr w'"
    and r: "Returned (Inr proof) =
      Returned (Inr \<lparr>pr_bytes = fst result, pr_public = cw_public w', pr_artifact = artifact_id v\<rparr>)"
    and sup: "supervised C (artifact_id v) (Some worker) t" and pid: "worker_up pid worker"
    and public: "snd result = witness_bytes (cw_public w')"
    and ex: "exchange C pid (wk_next_request_id worker) (cw_bytes w') result evs"
    and log: "sys_log t = pre @ evs"
  have result: "result = (pr_bytes proof, witness_bytes (pr_public proof))" "w' = w"
    using r public built assms(4) by (simp_all add: prod_eq_iff)
  from sup obtain q where q: "worker_up q worker" "q < sys_spawned t"
    "session C (artifact_id v) q (events_of q (sys_log t)) (wk_next_request_id worker)"
    by (rule supervised_up)
  then have [simp]: "q = pid" using pid worker_up_unique by blast
  have "events_of pid evs = evs" using ex by (auto simp: exchange_def framed_def events_of_def)
  then have "events_of pid (sys_log t) = events_of pid pre @ evs" by (simp add: log)
  from session_last [OF assms(1) q(3) [simplified] this ex] obtain ps bs rs where
    last: "exchanges C pid (events_of pid (sys_log t)) (wk_next_request_id worker) (ps @ [(cw_bytes w, bs)])"
      "decode_response C bs = Some rs" "failure_try_from (rs_failure rs) = Some Unspecified"
      "result = (rs_proof rs, rs_public rs)"
    using result(2) by blast
  have "answered W P (cw_bytes w, bs)"
    using child_answers [OF assms(1) last(1) assms(5)] q(2) by simp
  from answered_proof [OF assms(1) this last(2,3)] last(4) result(1) show ?thesis by simp
qed simp_all

end
