(* ===== verification/Prover_Reference.thy ===== *)
theory Prover_Reference
  imports Gnark_Client Sdk_Reference
begin

text \<open>
  A computable message format, tool chain and operating system on which the theorems about the
  proving side are applied: the withdrawal of \<open>Sdk_Reference\<close>, proved by a worker that answers
  from a prepared list of frames.
\<close>

section \<open>Messages\<close>

definition char_of_byte :: "u8 \<Rightarrow> char" where
  "char_of_byte b = char_of (unat b)"

lemma char_of_byte_of_char [simp]: "char_of_byte (of_char c) = c"
proof -
  have "(of_char c :: u8) = word_of_nat (of_char c)" by (simp only: of_nat_of_char)
  then show ?thesis by (simp add: char_of_byte_def)
qed

lemma map_char_ascii [simp]: "map char_of_byte (ascii s) = s"
  by (induction s) (simp_all add: ascii_def)

definition ref_codec :: codec where
  "ref_codec =
     \<lparr>encode_request = (\<lambda>r. Some (u64_be (rq_id r) @ rq_witness r)),
      decode_ready = (\<lambda>bs. if length bs < 4 then None else
        Some \<lparr>rd_protocol = word_of_nat (be_val (take 4 bs)), rd_artifact = map char_of_byte (drop 4 bs)\<rparr>),
      decode_response = (\<lambda>bs. if length bs < 16 then None else
        let n = be_val (take 4 (drop 12 bs)) in
        Some \<lparr>rs_id = word_of_nat (be_val (take 8 bs)), rs_proof = take n (drop 16 bs),
              rs_public = drop n (drop 16 bs), rs_failure = word_of_nat (be_val (take 4 (drop 8 bs)))\<rparr>)\<rparr>"

definition ref_proto :: proto where
  "ref_proto =
     \<lparr>unmarshal_request = (\<lambda>bs. if length bs < 8 then None else
        Some \<lparr>rq_id = word_of_nat (be_val (take 8 bs)), rq_witness = drop 8 bs\<rparr>),
      marshal_ready = (\<lambda>r. Some (u32_be (rd_protocol r) @ ascii (rd_artifact r))),
      marshal_response = (\<lambda>r. if length (rs_proof r) < 2 ^ 32
        then Some (u64_be (rs_id r) @ u32_be (rs_failure r) @ be_bytes 4 (length (rs_proof r)) @
                   rs_proof r @ rs_public r)
        else None)\<rparr>"

lemma ref_proto_agrees: "proto_agrees ref_codec ref_proto"
  unfolding proto_agrees_def ref_codec_def ref_proto_def
  by (auto simp: Let_def split: if_splits)

section \<open>Artifacts\<close>

definition demo_manifest :: manifest where
  "demo_manifest =
     \<lparr>mf_id = ''transaction-v4'', mf_noir = NOIR_VERSION, mf_circuit = ''7454497435393738459'',
      mf_files =
        \<lparr>fl_acir = ''3232d3d65a7988c9a1a53d1813278011aaa5a3a3972baae8088768d0eb656fb4'',
         fl_ccs = ''9c5ddf3acc2a0d2215badeca633263b08e5f82b83a27ab1db29b5793ae562d9e'',
         fl_pk = ''2c8b347155e91e343a0e2ff8fd65bb70172dd350077d44452c86023c6298fff7'',
         fl_vk = ''54acbfbc6440461598445fb045e20de6313a51339b409169ec839d7075788176''\<rparr>\<rparr>"

definition ref_noir :: "(unit, nat input_map, bytes, nat) noir" where
  "ref_noir =
     \<lparr>json_manifest = (\<lambda>bs. if bs = ascii PINNED_MANIFEST then Some demo_manifest else None),
      json_program = (\<lambda>bs. Some ()),
      program_noir_version = (\<lambda>p. NOIR_VERSION),
      program_hash = (\<lambda>p. ''7454497435393738459''),
      abi_encode = (\<lambda>p m. Some m),
      execute_program = (\<lambda>p m. case m ''root'' of Some (InputField x) \<Rightarrow> Some (be_bytes 32 x) | _ \<Rightarrow> None),
      serialize_stack = Some\<rparr>"

text \<open>Files whose digests are the pinned ones under the reference digest.\<close>

definition demo_files :: "string \<Rightarrow> string \<Rightarrow> bytes option" where
  "demo_files directory name =
     (if name = ''manifest.json'' then Some (ascii PINNED_MANIFEST)
      else if name = ''transaction.json''
      then Some (be_bytes 32 0x3232d3d65a7988c9a1a53d1813278011aaa5a3a3972baae8088768d0eb656fb3)
      else if name = ''transaction.ccs''
      then Some (be_bytes 32 0x9c5ddf3acc2a0d2215badeca633263b08e5f82b83a27ab1db29b5793ae562d9d)
      else if name = ''transaction.pk''
      then Some (be_bytes 32 0x2c8b347155e91e343a0e2ff8fd65bb70172dd350077d44452c86023c6298fff6)
      else if name = ''transaction.vk''
      then Some (be_bytes 32 0x54acbfbc6440461598445fb045e20de6313a51339b409169ec839d7075788175)
      else None)"

lemma demo_digests:
  "hex_bytes (sha256_digest ref_crypto (be_bytes 32 0x3232d3d65a7988c9a1a53d1813278011aaa5a3a3972baae8088768d0eb656fb3)) =
     fl_acir (mf_files demo_manifest)"
  "hex_bytes (sha256_digest ref_crypto (be_bytes 32 0x9c5ddf3acc2a0d2215badeca633263b08e5f82b83a27ab1db29b5793ae562d9d)) =
     fl_ccs (mf_files demo_manifest)"
  "hex_bytes (sha256_digest ref_crypto (be_bytes 32 0x2c8b347155e91e343a0e2ff8fd65bb70172dd350077d44452c86023c6298fff6)) =
     fl_pk (mf_files demo_manifest)"
  "hex_bytes (sha256_digest ref_crypto (be_bytes 32 0x54acbfbc6440461598445fb045e20de6313a51339b409169ec839d7075788175)) =
     fl_vk (mf_files demo_manifest)"
  by (simp_all add: demo_manifest_def be_bytes_eval hex_bytes_def hex_digit_def)

definition demo_artifacts :: "unit artifacts" where
  "demo_artifacts = \<lparr>ar_manifest = demo_manifest, ar_program = ()\<rparr>"

lemma demo_artifacts_open: "artifacts_open ref_crypto ref_noir demo_files d = Inr demo_artifacts"
proof -
  have "mf_noir demo_manifest = NOIR_VERSION" "mf_circuit demo_manifest = ''7454497435393738459''"
    by (simp_all add: demo_manifest_def)
  then show ?thesis
    unfolding artifacts_open_eq_Inr checked_file_eq_Inr
    by (simp add: demo_artifacts_def demo_files_def ref_noir_def demo_digests
        del: ref_crypto_simps)
qed

section \<open>The operating system\<close>

text \<open>The environment is the list of frames the child still delivers; everything else succeeds.\<close>

definition ref_os :: "bytes list os" where
  "ref_os =
     \<lparr>os_canonicalize = (\<lambda>path e. Some path), os_is_file = (\<lambda>path e. True),
      os_spawn = (\<lambda>exe dir e. (Some (True, True), e)),
      os_write = (\<lambda>pid bs e. (Arrived True, e)), os_flush = (\<lambda>pid e. (Arrived True, e)),
      os_next = (\<lambda>pid field limit e. case e of
          [] \<Rightarrow> (Arrived EndOfStream, [])
        | f # fs \<Rightarrow> (Arrived (if length f \<le> limit then Frame f else FrameError), fs)),
      os_kill = (\<lambda>pid e. e), os_deadline = (\<lambda>seconds e. e)\<rparr>"

lemma ref_os_simps [simp]:
  "os_canonicalize ref_os path e = Some path" "os_is_file ref_os path e"
  "os_spawn ref_os exe dir e = (Some (True, True), e)"
  "os_write ref_os pid bs e = (Arrived True, e)" "os_flush ref_os pid e = (Arrived True, e)"
  "os_next ref_os pid field limit [] = (Arrived EndOfStream, [])"
  "os_next ref_os pid field limit (f # fs) = (Arrived (if length f \<le> limit then Frame f else FrameError), fs)"
  "os_kill ref_os pid e = e" "os_deadline ref_os n e = e"
  by (simp_all add: ref_os_def)

lemmas io_defs = worker_start_def process_start_def timeout_def process_receive_def channel_receive_def
  worker_prove_def process_send_def channel_send_def bindA_def liftA_def write_all_def flush_def
  await_io_def log_event_def validate_response_def process_stop_def kill_def Let_def

definition demo_ready_frame :: bytes where
  "demo_ready_frame = u32_be 1 @ ascii ''transaction-v4''"

definition demo_response_frame :: bytes where
  "demo_response_frame = u64_be 1 @ u32_be 0 @ be_bytes 4 (length (pr_bytes demo_proof)) @
     pr_bytes demo_proof @ witness_bytes (pr_public demo_proof)"

lemma demo_ready: "decode_ready ref_codec demo_ready_frame = Some \<lparr>rd_protocol = 1, rd_artifact = ''transaction-v4''\<rparr>"
  by (simp add: ref_codec_def demo_ready_frame_def del: One_nat_def)

lemma demo_marshalled:
  "marshal_response ref_proto \<lparr>rs_id = 1, rs_proof = pr_bytes demo_proof,
     rs_public = witness_bytes (pr_public demo_proof), rs_failure = 0\<rparr> = Some demo_response_frame"
  by (simp add: ref_proto_def demo_response_frame_def demo_proof_def)

lemma demo_response:
  "decode_response ref_codec demo_response_frame =
     Some \<lparr>rs_id = 1, rs_proof = pr_bytes demo_proof, rs_public = witness_bytes (pr_public demo_proof),
           rs_failure = 0\<rparr>"
  using ref_proto_agrees demo_marshalled unfolding proto_agrees_def by blast

section \<open>A withdrawal\<close>

definition demo_veil :: "unit veil" where
  "demo_veil = \<lparr>vl_artifacts = demo_artifacts, vl_artifact_directory = ''artifacts'',
     vl_worker_executable = ''prover'', vl_timeout = 120, vl_worker = None\<rparr>"

lemma demo_veil_open: "veil_open ref_crypto ref_noir demo_files (config_new ''prover'' ''artifacts'') = Inr demo_veil"
  by (simp add: veil_open_def config_new_def demo_artifacts_open demo_veil_def)

definition demo_sys :: "bytes list sys" where
  "demo_sys = \<lparr>sys_env = [demo_ready_frame, demo_response_frame], sys_spawned = 0, sys_log = []\<rparr>"

definition demo_surroundings :: "(nat, bytes list, unit, nat input_map, bytes, bytes list) surroundings" where
  "demo_surroundings =
     \<lparr>su_runtime = ref_runtime, su_crypto = ref_crypto, su_borsh = (\<lambda>a. Some (tx_proof a)),
      su_fill = queue_fill, su_noir = ref_noir, su_os = ref_os, su_codec = ref_codec\<rparr>"

definition demo_public :: public_flow where
  "demo_public = \<lparr>pf_amount = - 300, pf_hash = demo_hash\<rparr>"

definition demo_circuit_witness :: circuit_witness where
  "demo_circuit_witness =
     \<lparr>cw_bytes = be_bytes 32 (fr_from_be_mod ref_crypto demo_sdk_root), cw_public = pr_public demo_proof\<rparr>"

lemma demo_witness_built:
  "witness_build ref_crypto ref_noir demo_artifacts demo_plan demo_public = Inr demo_circuit_witness"
proof -
  have "input_map ref_crypto demo_plan (demo_values demo_hash) ''root'' =
      Some (InputField (fr_from_be_mod ref_crypto demo_sdk_root))"
    by (simp add: input_map_def Let_def input_field_def demo_values_def)
  then show ?thesis
    using demo_values_ok [of demo_hash]
    unfolding witness_build_eq_Inr
    by (simp add: demo_public_def ref_noir_def demo_circuit_witness_def demo_proof_def del: ref_crypto_simps)
qed

definition demo_worker :: worker where
  "demo_worker = \<lparr>wk_process = \<lparr>pc_child = Some 0, pc_channel = channel_new 0 0\<rparr>, wk_next_request_id = 1\<rparr>"

definition demo_log :: "io_event list" where
  "demo_log = [Spawned 0, Received 0 demo_ready_frame] @
     framed 0 (u64_be 1 @ cw_bytes demo_circuit_witness) @ [Received 0 demo_response_frame]"

lemma demo_worker_started:
  "worker_start ref_os ref_codec ''prover'' ''artifacts'' ''transaction-v4'' 120 demo_sys =
     (Returned (Inr (demo_worker\<lparr>wk_next_request_id := 0\<rparr>)),
      \<lparr>sys_env = [demo_response_frame], sys_spawned = 1, sys_log = take 2 demo_log\<rparr>)"
proof -
  have "length demo_ready_frame \<le> MAX_RESPONSE_BYTES"
    by (simp add: demo_ready_frame_def MAX_RESPONSE_BYTES_def)
  then show ?thesis
    by (simp add: io_defs demo_sys_def demo_ready WORKER_VERSION_def demo_worker_def demo_log_def)
qed

lemma demo_worker_proved:
  "worker_prove ref_os ref_codec (cw_bytes demo_circuit_witness) 120 (demo_worker\<lparr>wk_next_request_id := 0\<rparr>)
      \<lparr>sys_env = [demo_response_frame], sys_spawned = 1, sys_log = take 2 demo_log\<rparr> =
     (Returned (Inr (pr_bytes demo_proof, witness_bytes (pr_public demo_proof))), demo_worker,
      \<lparr>sys_env = [], sys_spawned = 1, sys_log = demo_log\<rparr>)"
proof -
  let ?body = "u64_be 1 @ cw_bytes demo_circuit_witness"
  have enc: "encode_request ref_codec \<lparr>rq_id = 1, rq_witness = cw_bytes demo_circuit_witness\<rparr> = Some ?body"
    by (simp add: ref_codec_def)
  have "length ?body = 40" by (simp add: demo_circuit_witness_def)
  then have body: "length ?body \<le> MAX_REQUEST_BYTES" "u32_try_from (length ?body) = Some 40" "u32_be 40 = be_bytes 4 (length ?body)"
    by (simp_all add: MAX_REQUEST_BYTES_def u32_try_from_def u32_be_def)
  have resp: "length demo_response_frame \<le> MAX_RESPONSE_BYTES"
    by (simp add: demo_response_frame_def demo_witness_length demo_proof_def [THEN arg_cong, of pr_bytes]
        MAX_RESPONSE_BYTES_def)
  have full: "pr_bytes demo_proof \<noteq> []" "witness_bytes (pr_public demo_proof) \<noteq> []"
    using demo_witness_length by (auto simp: demo_proof_def)
  show ?thesis
    using enc body resp full
    by (simp add: io_defs demo_worker_def demo_log_def framed_def demo_response failure_try_from_def)
qed

lemma demo_proved:
  "veil_prove ref_crypto ref_noir ref_os ref_codec demo_plan demo_public demo_veil demo_sys =
     (Returned (Inr (demo_proof\<lparr>pr_artifact := ''transaction-v4''\<rparr>)), demo_veil\<lparr>vl_worker := Some demo_worker\<rparr>,
      \<lparr>sys_env = [], sys_spawned = 1, sys_log = demo_log\<rparr>)"
proof -
  have "artifact_id demo_veil = ''transaction-v4''"
    by (simp add: demo_veil_def demo_artifacts_def demo_manifest_def)
  moreover have "cw_public demo_circuit_witness = pr_public demo_proof"
    by (simp add: demo_circuit_witness_def)
  ultimately show ?thesis
    using demo_worker_started demo_worker_proved demo_witness_built
    by (simp add: veil_prove_def take_worker_def demo_veil_def)
qed

definition demo_withdrawal :: withdrawal where
  "demo_withdrawal = projr (withdrawal_new (addr 4) 300)"

lemma demo_withdrawal:
  "withdrawal_new (addr 4) 300 = Inr demo_withdrawal" "wd_recipient demo_withdrawal = addr 4"
  "withdrawal_public_amount demo_withdrawal = - 300"
  by (simp_all add: demo_withdrawal_def withdrawal_new_def i64_try_from_def withdrawal_public_amount_def)

definition demo_prepared :: prepared where
  "demo_prepared = \<lparr>pp_proof = demo_proof\<lparr>pr_artifact := ''transaction-v4''\<rparr>, pp_instruction = demo_instruction\<rparr>"

lemma sdk_transact_artifact:
  "sdk_transact R L borsh sp (p\<lparr>pr_artifact := x\<rparr>) ext amount payer =
   sdk_transact R L borsh sp p ext amount payer"
proof -
  have "instruction_args (p\<lparr>pr_artifact := x\<rparr>) = instruction_args p"
    by (simp add: fun_eq_iff instruction_args_def)
  moreover have "pr_public (p\<lparr>pr_artifact := x\<rparr>) = pr_public p" by simp
  ultimately show ?thesis unfolding sdk_transact_def by (simp only:)
qed

lemma demo_prepared_ok:
  "veil_prepare demo_surroundings demo_veil demo_sdk_pool demo_transaction (addr 4) (- 300) (addr 2)
      demo_draws demo_sys =
   Some (Returned (Inr demo_prepared), demo_veil\<lparr>vl_worker := Some demo_worker\<rparr>,
      \<lparr>sys_env = [], sys_spawned = 1, sys_log = demo_log\<rparr>)"
proof -
  have "plan_of ref_crypto queue_fill demo_transaction (spo_asset demo_sdk_pool) demo_draws = Some (Inr (demo_plan, []))"
    using demo_plan_drawn by (simp add: demo_sdk_pool_def demo_note_def)
  moreover have "sdk_transact ref_runtime ref_crypto (\<lambda>a. Some (tx_proof a)) demo_sdk_pool
      (demo_proof\<lparr>pr_artifact := ''transaction-v4''\<rparr>) demo_external (- 300) (addr 2) =
      sdk_transact ref_runtime ref_crypto (\<lambda>a. Some (tx_proof a)) demo_sdk_pool demo_proof demo_external
        (- 300) (addr 2)"
    by (rule sdk_transact_artifact)
  ultimately show ?thesis
    using demo_proved demo_instruction_ok
    by (simp add: veil_prepare_def demo_surroundings_def demo_external_ok demo_hash_ok demo_public_def
        demo_prepared_def)
qed

lemma demo_withdrawn:
  "veil_withdraw demo_surroundings demo_veil demo_sdk_pool demo_transaction demo_withdrawal (addr 2)
      demo_draws demo_sys =
   Some (Returned (Inr demo_prepared), demo_veil\<lparr>vl_worker := Some demo_worker\<rparr>,
      \<lparr>sys_env = [], sys_spawned = 1, sys_log = demo_log\<rparr>)"
  using demo_prepared_ok by (simp add: veil_withdraw_def demo_withdrawal demo_sdk_pool_def)

section \<open>The worker process\<close>

text \<open>A prover that has one proof, over the same files as the client.\<close>

definition demo_go_manifest :: go_manifest where
  "demo_go_manifest =
     \<lparr>gm_ID = mf_id demo_manifest, gm_Noir = mf_noir demo_manifest, gm_Circuit = mf_circuit demo_manifest,
      gm_Files = \<lparr>gf_ACIR = fl_acir (mf_files demo_manifest), gf_CCS = fl_ccs (mf_files demo_manifest),
                  gf_PK = fl_pk (mf_files demo_manifest), gf_VK = fl_vk (mf_files demo_manifest)\<rparr>\<rparr>"

definition ref_gnark :: "(unit, unit, unit, unit, bytes, bytes, unit) gnark" where
  "ref_gnark =
     \<lparr>gk_file = (\<lambda>directory name e. (demo_files directory name, e)), gk_range = Pair,
      gk_unmarshal = (\<lambda>bs. if bs = ascii PINNED_MANIFEST then Some demo_go_manifest else None),
      gk_load_acir = (\<lambda>bs. Some ()), gk_noir_version = (\<lambda>a. mf_noir demo_manifest),
      gk_hash = (\<lambda>a. mf_circuit demo_manifest),
      gk_read_ccs = (\<lambda>bs. Some ()), gk_read_pk = (\<lambda>bs. Some ()), gk_read_vk = (\<lambda>bs. Some ()),
      gk_pipe = Pair True, gk_copy = (\<lambda>bs. Pair (bs, True, True)), gk_close_reader = Pair True,
      gk_get_witness = (\<lambda>a bs field. if length bs = 32 then Some bs else None),
      gk_prove = (\<lambda>c k w e. (Some (pr_bytes demo_proof), e)),
      gk_public = (\<lambda>w. Some (witness_bytes (pr_public demo_proof))),
      gk_verify = (\<lambda>p v w. p \<noteq> [] \<and> w \<noteq> []), gk_write_proof = Some, gk_write_public = Some\<rparr>"

lemma ref_pipe_spec: "pipe_spec ref_gnark"
  by (simp add: pipe_spec_def ref_gnark_def)

lemma ref_steady: "steady ref_gnark d (demo_files d)"
  by (simp add: steady_def ref_gnark_def)

definition demo_prover :: "(unit, unit, unit, unit) prover" where
  "demo_prover = \<lparr>gp_artifact = ''transaction-v4'', gp_program = (), gp_ccs = (), gp_pk = (), gp_vk = ()\<rparr>"

lemma demo_prover_opened: "openProver ref_gnark ref_crypto ''artifacts'' () = (Inr demo_prover, ())"
proof -
  have "verify_files ref_gnark ref_crypto ''artifacts'' (manifest_paths demo_go_manifest) () = (Inr (), ())"
    using demo_digests
    by (simp add: manifest_paths_def verifyFile_def ref_gnark_def demo_files_def demo_go_manifest_def
        del: ref_crypto_simps)
  moreover have "gm_ID demo_go_manifest = ''transaction-v4''"
    by (simp add: demo_go_manifest_def demo_manifest_def)
  ultimately show ?thesis
    by (simp add: openProver_def demo_prover_def)
      (simp add: ref_gnark_def read_artifact_def demo_files_def pinnedManifest_def demo_go_manifest_def)
qed

lemma demo_prover_proves:
  "length bs = 32 \<Longrightarrow> prover_prove ref_gnark demo_prover bs () =
     (Inr (pr_bytes demo_proof, witness_bytes (pr_public demo_proof)), ())"
  using demo_witness_length
  by (auto simp: prover_prove_def ref_gnark_def witnessFromBytes_def bindG_def liftG_def or_fail_def demo_proof_def)

text \<open>The process that serves the one request of \<open>demo_log\<close>, goroutine by goroutine.\<close>

definition demo_worker_end :: "unit worker_state" where
  "demo_worker_end =
     \<lparr>gw_stdin = written 0 demo_log, gw_closed = False, gw_unread = [], gw_reader = ReadNext,
      gw_failed = None, gw_serve = Selecting 2, gw_env = (), gw_stdout = delivered 0 demo_log,
      gw_exit = None\<rparr>"

definition demo_worker_events :: "worker_event list" where
  "demo_worker_events =
     [Emits (message_frame demo_ready_frame), Finishes, Arrives (written 0 demo_log), Reads, Takes, Proves,
      Emits (message_frame demo_response_frame), Finishes]"

abbreviation demo_proving :: "unit proving" where
  "demo_proving \<equiv> prover_prove ref_gnark demo_prover"

lemma demo_pipes:
  "written 0 demo_log = message_frame (u64_be 1 @ cw_bytes demo_circuit_witness)"
  "delivered 0 demo_log = message_frame demo_ready_frame @ message_frame demo_response_frame"
  by (simp_all add: demo_log_def framed_def message_frame_def)

lemma demo_greeting:
  "writeMessage (marshal_ready ref_proto \<lparr>rd_protocol = protocolVersion, rd_artifact = ''transaction-v4''\<rparr>) =
     Inr (message_frame demo_ready_frame)"
  unfolding writeMessage_eq_Inr
  by (simp add: ref_proto_def protocolVersion_def demo_ready_frame_def maxResponseBytes_def)

lemma demo_worker_runs: "gw_run ref_proto demo_proving ''transaction-v4'' () demo_worker_events demo_worker_end"
proof -
  let ?rq = "\<lparr>rq_id = 1, rq_witness = cw_bytes demo_circuit_witness\<rparr>"
  let ?S = "\<lambda>inp unread reader serve out.
    \<lparr>gw_stdin = inp, gw_closed = False, gw_unread = unread, gw_reader = reader, gw_failed = None,
     gw_serve = serve, gw_env = (), gw_stdout = out, gw_exit = None\<rparr> :: unit worker_state"
  let ?step = "gw_step ref_proto demo_proving"
  let ?in = "written 0 demo_log" and ?g = "message_frame demo_ready_frame"
    and ?r = "message_frame demo_response_frame"
  have full: "?g \<noteq> []" "?r \<noteq> []" by simp_all
  have start: "serve_start ref_proto ''transaction-v4'' () = ?S [] [] NotStarted (Writing ?g 1) []"
    using demo_greeting by (simp add: serve_start_def)
  have read: "readMessage (unmarshal_request ref_proto) ?in = Inr (?rq, [])"
    using readMessage_frame [of "u64_be 1 @ cw_bytes demo_circuit_witness" "unmarshal_request ref_proto" ?rq "[]"]
    by (simp add: demo_pipes message_frame_def ref_proto_def demo_circuit_witness_def maxRequestBytes_def)
  have proved: "go_prove demo_proving ?rq () = (\<lparr>rs_id = 1, rs_proof = pr_bytes demo_proof,
      rs_public = witness_bytes (pr_public demo_proof), rs_failure = 0\<rparr>, ())"
    by (simp add: go_prove_def demo_prover_proves demo_circuit_witness_def)
  have "writeMessage (Some demo_response_frame) = Inr ?r"
    unfolding writeMessage_eq_Inr
    by (simp add: demo_response_frame_def demo_witness_length demo_proof_def [THEN arg_cong, of pr_bytes]
        maxResponseBytes_def)
  then have respond: "respond ref_proto 2 \<lparr>rs_id = 1, rs_proof = pr_bytes demo_proof,
      rs_public = witness_bytes (pr_public demo_proof), rs_failure = 0\<rparr> = Writing ?r 2"
    using demo_marshalled by (simp add: respond_def)
  have s1: "?step (?S [] [] NotStarted (Writing ?g 1) []) (Emits ?g) (?S [] [] NotStarted (Writing [] 1) ?g)"
    using gw_emits [of "?S [] [] NotStarted (Writing ?g 1) []" ?g "[]" 1] full by simp
  have s2: "?step (?S [] [] NotStarted (Writing [] 1) ?g) Finishes (?S [] [] ReadNext (Selecting 1) ?g)"
    using gw_finishes [of "?S [] [] NotStarted (Writing [] 1) ?g" 1] by simp
  have s3: "?step (?S [] [] ReadNext (Selecting 1) ?g) (Arrives ?in) (?S ?in ?in ReadNext (Selecting 1) ?g)"
    using gw_arrives [of "?S [] [] ReadNext (Selecting 1) ?g"] by simp
  have s4: "?step (?S ?in ?in ReadNext (Selecting 1) ?g) Reads (?S ?in [] (Offering ?rq) (Selecting 1) ?g)"
    using gw_reads [of "?S ?in ?in ReadNext (Selecting 1) ?g" ref_proto ?rq "[]"] read by simp
  have s5: "?step (?S ?in [] (Offering ?rq) (Selecting 1) ?g) Takes (?S ?in [] ReadNext (Proving ?rq 2) ?g)"
    using gw_takes [of "?S ?in [] (Offering ?rq) (Selecting 1) ?g" ?rq 1] by (simp add: take_request_def)
  have s6: "?step (?S ?in [] ReadNext (Proving ?rq 2) ?g) Proves (?S ?in [] ReadNext (Writing ?r 2) ?g)"
    using gw_proves [of "?S ?in [] ReadNext (Proving ?rq 2) ?g" ?rq 2 demo_proving _ "()" ref_proto] proved respond
    by simp
  have s7: "?step (?S ?in [] ReadNext (Writing ?r 2) ?g) (Emits ?r) (?S ?in [] ReadNext (Writing [] 2) (?g @ ?r))"
    using gw_emits [of "?S ?in [] ReadNext (Writing ?r 2) ?g" ?r "[]" 2] full by simp
  have s8: "?step (?S ?in [] ReadNext (Writing [] 2) (?g @ ?r)) Finishes demo_worker_end"
    using gw_finishes [of "?S ?in [] ReadNext (Writing [] 2) (?g @ ?r)" 2]
    by (simp add: demo_worker_end_def demo_pipes(2))
  show ?thesis
    unfolding gw_run_def start demo_worker_events_def
    by (rule run_cons, rule s1, rule run_cons, rule s2, rule run_cons, rule s3, rule run_cons, rule s4,
        rule run_cons, rule s5, rule run_cons, rule s6, rule run_cons, rule s7, rule run_cons, rule s8, rule run_nil)
qed

lemma demo_worker_quiescent: "quiescent ref_proto demo_proving demo_worker_end"
proof -
  have read: "readMessage (unmarshal_request ref_proto) [] = Inl Eof"
    by (simp add: readMessage_def read_full_def)
  have "by_client l" if "gw_step ref_proto demo_proving demo_worker_end l y" for l y
    using that by (cases rule: gw_step.cases) (auto simp: demo_worker_end_def read_blocks_def read)
  then show ?thesis by (simp add: quiescent_def demo_worker_end_def)
qed

end
