(* ===== verification/Prover_Properties.thy ===== *)
theory Prover_Properties
  imports Prover_Reference
begin

text \<open>
  The properties of the proving side: the supervised worker, the protocol between the client and
  the worker, the pinned artifacts, and whole client calls up to the program's acceptance, each
  with an application to the withdrawal of \<open>Prover_Reference\<close>.
\<close>

lemma demo_supervised: "supervised C artifact (vl_worker demo_veil) demo_sys"
  by (simp add: supervised_def children_ok_def demo_veil_def demo_sys_def)

lemma demo_prover_run:
  "run (veil_step ref_crypto ref_noir ref_os ref_codec) (demo_veil, demo_sys)
     [((demo_plan, demo_public), Returned (Inr (demo_proof\<lparr>pr_artifact := ''transaction-v4''\<rparr>)))]
     (demo_veil\<lparr>vl_worker := Some demo_worker\<rparr>, \<lparr>sys_env = [], sys_spawned = 1, sys_log = demo_log\<rparr>)"
  by (rule run_single) (rule veil_prove_step [OF demo_proved])

text \<open>
  C14. The worker is supervised. From an opened client on, after any calls in any order and with
  any results, and calls that their callers dropped at any await, each child process that was
  ever started has been killed or is the child of the worker that the client keeps; and what happened on the pipes of that one is its greeting with
  the right protocol and artifact and then one complete request and response for each of the
  identifiers 1, 2 and so on, nothing else.
\<close>

theorem worker_supervised:
  assumes "veil_open L N read c = Inr v" "sys_spawned s = 0" "sys_log s = []"
    and "run (veil_step L N os C) (v, s) ls (v', s')"
  shows "supervised C (artifact_id v) (vl_worker v') s'"
proof -
  have "veil_inv C (vl_artifacts v) (v, s)"
    using assms(1-3) by (auto simp: veil_inv_def veil_open_def supervised_def children_ok_def)
  with veil.run_inv [OF assms(4)] have "veil_inv C (vl_artifacts v) (v', s')" .
  then show ?thesis by (simp add: veil_inv_def)
qed

theorem worker_supervised_witness:
  "session ref_codec ''transaction-v4'' 0 demo_log 1 \<and>
   children_ok (Some 0) \<lparr>sys_env = ([] :: bytes list), sys_spawned = 1, sys_log = demo_log\<rparr>"
proof -
  have "artifact_id demo_veil = ''transaction-v4''"
    by (simp add: demo_veil_def demo_artifacts_def demo_manifest_def)
  with worker_supervised [OF demo_veil_open _ _ demo_prover_run]
  have "supervised ref_codec ''transaction-v4'' (Some demo_worker)
      \<lparr>sys_env = ([] :: bytes list), sys_spawned = 1, sys_log = demo_log\<rparr>"
    by (simp add: demo_sys_def)
  moreover have "events_of 0 demo_log = demo_log"
    by (simp add: events_of_def demo_log_def framed_def)
  ultimately show ?thesis
    by (simp add: supervised_def worker_up_def demo_worker_def)
qed

text \<open>
  C16. A proof answers its own request. When \<open>prove\<close> returns a proof, its public inputs are the
  ones the client computed for the plan, and the last exchange with the worker carried exactly
  the plan's witness under a fresh identifier and brought back, under the same identifier, these
  proof bytes with these public inputs' encoding; so no response is taken for another request's.
\<close>

theorem proof_answers_request:
  assumes "supervised C (artifact_id v) (vl_worker v) s"
    and "veil_prove L N os C p public v s = (Returned (Inr proof), v', t)"
  shows "\<exists>w worker pid evs pre. witness_build L N (vl_artifacts v) p public = Inr w \<and>
    pr_public proof = cw_public w \<and> pr_artifact proof = artifact_id v \<and>
    vl_worker v' = Some worker \<and> supervised C (artifact_id v) (Some worker) t \<and> worker_up pid worker \<and>
    exchange C pid (wk_next_request_id worker) (cw_bytes w)
      (pr_bytes proof, witness_bytes (pr_public proof)) evs \<and> sys_log t = pre @ evs"
  using assms(2,1)
proof (rule veil_prove_cases)
  fix w worker pid result evs pre
  assume w: "witness_build L N (vl_artifacts v) p public = Inr w"
    and r: "Returned (Inr proof) =
      Returned (Inr \<lparr>pr_bytes = fst result, pr_public = cw_public w, pr_artifact = artifact_id v\<rparr>)"
    and rest: "v' = v\<lparr>vl_worker := Some worker\<rparr>" "supervised C (artifact_id v) (Some worker) t"
      "worker_up pid worker" "snd result = witness_bytes (cw_public w)"
      "exchange C pid (wk_next_request_id worker) (cw_bytes w) result evs" "sys_log t = pre @ evs"
  have pr: "pr_bytes proof = fst result" "pr_public proof = cw_public w" "pr_artifact proof = artifact_id v"
    using r by simp_all
  then have "result = (pr_bytes proof, witness_bytes (pr_public proof))"
    using rest(4) by (simp add: prod_eq_iff)
  with w pr(2,3) rest show ?thesis
    by - (rule exI [of _ w], rule exI [of _ worker], rule exI [of _ pid], rule exI [of _ evs],
        rule exI [of _ pre], simp)
qed simp_all

theorem proof_answers_request_witness:
  "\<exists>pid evs pre. exchange ref_codec pid 1 (cw_bytes demo_circuit_witness)
     (pr_bytes demo_proof, witness_bytes (pr_public demo_proof)) evs \<and> demo_log = pre @ evs"
  using proof_answers_request [OF demo_supervised demo_proved]
proof (elim exE conjE)
  fix w worker pid evs pre
  assume "witness_build ref_crypto ref_noir (vl_artifacts demo_veil) demo_plan demo_public = Inr w"
    "vl_worker (demo_veil\<lparr>vl_worker := Some demo_worker\<rparr>) = Some worker"
    "exchange ref_codec pid (wk_next_request_id worker) (cw_bytes w)
      (pr_bytes (demo_proof\<lparr>pr_artifact := ''transaction-v4''\<rparr>),
       witness_bytes (pr_public (demo_proof\<lparr>pr_artifact := ''transaction-v4''\<rparr>))) evs"
    "sys_log \<lparr>sys_env = ([] :: bytes list), sys_spawned = 1, sys_log = demo_log\<rparr> = pre @ evs"
  then have "exchange ref_codec pid 1 (cw_bytes demo_circuit_witness)
      (pr_bytes demo_proof, witness_bytes (pr_public demo_proof)) evs \<and> demo_log = pre @ evs"
    using demo_witness_built by (auto simp: demo_veil_def demo_worker_def)
  then show ?thesis by (intro exI)
qed

text \<open>
  C17. A failed or dropped call leaves no process behind. If \<open>prove\<close> gives no proof, then either
  the witness could not be built and nothing was done, or the client's slot is empty and every
  child process that was ever started has been killed: after an invalid response, a wrong
  identifier, a passed deadline, wrong public inputs, or a future dropped in the middle of an
  exchange no worker is reused.
\<close>

theorem failed_call_leaves_no_child:
  assumes "supervised C (artifact_id v) (vl_worker v) s"
    and "veil_prove L N os C p public v s = (r, v', t)" "\<nexists>x. r = Returned (Inr x)"
  shows "((\<exists>e. witness_build L N (vl_artifacts v) p public = Inl e \<and> r = Returned (Inl e)) \<and> v' = v \<and> t = s) \<or>
    (v' = v\<lparr>vl_worker := None\<rparr> \<and> list_all (\<lambda>pid. Killed pid \<in> set (sys_log t)) [0..<sys_spawned t])"
  using assms(2,1)
  by (rule veil_prove_cases)
    (use assms(3) in \<open>auto simp: supervised_def children_ok_def list_all_iff\<close>)

definition late_response :: bytes where
  "late_response = u64_be 2 @ u32_be 0 @ be_bytes 4 1 @ [1, 2]"

theorem failed_call_leaves_no_child_witness:
  "veil_prove ref_crypto ref_noir ref_os ref_codec demo_plan demo_public demo_veil
     \<lparr>sys_env = [demo_ready_frame, late_response], sys_spawned = 0, sys_log = []\<rparr> =
   (Returned (Inl (ProverError ''worker response ID does not match'')), demo_veil,
    \<lparr>sys_env = [], sys_spawned = 1, sys_log = butlast demo_log @ [Received 0 late_response, Killed 0]\<rparr>) \<and>
   Killed 0 \<in> set (butlast demo_log @ [Received 0 late_response, Killed 0])"
proof -
  let ?s = "\<lparr>sys_env = [demo_ready_frame, late_response], sys_spawned = 0, sys_log = []\<rparr>"
  let ?t = "\<lparr>sys_env = [], sys_spawned = 1,
      sys_log = butlast demo_log @ [Received 0 late_response, Killed 0]\<rparr>"
  have started: "worker_start ref_os ref_codec ''prover'' ''artifacts'' ''transaction-v4'' 120 ?s =
     (Returned (Inr (demo_worker\<lparr>wk_next_request_id := 0\<rparr>)),
      \<lparr>sys_env = [late_response], sys_spawned = 1, sys_log = take 2 demo_log\<rparr>)"
  proof -
    have "length demo_ready_frame \<le> MAX_RESPONSE_BYTES"
      by (simp add: demo_ready_frame_def MAX_RESPONSE_BYTES_def)
    then show ?thesis
      by (simp add: io_defs demo_ready WORKER_VERSION_def demo_worker_def demo_log_def)
  qed
  let ?body = "u64_be 1 @ cw_bytes demo_circuit_witness"
  have enc: "encode_request ref_codec \<lparr>rq_id = 1, rq_witness = cw_bytes demo_circuit_witness\<rparr> = Some ?body"
    by (simp add: ref_codec_def)
  have "length ?body = 40" by (simp add: demo_circuit_witness_def)
  then have body: "length ?body \<le> MAX_REQUEST_BYTES" "u32_try_from (length ?body) = Some 40"
    "u32_be 40 = be_bytes 4 (length ?body)"
    by (simp_all add: MAX_REQUEST_BYTES_def u32_try_from_def u32_be_def)
  have late: "length late_response \<le> MAX_RESPONSE_BYTES"
    "decode_response ref_codec late_response =
       Some \<lparr>rs_id = 2, rs_proof = [1], rs_public = [2], rs_failure = 0\<rparr>"
    by (simp_all add: late_response_def MAX_RESPONSE_BYTES_def ref_codec_def Let_def)
  have "worker_prove ref_os ref_codec (cw_bytes demo_circuit_witness) 120 (demo_worker\<lparr>wk_next_request_id := 0\<rparr>)
      \<lparr>sys_env = [late_response], sys_spawned = 1, sys_log = take 2 demo_log\<rparr> =
     (Returned (Inl (ProverError ''worker response ID does not match'')),
      demo_worker\<lparr>wk_process := \<lparr>pc_child = None, pc_channel = channel_new 0 0\<rparr>\<rparr>, ?t)"
    using enc body late by (simp add: io_defs demo_worker_def demo_log_def framed_def)
  moreover have "artifact_id demo_veil = ''transaction-v4''"
    by (simp add: demo_veil_def demo_artifacts_def demo_manifest_def)
  ultimately have run: "veil_prove ref_crypto ref_noir ref_os ref_codec demo_plan demo_public demo_veil ?s =
      (Returned (Inl (ProverError ''worker response ID does not match'')), demo_veil, ?t)"
    using started demo_witness_built
    by (simp add: veil_prove_def take_worker_def demo_veil_def process_drop_def)
  have "supervised ref_codec (artifact_id demo_veil) (vl_worker demo_veil) ?s"
    by (simp add: supervised_def children_ok_def demo_veil_def)
  from failed_call_leaves_no_child [OF this run] demo_witness_built
  have "list_all (\<lambda>pid. Killed pid \<in> set (sys_log ?t)) [0..<sys_spawned ?t]"
    by (simp add: demo_veil_def)
  with run show ?thesis by simp
qed

text \<open>
  C39. Request identifiers never repeat. When the counter of a running worker is at its maximum,
  the next call is refused before anything is written, the child is killed and the worker is
  stopped; so over the life of a child no identifier is used twice and zero is never used.
\<close>

theorem request_id_exhausted:
  assumes "worker_up pid w" "unat (wk_next_request_id w) = 2 ^ 64 - 1"
  shows "worker_prove os C witness duration w s =
    (Returned (Inl (ProverError ''worker request ID was exhausted'')),
     \<lparr>wk_process = \<lparr>pc_child = None, pc_channel = channel_new pid pid\<rparr>, wk_next_request_id = 0\<rparr>, kill os pid s)"
proof -
  have "unat (wk_next_request_id w + 1) = 0"
    using assms(2) by (simp add: unat_word_ariths)
  then have "wk_next_request_id w + 1 = 0" by (simp add: unat_eq_zero)
  with assms(1) show ?thesis
    by (simp add: worker_prove_def worker_up_def process_stop_def)
qed

theorem request_id_exhausted_witness:
  "sys_log (snd (snd (worker_prove ref_os ref_codec [] 120 (demo_worker\<lparr>wk_next_request_id := - 1\<rparr>) demo_sys))) =
     [Killed 0]"
proof -
  have "worker_up 0 (demo_worker\<lparr>wk_next_request_id := - 1\<rparr>)"
    by (simp add: worker_up_def demo_worker_def)
  moreover have "unat (wk_next_request_id (demo_worker\<lparr>wk_next_request_id := - 1\<rparr>)) = 2 ^ 64 - 1"
    by (simp add: unsigned_minus_1_eq_mask mask_eq_exp_minus_1)
  ultimately show ?thesis
    by (subst request_id_exhausted) (simp_all add: demo_sys_def kill_def log_event_def)
qed

text \<open>
  C28. A request survives the pipe. If sending a request to the worker succeeds, the bytes that
  were written, followed by whatever comes later, are read by the worker's \<open>readMessage\<close> as
  exactly that request, and the rest of the input is left for the next one.
\<close>

theorem request_read_back:
  assumes "proto_agrees C W" "channel_send os ch (encode_request C rq) s = (Done (), t)"
  shows "\<exists>evs. sys_log t = sys_log s @ evs \<and>
    readMessage (unmarshal_request W) (written (ch_input ch) evs @ rest) = Inr (rq, rest)"
  using send_read [OF assms] by (auto simp: appended_def)

theorem request_read_back_witness:
  "readMessage (unmarshal_request ref_proto) ([0, 0, 0, 10, 0, 0, 0, 0, 0, 0, 0, 5, 8, 9] @ [7]) =
     Inr (\<lparr>rq_id = 5, rq_witness = [8, 9]\<rparr>, [7])"
proof -
  have enc: "encode_request ref_codec \<lparr>rq_id = 5, rq_witness = [8, 9]\<rparr> = Some [0, 0, 0, 0, 0, 0, 0, 5, 8, 9]"
    by (simp add: ref_codec_def u64_be_def be_bytes_eval)
  have len: "u32_be 10 = [0, 0, 0, 10]" by (simp add: u32_be_def be_bytes_eval)
  let ?evs = "[Wrote 0 [0, 0, 0, 10], Wrote 0 [0, 0, 0, 0, 0, 0, 0, 5, 8, 9], Flushed 0]"
  have "channel_send ref_os (channel_new 0 0) (encode_request ref_codec \<lparr>rq_id = 5, rq_witness = [8, 9]\<rparr>) demo_sys =
      (Done (), demo_sys\<lparr>sys_log := ?evs\<rparr>)"
    by (simp add: enc io_defs demo_sys_def MAX_REQUEST_BYTES_def u32_try_from_def len)
  from request_read_back [OF ref_proto_agrees this, of "[7]"] show ?thesis
    by (simp add: demo_sys_def)
qed

text \<open>
  C15. The worker process writes the transcript. Whatever its two goroutines, the client and the
  pipes do, and however prover and randomness answer, what the process has written is at any time
  a beginning of the transcript for the input so far, in which every request is answered in order
  under its identifier. If the process ended with code 1 and not over a failed write, it has
  written the whole transcript and stopped with its error. It ends with code 0 only after its
  input was closed, and loses then at most the answer it was still working on.
\<close>

theorem worker_writes_transcript:
  assumes "gw_run W P artifact e ls x"
  shows "(\<exists>rest. fst (serve W P artifact (gw_stdin x) e) = gw_stdout x @ rest) \<and>
    (gw_exit x = None \<or> gw_exit x = Some 0 \<or> gw_exit x = Some 1) \<and>
    (gw_exit x = Some 1 \<and> gw_serve x \<noteq> Stopped StdoutFailed \<longrightarrow>
       (\<exists>err. err \<noteq> Eof \<and> serve W P artifact (gw_stdin x) e = (gw_stdout x, err))) \<and>
    (gw_exit x = Some 0 \<longrightarrow> gw_closed x) \<and>
    (gw_exit x = Some 0 \<and> gw_serve x = Selecting i \<longrightarrow>
       serve W P artifact (gw_stdin x) e = (gw_stdout x, Eof))"
proof -
  note inv = gw_run_inv [OF assms]
  then have ok: "control_ok x" by (simp add: gw_inv_def)
  have "\<exists>err. err \<noteq> Eof \<and> serve W P artifact (gw_stdin x) e = (gw_stdout x, err)"
    if "gw_exit x = Some 1" "gw_serve x \<noteq> Stopped StdoutFailed"
    using gw_remaining [OF inv that(2)] ok that(1) by (auto simp: control_ok_def remaining_def)
  moreover have "serve W P artifact (gw_stdin x) e = (gw_stdout x, Eof)"
    if "gw_exit x = Some 0" "gw_serve x = Selecting i"
    using gw_remaining [OF inv] ok that by (auto simp: control_ok_def remaining_def awaited_def)
  ultimately show ?thesis using gw_written_prefix [OF inv] ok by (auto simp: control_ok_def)
qed

theorem worker_writes_transcript_witness:
  "\<exists>rest. fst (serve ref_proto demo_proving ''transaction-v4'' (written 0 demo_log) ()) =
     message_frame demo_ready_frame @ message_frame demo_response_frame @ rest"
proof -
  have "\<exists>rest. fst (serve ref_proto demo_proving ''transaction-v4'' (gw_stdin demo_worker_end) ()) =
      gw_stdout demo_worker_end @ rest"
    using worker_writes_transcript [OF demo_worker_runs] by blast
  then show ?thesis by (simp add: demo_worker_end_def demo_pipes(2))
qed

text \<open>
  C27. The worker serves a whole session. If a client's session with a child has gone through the
  identifiers up to \<open>i\<close>, and the child is a worker process that has received what the client
  wrote, then the process cannot go on by itself for ever, and when only the client can do
  something it has answered every one of the requests, in order and under its own identifier; it
  has not ended unless its input was closed or a write failed. This holds for every \<open>i\<close> below
  the two ends' last identifier.
\<close>

theorem worker_serves_session:
  assumes "proto_agrees C W" "session C artifact pid evs i" "unat i < 2 ^ 64 - 1"
    and "writeMessage (marshal_ready W \<lparr>rd_protocol = protocolVersion, rd_artifact = artifact\<rparr>) = Inr greeting"
    and "\<And>ws. length ws = unat i \<Longrightarrow> response_frames W P 1 ws e \<noteq> None"
    and "gw_run W P artifact e ls x" "gw_stdin x = written pid evs"
  shows "\<exists>ws answers. length ws = unat i \<and> request_frames C 1 ws = Some (written pid evs) \<and>
    response_frames W P 1 ws e = Some answers \<and>
    (quiescent W P x \<longrightarrow> gw_stdout x = greeting @ answers) \<and>
    (gw_exit x \<noteq> None \<longrightarrow> gw_closed x \<or> gw_serve x = Stopped StdoutFailed) \<and>
    wfp (\<lambda>z y. \<exists>l. gw_step W P y l z \<and> \<not> by_client l)"
proof -
  note inv = gw_run_inv [OF assms(6)]
  obtain ws where ws: "length ws = unat i" "request_frames C 1 ws = Some (written pid evs)"
    using session_written [OF assms(2)] by blast
  obtain answers where answers: "response_frames W P 1 ws e = Some answers"
    using assms(5) [OF ws(1)] by auto
  have "serve_requests W P 1 (written pid evs) e = (answers, Eof)"
    using assms(3) ws(1) by (intro serve_answers [OF assms(1) ws(2) answers]) simp
  then have served: "serve W P artifact (gw_stdin x) e = (greeting @ answers, Eof)"
    using assms(4,7) by (simp add: serve_def)
  have "gw_stdout x = greeting @ answers" if "quiescent W P x"
    using quiescent_written [OF inv that] served by simp
  moreover have "gw_closed x \<or> gw_serve x = Stopped StdoutFailed" if "gw_exit x \<noteq> None"
    using gw_remaining [OF inv] served that inv by (auto simp: gw_inv_def control_ok_def remaining_def)
  ultimately show ?thesis using ws answers worker_settles by blast
qed

lemma demo_session: "session ref_codec ''transaction-v4'' 0 demo_log 1"
proof -
  let ?result = "(pr_bytes demo_proof, witness_bytes (pr_public demo_proof))"
  have opened: "session ref_codec ''transaction-v4'' 0 (Spawned 0 # [Received 0 demo_ready_frame]) 0"
    using demo_ready by (intro session_open) (auto simp: greeted_def WORKER_VERSION_def)
  have full: "pr_bytes demo_proof \<noteq> []" "witness_bytes (pr_public demo_proof) \<noteq> []"
    using demo_witness_length by (auto simp: demo_proof_def)
  have enc: "encode_request ref_codec \<lparr>rq_id = 1, rq_witness = cw_bytes demo_circuit_witness\<rparr> =
      Some (u64_be 1 @ cw_bytes demo_circuit_witness)"
    by (simp add: ref_codec_def)
  have len: "length (u64_be 1 @ cw_bytes demo_circuit_witness) \<le> MAX_REQUEST_BYTES"
    by (simp add: demo_circuit_witness_def MAX_REQUEST_BYTES_def)
  have "exchange ref_codec 0 (0 + 1) (cw_bytes demo_circuit_witness) ?result
      (framed 0 (u64_be 1 @ cw_bytes demo_circuit_witness) @ [Received 0 demo_response_frame])"
    unfolding exchange_def using enc len demo_response full
    by (intro exI conjI) (auto simp: failure_try_from_def)
  from session_exchange [OF opened _ this] show ?thesis by (simp add: demo_log_def)
qed

theorem worker_serves_session_witness:
  "\<exists>answers. delivered 0 demo_log = message_frame demo_ready_frame @ answers"
proof -
  have answers: "response_frames ref_proto demo_proving 1 ws () \<noteq> None" if "length ws = unat (1 :: u64)" for ws
  proof -
    from that obtain w where ws: "ws = [w]" by (auto simp: length_Suc_conv)
    obtain rs where rs: "go_prove demo_proving \<lparr>rq_id = 1, rq_witness = w\<rparr> () = (rs, ())"
      by (cases "go_prove demo_proving \<lparr>rq_id = 1, rq_witness = w\<rparr> ()") auto
    have "rs_proof rs = pr_bytes demo_proof \<and> rs_public rs = witness_bytes (pr_public demo_proof) \<or>
        rs_proof rs = [] \<and> rs_public rs = []"
    proof (cases "length w = 32")
      case True
      with rs show ?thesis by (auto simp: go_prove_def demo_prover_proves)
    next
      case False
      then have "\<exists>err. prover_prove ref_gnark demo_prover w () = (Inl err, ())"
        by (simp add: prover_prove_def bindG_def witnessFromBytes_def ref_gnark_def)
      with rs show ?thesis by (auto simp: go_prove_def)
    qed
    then have "writeMessage (marshal_response ref_proto rs) \<noteq> Inl err" for err
      by (auto simp: writeMessage_def ref_proto_def maxResponseBytes_def demo_witness_length demo_proof_def [THEN arg_cong, of pr_bytes])
    then show ?thesis using rs by (simp add: ws split: sum.splits)
  qed
  have "unat (1 :: u64) < 2 ^ 64 - 1" by simp
  have "\<exists>ws answers. length ws = unat (1 :: u64) \<and>
      request_frames ref_codec 1 ws = Some (written 0 demo_log) \<and>
      response_frames ref_proto demo_proving 1 ws () = Some answers \<and>
      (quiescent ref_proto demo_proving demo_worker_end \<longrightarrow>
        gw_stdout demo_worker_end = message_frame demo_ready_frame @ answers) \<and>
      (gw_exit demo_worker_end \<noteq> None \<longrightarrow>
        gw_closed demo_worker_end \<or> gw_serve demo_worker_end = Stopped StdoutFailed) \<and>
      wfp (\<lambda>z y. \<exists>l. gw_step ref_proto demo_proving y l z \<and> \<not> by_client l)"
    by (rule worker_serves_session [OF ref_proto_agrees demo_session \<open>unat (1 :: u64) < 2 ^ 64 - 1\<close>
          demo_greeting answers demo_worker_runs]) (simp_all add: demo_worker_end_def)
  then show ?thesis using demo_worker_quiescent by (auto simp: demo_worker_end_def)
qed

text \<open>
  C9. A proof that the client returns is verified. If the client's children are processes of the
  worker whose prover was opened on a bundle that did not change meanwhile, then a proof that
  \<open>prove\<close> returns is one that gnark has verified, under the verifying key of the file with the
  pinned digest, for the witness of this plan, and the public witness it was verified for is the
  client's own encoding of the public inputs it hands out.
\<close>

theorem returned_proof_verified:
  assumes "proto_agrees C W" "pipe_spec G" "steady G directory files"
    and "go_main G L' W directory e0 = Inr (gp, x0)"
    and "supervised C (artifact_id v) (vl_worker v) s"
    and "veil_prove L N os C p public v s = (Returned (Inr proof), v', t)"
    and "\<And>pid. pid < sys_spawned t \<Longrightarrow>
      worker_child W (prover_prove G gp) (gp_artifact gp) pid (sys_log t)"
  shows "\<exists>w m. witness_build L N (vl_artifacts v) p public = Inr w \<and>
    verified_for G gp (cw_bytes w) (pr_bytes proof, witness_bytes (pr_public proof)) \<and>
    pr_public proof = cw_public w \<and> gk_unmarshal G pinnedManifest = Some m \<and>
    pinned_file L' files ''transaction.vk'' (gf_VK (gm_Files m)) (gk_read_vk G) (gp_vk gp)"
proof -
  obtain e1 where "openProver G L' directory e0 = (Inr gp, e1)"
    using assms(4) by (auto simp: go_main_def split: if_splits prod.splits sum.splits)
  from openProver_pinned [OF assms(3) this] obtain m where
    m: "gk_unmarshal G pinnedManifest = Some m"
      "pinned_file L' files ''transaction.vk'' (gf_VK (gm_Files m)) (gk_read_vk G) (gp_vk gp)" by metis
  obtain w where w: "witness_build L N (vl_artifacts v) p public = Inr w" "pr_public proof = cw_public w"
    using assms(6,5) by (rule veil_prove_cases) auto
  from returned_proof [OF assms(1,5,6) w(1) assms(7)] obtain e e' where
    "prover_prove G gp (cw_bytes w) e = (Inr (pr_bytes proof, witness_bytes (pr_public proof)), e')"
    by blast
  from prover_prove_verified [OF assms(2) this] m w show ?thesis by blast
qed

lemma demo_worker_child:
  "worker_child ref_proto demo_proving ''transaction-v4'' 0 demo_log"
proof -
  have "length bs \<le> MAX_RESPONSE_BYTES" if "Received 0 bs \<in> set demo_log" for bs
  proof -
    from that have "bs = demo_ready_frame \<or> bs = demo_response_frame" by (auto simp: demo_log_def framed_def)
    then show ?thesis
      by (auto simp: demo_ready_frame_def demo_response_frame_def demo_witness_length
          demo_proof_def [THEN arg_cong, of pr_bytes] MAX_RESPONSE_BYTES_def)
  qed
  moreover have "gw_stdin demo_worker_end = written 0 demo_log" "gw_stdout demo_worker_end = delivered 0 demo_log @ []"
    by (simp_all add: demo_worker_end_def)
  ultimately show ?thesis unfolding worker_child_def using demo_worker_runs by blast
qed

theorem returned_proof_verified_witness:
  "verified_for ref_gnark demo_prover (cw_bytes demo_circuit_witness)
     (pr_bytes demo_proof, witness_bytes (pr_public demo_proof))"
proof -
  have main: "go_main ref_gnark ref_crypto ref_proto ''artifacts'' () =
      Inr (demo_prover, serve_start ref_proto ''transaction-v4'' ())"
    by (simp add: go_main_def demo_prover_opened) (simp add: demo_prover_def)
  have artifact: "gp_artifact demo_prover = ''transaction-v4''" by (simp add: demo_prover_def)
  have built: "witness_build ref_crypto ref_noir (vl_artifacts demo_veil) demo_plan demo_public =
      Inr demo_circuit_witness"
    using demo_witness_built by (simp add: demo_veil_def)
  have "\<exists>w m. witness_build ref_crypto ref_noir (vl_artifacts demo_veil) demo_plan demo_public = Inr w \<and>
      verified_for ref_gnark demo_prover (cw_bytes w)
        (pr_bytes (demo_proof\<lparr>pr_artifact := ''transaction-v4''\<rparr>),
         witness_bytes (pr_public (demo_proof\<lparr>pr_artifact := ''transaction-v4''\<rparr>))) \<and>
      pr_public (demo_proof\<lparr>pr_artifact := ''transaction-v4''\<rparr>) = cw_public w \<and>
      gk_unmarshal ref_gnark pinnedManifest = Some m \<and>
      pinned_file ref_crypto (demo_files ''artifacts'') ''transaction.vk'' (gf_VK (gm_Files m))
        (gk_read_vk ref_gnark) (gp_vk demo_prover)"
    by (rule returned_proof_verified [OF ref_proto_agrees ref_pipe_spec ref_steady main demo_supervised demo_proved])
      (use demo_worker_child in \<open>simp add: artifact\<close>)
  then show ?thesis by (elim exE conjE) (simp add: built)
qed

lemma hex_digit_inj: "hex_digit m = hex_digit n \<longleftrightarrow> m mod 16 = n mod 16"
proof -
  have "distinct ''0123456789abcdef''" by simp
  then show ?thesis
    unfolding hex_digit_def by (subst nth_eq_iff_index_eq) simp_all
qed

lemma hex_bytes_inj: "hex_bytes xs = hex_bytes ys \<Longrightarrow> xs = ys"
proof (induction xs arbitrary: ys)
  case Nil
  then show ?case by (cases ys) (simp_all add: hex_bytes_def)
next
  case (Cons x xs)
  then obtain y zs where ys: "ys = y # zs" by (cases ys) (auto simp: hex_bytes_def)
  with Cons.prems have "hex_digit (unat x div 16) = hex_digit (unat y div 16)"
    "hex_digit (unat x) = hex_digit (unat y)" "hex_bytes xs = hex_bytes zs"
    by (simp_all add: hex_bytes_def)
  moreover from this have "unat x div 16 = unat y div 16" "unat x mod 16 = unat y mod 16"
    using unat_byte_less [of x] unat_byte_less [of y] by (simp_all add: hex_digit_inj)
  then have "unat x = unat y" by (metis div_mult_mod_eq)
  ultimately show ?case using Cons.IH ys by (simp add: word_unat_eq_iff)
qed

definition same_file :: "'fr crypto \<Rightarrow> bytes option \<Rightarrow> bytes option \<Rightarrow> bool" where
  "same_file L f g \<longleftrightarrow>
     (case (f, g) of
        (Some b, Some b') \<Rightarrow> b = b' \<or> sha256_digest L b = sha256_digest L b'
      | _ \<Rightarrow> False)"

lemma checked_same:
  assumes "checked_file L read d name e = Inr b" "checked_file L read' d' name e = Inr b'"
  shows "same_file L (read d name) (read' d' name)"
  using assms hex_bytes_inj [of "sha256_digest L b" "sha256_digest L b'"]
  by (auto simp: checked_file_eq_Inr same_file_def)

text \<open>
  C32. The artifacts are pinned. Two bundles that \<open>Artifacts::open\<close> accepts, whatever the
  directories held, have the same manifest and the same four files, up to two different files with
  one SHA-256 digest; so, with no such collision on \<open>transaction.json\<close>, the same program.
\<close>

theorem artifacts_pinned:
  assumes "artifacts_open L N read d = Inr a" "artifacts_open L N read' d' = Inr a'"
  shows "ar_manifest a = ar_manifest a' \<and>
    list_all (\<lambda>name. same_file L (read d name) (read' d' name))
      [''transaction.json'', ''transaction.ccs'', ''transaction.pk'', ''transaction.vk''] \<and>
    (ar_program a = ar_program a' \<or> read d ''transaction.json'' \<noteq> read' d' ''transaction.json'')"
proof -
  note o1 = assms(1) [unfolded artifacts_open_eq_Inr] and o2 = assms(2) [unfolded artifacts_open_eq_Inr]
  have m: "ar_manifest a = ar_manifest a'"
    using o1 o2 by (metis option.inject)
  obtain b b' where b: "checked_file L read d ''transaction.json'' (fl_acir (mf_files (ar_manifest a))) = Inr b"
    "json_program N b = Some (ar_program a)"
    "checked_file L read' d' ''transaction.json'' (fl_acir (mf_files (ar_manifest a))) = Inr b'"
    "json_program N b' = Some (ar_program a')"
    using o1 o2 unfolding m by blast
  have program: "ar_program a = ar_program a' \<or> read d ''transaction.json'' \<noteq> read' d' ''transaction.json''"
    using b by (auto simp: checked_file_eq_Inr)
  have rest: "same_file L (read d ''transaction.ccs'') (read' d' ''transaction.ccs'')"
    "same_file L (read d ''transaction.pk'') (read' d' ''transaction.pk'')"
    "same_file L (read d ''transaction.vk'') (read' d' ''transaction.vk'')"
    using o1 o2 unfolding m by (blast intro: checked_same)+
  show ?thesis using m program rest checked_same [OF b(1,3)] by simp
qed

theorem artifacts_pinned_witness:
  "list_all (\<lambda>name. same_file ref_crypto (demo_files ''a'' name) (demo_files ''b'' name))
     [''transaction.json'', ''transaction.ccs'', ''transaction.pk'', ''transaction.vk'']"
  using artifacts_pinned [OF demo_artifacts_open [of "''a''"] demo_artifacts_open [of "''b''"]] by blast

lemma withdrawal_magnitude: "withdrawal_new r x = Inr wd \<Longrightarrow> unsigned_abs (withdrawal_public_amount wd) = x"
  using withdrawal_flow(3) [of r x wd]
  by (simp add: unsigned_abs_def withdrawal_public_amount_def withdrawal_new_eq_Inr)

text \<open>
  C8. A withdrawal pays out. If \<open>Veil::withdraw\<close> returns, with a proof that the configured
  verifier accepts, then the data of the returned instruction are the encoding of arguments that the
  program accepts on any chain state in which the referenced accounts are in place, the root is in
  the window and the vault can pay. After it the associated token account of the recipient that the
  caller named holds exactly the amount that the caller named more, and the pool's vault that much
  less; the two nullifiers of the proof are recorded, its two commitments are the next leaves of
  the tree, and no other account has changed.
\<close>

theorem withdrawal_accepted:
  assumes "spl_spec R" "light_spec R H TREE_HEIGHT lv" "fr_spec L" "poseidon_spec L"
    and "system_program_id R = SYSTEM_PROGRAM" "R = su_runtime S" "L = su_crypto S"
    and "sdk_pool_new R L pool_program_id verifier mint domain = Inr sp"
    and "withdrawal_new recipient x = Inr wd"
    and call: "veil_withdraw S v sp t wd payer g s = Some (Returned (Inr pp), v', s')"
    and c: "transact_ctx_of (si_accounts (pp_instruction pp)) = Some c"
    and "length (pr_bytes (pp_proof pp)) = 388"
      "cpi_invoke R verifier (pr_bytes (pp_proof pp) @ witness_bytes (pr_public (pp_proof pp)))"
    and other: "tr_recipient_ata c = tr_vault c \<Longrightarrow> recipient = pool_address R"
    and ready: "chain_ready R lv ls l c (accts w)" and "pool_verifier (tl_pool l) = verifier"
      "asset_mint (pool_asset (tl_pool l)) = mint" "pool_domain (tl_pool l) = domain"
    and pay: "ta_owner (tl_recipient l) = recipient"
      "transfer_conditions (accts w) (tr_vault c) (tr_mint c) (tr_recipient_ata c) x
         (mint_decimals (tl_mint l)) (tl_vault l) (tl_recipient l)"
    and "spi_root (pr_public (pp_proof pp)) \<in> set (recent_roots H TREE_HEIGHT ROOTS_SIZE ls)"
      "spi_root (pr_public (pp_proof pp)) \<noteq> replicate 32 0"
  shows "\<exists>a encoded w'. su_borsh S a = Some encoded \<and>
    si_data (pp_instruction pp) = transact_discriminator L @ encoded \<and>
    transact R L c a w = Inr w' \<and>
    unsigned_abs (tx_ext_amount a) = x \<and> ed_recipient (tx_ext_data a) = recipient \<and>
    tx_nullifiers a = spi_nullifiers (pr_public (pp_proof pp)) \<and>
    tx_out_commitments a = spi_commitments (pr_public (pp_proof pp)) \<and>
    transact_effect lv ls c a w w' \<and>
    balance (accts w') (ata_address R recipient mint) =
      balance (accts w) (ata_address R recipient mint) + unat x \<and>
    balance (accts w') (ata_address R (pool_address R) mint) + unat x =
      balance (accts w) (ata_address R (pool_address R) mint)"
proof -
  note flow = withdrawal_flow(2,3) [OF assms(9)] and mag = withdrawal_magnitude [OF assms(9)]
  have wd: "wd_recipient wd = recipient" using assms(9) by (simp add: withdrawal_new_eq_Inr)
  have "spo_address sp = pool_address R" by (rule sdk_pool_addresses(2) [OF assms(8)])
  with call wd have prep: "recipient \<noteq> pool_address R"
    "veil_prepare S v sp t recipient (withdrawal_public_amount wd) payer g s = Some (Returned (Inr pp), v', s')"
    by (auto simp: veil_withdraw_def split: if_splits)
  have "\<exists>a encoded w'. su_borsh S a = Some encoded \<and>
    si_data (pp_instruction pp) = transact_discriminator L @ encoded \<and>
    tx_ext_amount a = withdrawal_public_amount wd \<and> ed_recipient (tx_ext_data a) = recipient \<and>
    tx_nullifiers a = spi_nullifiers (pr_public (pp_proof pp)) \<and>
    tx_out_commitments a = spi_commitments (pr_public (pp_proof pp)) \<and>
    c = client_ctx R verifier mint (client_recipient_ata R mint recipient (withdrawal_public_amount wd))
      (tx_nullifiers a) payer \<and>
    transact R L c a w = Inr w'"
  proof (rule prepared_accepted [OF assms(1-8) prep(2) c assms(12,13) _ _ assms(15-18) _ assms(21,22)])
    show "sint (withdrawal_public_amount wd) \<le> 0" using flow(2) by simp
    show "tr_recipient_ata c \<noteq> tr_vault c" using other prep(1) by blast
    show "payable c l a (accts w)"
      if "tx_ext_amount a = withdrawal_public_amount wd" "ed_recipient (tx_ext_data a) = recipient" for a
      using that pay mag by (simp add: payable_def)
  qed
  then obtain a encoded w' where a: "su_borsh S a = Some encoded"
    "si_data (pp_instruction pp) = transact_discriminator L @ encoded"
    "tx_ext_amount a = withdrawal_public_amount wd" "ed_recipient (tx_ext_data a) = recipient"
    "tx_nullifiers a = spi_nullifiers (pr_public (pp_proof pp))"
    "tx_out_commitments a = spi_commitments (pr_public (pp_proof pp))"
    and ctx: "c = client_ctx R verifier mint
      (client_recipient_ata R mint recipient (withdrawal_public_amount wd)) (tx_nullifiers a) payer"
    and run: "transact R L c a w = Inr w'"
    by blast
  have at: "tr_tree c = tree_address R" "tr_vault c = ata_address R (pool_address R) mint"
    "tr_recipient_ata c = ata_address R recipient mint"
    using ctx flow by (simp_all add: client_ctx_def client_recipient_ata_def)
  have effect: "transact_effect lv ls c a w w'"
    using transact_has_effect [OF assms(1,2) _ _ run] ready at(1) by (simp add: chain_ready_def)
  then have "balance (accts w') (tr_recipient_ata c) = balance (accts w) (tr_recipient_ata c) + unat x"
    "balance (accts w') (tr_vault c) + unat x = balance (accts w) (tr_vault c)"
    using mag a(3) by (simp_all add: transact_effect_def)
  with a run effect mag show ?thesis unfolding at by metis
qed

theorem withdrawal_accepted_witness:
  "\<exists>a w'. si_data (pp_instruction demo_prepared) = transact_discriminator ref_crypto @ tx_proof a \<and>
     transact ref_runtime ref_crypto demo_client_ctx a demo_sdk_world = Inr w' \<and>
     balance (accts w') (addr 1005) = 300 \<and> balance (accts w') (addr 123623913060899) = 700"
proof -
  have accts: "tr_recipient_ata demo_client_ctx \<noteq> tr_vault demo_client_ctx"
    "pool_verifier (tl_pool demo_sdk_loaded) = addr 6" "asset_mint (pool_asset (tl_pool demo_sdk_loaded)) = addr 1"
    "pool_domain (tl_pool demo_sdk_loaded) = demo_domain"
    by (simp_all add: demo_sdk_loaded_def demo_loaded_def demo_pool_def demo_client_ctx_def client_ctx_def
        ref_pool_address)
  have sys: "system_program_id ref_runtime = SYSTEM_PROGRAM"
    by (simp add: SYSTEM_PROGRAM_def addr_def)
  have pay: "ta_owner (tl_recipient demo_sdk_loaded) = addr 4"
    "transfer_conditions (accts demo_sdk_world) (tr_vault demo_client_ctx) (tr_mint demo_client_ctx)
       (tr_recipient_ata demo_client_ctx) 300 (mint_decimals (tl_mint demo_sdk_loaded))
       (tl_vault demo_sdk_loaded) (tl_recipient demo_sdk_loaded)"
    using demo_client_payable by (simp_all add: payable_def instruction_args_def demo_external_def unsigned_abs_neg_300)
  have pr: "pr_public (pp_proof demo_prepared) = pr_public demo_proof" "pr_bytes (pp_proof demo_prepared) = pr_bytes demo_proof"
    "pp_instruction demo_prepared = demo_instruction"
    by (simp_all add: demo_prepared_def)
  have before: "balance (accts demo_sdk_world) (addr 1005) = 0"
    "balance (accts demo_sdk_world) (addr 123623913060899) = 1000"
    by (simp_all add: demo_sdk_world_def demo_w2 balance_def)
  have ata: "ata_address ref_runtime (addr 4) (addr 1) = addr 1005"
    "ata_address ref_runtime (pool_address ref_runtime) (addr 1) = addr 123623913060899"
    by (simp_all add: ref_pool_address)
  have "\<exists>a encoded w'. su_borsh demo_surroundings a = Some encoded \<and>
    si_data (pp_instruction demo_prepared) = transact_discriminator ref_crypto @ encoded \<and>
    transact ref_runtime ref_crypto demo_client_ctx a demo_sdk_world = Inr w' \<and>
    unsigned_abs (tx_ext_amount a) = 300 \<and> ed_recipient (tx_ext_data a) = addr 4 \<and>
    tx_nullifiers a = spi_nullifiers (pr_public (pp_proof demo_prepared)) \<and>
    tx_out_commitments a = spi_commitments (pr_public (pp_proof demo_prepared)) \<and>
    transact_effect ref_leaves [demo_leaf] demo_client_ctx a demo_sdk_world w' \<and>
    balance (accts w') (ata_address ref_runtime (addr 4) (addr 1)) =
      balance (accts demo_sdk_world) (ata_address ref_runtime (addr 4) (addr 1)) + unat (300 :: u64) \<and>
    balance (accts w') (ata_address ref_runtime (pool_address ref_runtime) (addr 1)) + unat (300 :: u64) =
      balance (accts demo_sdk_world) (ata_address ref_runtime (pool_address ref_runtime) (addr 1))"
    by (rule withdrawal_accepted [OF ref_spl_spec ref_light_spec ref_fr_spec ref_poseidon_spec sys _ _
          demo_sdk_pool demo_withdrawal(1) demo_withdrawn _ _ _ _ demo_chain_ready accts(2-4) pay])
      (use accts(1) demo_root_known demo_verified demo_client_ctx in
        \<open>simp_all add: demo_surroundings_def pr, simp_all add: demo_proof_def\<close>)
  then show ?thesis
    unfolding ata before by (elim exE conjE) (auto simp: demo_surroundings_def)
qed

end
