(* ===== verification/Modulus.thy ===== *)
theory Modulus
  imports Crates
begin

text \<open>
  The field order has no small factor. The circuit multiplies a 64-bit value with a difference
  of field elements and asserts that the product is zero; that this means what it says needs that
  no number below \<open>2 ^ 64\<close> shares a factor with the order. The certificate is a unit of order
  \<open>2 ^ 28 * 983 * 11003 * 237073\<close>: modulo any factor of the field order its powers are as
  many different residues, so the factor is larger than that.
\<close>

section \<open>Orders of units\<close>

definition has_order :: "nat \<Rightarrow> nat \<Rightarrow> nat \<Rightarrow> bool" where
  "has_order p x a \<longleftrightarrow> (\<forall>n. x ^ n mod p = 1 mod p \<longleftrightarrow> a dvd n)"

lemma power_mult_one: "x ^ a mod p = 1 mod p \<Longrightarrow> x ^ (a * k) mod p = 1 mod (p :: nat)"
  by (metis power_mod power_mult power_one)

lemma mult_one_mod: "x mod p = 1 mod p \<Longrightarrow> x * y mod p = y mod (p :: nat)"
  by (metis mod_mult_left_eq mult_1)

lemma power_gcd_one:
  assumes "x ^ a mod p = 1 mod p" "x ^ b mod p = 1 mod (p :: nat)"
  shows "x ^ gcd a b mod p = 1 mod p"
proof (cases "a = 0")
  case True
  then show ?thesis using assms(2) by simp
next
  case False
  then obtain u v where "a * u = b * v + gcd a b" using bezout_nat by blast
  then have "x ^ (a * u) = x ^ (b * v) * x ^ gcd a b" by (simp add: power_add)
  then show ?thesis
    using power_mult_one [OF assms(1), of u] mult_one_mod [OF power_mult_one [OF assms(2), of v]]
    by metis
qed

lemma has_order_gcd:
  assumes "x ^ a mod p = 1 mod p" and "\<And>d. d dvd a \<Longrightarrow> x ^ d mod p = 1 mod p \<Longrightarrow> d = a"
  shows "has_order p x a"
  unfolding has_order_def
proof (intro allI iffI)
  fix n assume "x ^ n mod p = 1 mod p"
  then have "gcd n a = a" using power_gcd_one assms by (meson gcd_dvd2)
  then show "a dvd n" by (metis gcd_dvd1)
next
  fix n assume "a dvd n"
  then show "x ^ n mod p = 1 mod p" using power_mult_one [OF assms(1)] by auto
qed

lemma has_order_mult:
  assumes "has_order p x a" "has_order p y b" "coprime a b"
  shows "has_order p (x * y) (a * b)"
  unfolding has_order_def
proof (intro allI iffI)
  have one: "x ^ (a * k) mod p = 1 mod p" "y ^ (b * k) mod p = 1 mod p" for k
    using assms(1,2) by (simp_all add: has_order_def)
  fix n assume n: "(x * y) ^ n mod p = 1 mod p"
  have "y ^ (n * a) mod p = 1 mod p"
    using power_mult_one [OF n, of a] mult_one_mod [OF one(1) [of n], of "y ^ (n * a)"]
    by (simp add: power_mult_distrib mult.commute)
  then have "b dvd n" using assms(2,3) by (simp add: has_order_def coprime_dvd_mult_left_iff coprime_commute)
  moreover have "x ^ (n * b) mod p = 1 mod p"
    using power_mult_one [OF n, of b] mult_one_mod [OF one(2) [of n], of "x ^ (n * b)"]
    by (simp add: power_mult_distrib mult.commute)
  then have "a dvd n" using assms(1,3) by (simp add: has_order_def coprime_dvd_mult_left_iff)
  ultimately show "a * b dvd n" using assms(3) by (simp add: divides_mult)
next
  fix n assume "a * b dvd n"
  then have "a dvd n" "b dvd n" by (auto dest: dvd_mult_left dvd_mult_right)
  then have "x ^ n mod p = 1 mod p" "y ^ n mod p = 1 mod p"
    using assms(1,2) by (simp_all add: has_order_def)
  then show "(x * y) ^ n mod p = 1 mod p"
    using mult_one_mod by (simp add: power_mult_distrib)
qed

lemma dvd_power_two:
  assumes "d dvd 2 ^ Suc k" "d \<noteq> 2 ^ Suc k"
  shows "d dvd (2 :: nat) ^ k"
proof -
  obtain c where c: "2 ^ Suc k = d * c" using assms(1) by (rule dvdE)
  have "even c"
  proof (rule ccontr)
    assume "odd c"
    then have "coprime c (2 ^ Suc k)" by (simp add: coprime_commute)
    moreover have "c dvd 2 ^ Suc k" unfolding c by simp
    ultimately have "c = 1" by (metis coprime_absorb_left nat_dvd_1_iff_1)
    with c assms(2) show False by simp
  qed
  then obtain c' where "c = 2 * c'" by (rule evenE)
  with c show ?thesis by simp
qed

lemma has_order_two_power:
  assumes "x ^ 2 ^ k mod p = p - 1" "2 < p"
  shows "has_order p x (2 ^ Suc k)"
proof (rule has_order_gcd)
  have "(p - 1) * (p - 1) mod p = 1 mod p"
  proof -
    obtain q where "p = q + 2" using assms(2) by (metis add.commute le_Suc_ex less_imp_le_nat)
    then have "(p - 1) * (p - 1) = 1 + p * q" by (simp add: algebra_simps)
    then show ?thesis by (simp only: mod_mult_self2)
  qed
  then show "x ^ 2 ^ Suc k mod p = 1 mod p"
    using assms(1) by (metis mod_mult_eq mult_2 power_Suc power_add)
  fix d assume d: "d dvd 2 ^ Suc k" "x ^ d mod p = 1 mod p"
  show "d = 2 ^ Suc k"
  proof (rule ccontr)
    assume "d \<noteq> 2 ^ Suc k"
    with d(1) have "d dvd 2 ^ k" by (rule dvd_power_two)
    then have "x ^ 2 ^ k mod p = 1 mod p" using power_mult_one [OF d(2)] by (auto elim: dvdE)
    with assms show False by simp
  qed
qed

section \<open>Prime orders\<close>

fun no_divisor :: "nat \<Rightarrow> nat \<Rightarrow> nat \<Rightarrow> bool" where
  "no_divisor q d 0 = (q mod d \<noteq> 0)"
| "no_divisor q d (Suc n) = (no_divisor q d n \<and> no_divisor q (d + 2 ^ n) n)"

lemma no_divisor_numeral [simp]:
  "no_divisor q d (numeral k) =
     (no_divisor q d (pred_numeral k) \<and> no_divisor q (d + 2 ^ pred_numeral k) (pred_numeral k))"
  by (simp add: numeral_eq_Suc)

lemma no_divisor_range: "no_divisor q d n \<Longrightarrow> d \<le> e \<Longrightarrow> e < d + 2 ^ n \<Longrightarrow> \<not> e dvd q"
proof (induction n arbitrary: d)
  case 0
  then have "e = d" by simp
  with 0 show ?case by (simp add: dvd_eq_mod_eq_0)
next
  case (Suc n)
  show ?case
  proof (cases "e < d + 2 ^ n")
    case True
    with Suc.prems Suc.IH [of d] show ?thesis by simp
  next
    case False
    with Suc.prems Suc.IH [of "d + 2 ^ n"] show ?thesis by simp
  qed
qed

lemma prime_divisors:
  assumes "no_divisor q 2 n" "q < 2 ^ n * 2 ^ n" "d dvd q" "0 < q"
  shows "d = 1 \<or> d = q"
proof -
  obtain c where c: "q = d * c" using assms(3) by (rule dvdE)
  have small: "e = 1" if "e dvd q" "e < 2 ^ n" for e
  proof -
    have "e \<noteq> 0" using that(1) assms(4) by auto
    moreover have "\<not> (2 \<le> e)" using no_divisor_range [OF assms(1), of e] that by auto
    ultimately show ?thesis by simp
  qed
  have "d < 2 ^ n \<or> c < 2 ^ n"
  proof (rule ccontr)
    assume "\<not> (d < 2 ^ n \<or> c < 2 ^ n)"
    then have "2 ^ n * 2 ^ n \<le> d * c" by (simp add: mult_le_mono)
    with assms(2) c show False by simp
  qed
  then show ?thesis using small [of d] small [of c] c by auto
qed

lemma has_order_prime:
  assumes "no_divisor q 2 n" "q < 2 ^ n * 2 ^ n" "0 < q"
    and "x ^ q mod m = 1" "p dvd m" "1 < p" and "u * (x - 1) = v * m + 1" "0 < x"
  shows "has_order p x q"
proof (rule has_order_gcd)
  show "x ^ q mod p = 1 mod p" using assms(4,5) by (metis mod_mod_cancel)
  fix d assume d: "d dvd q" "x ^ d mod p = 1 mod p"
  have "d \<noteq> 1"
  proof
    assume "d = 1"
    with d(2) have "x mod p = 1 mod p" by simp
    then have "p dvd x - 1" using assms(8) by (subst mod_eq_dvd_iff_nat [symmetric]) auto
    then have "p dvd u * (x - 1)" by (rule dvd_mult)
    then have "p dvd v * m + 1" unfolding assms(7) .
    moreover have "p dvd v * m" using assms(5) by simp
    ultimately have "p dvd 1" using dvd_add_right_iff by blast
    with assms(6) show False by simp
  qed
  with prime_divisors [OF assms(1,2) d(1) assms(3)] show "d = q" by blast
qed

text \<open>A unit of order \<open>a\<close> has \<open>a\<close> different powers, none of them zero.\<close>

lemma order_less:
  assumes "has_order p x a" "1 < p" "0 < a"
  shows "a < p"
proof -
  have "inj_on (\<lambda>n. x ^ n mod p) {0..<a}"
  proof (rule linorder_inj_onI)
    fix i j assume ij: "i < j" "j \<in> {0..<a}"
    show "x ^ i mod p \<noteq> x ^ j mod p"
    proof
      assume "x ^ i mod p = x ^ j mod p"
      then have "x ^ (a - j) * x ^ i mod p = x ^ (a - j) * x ^ j mod p"
        by (metis mod_mult_right_eq)
      moreover have "x ^ (a - j) * x ^ j mod p = 1 mod p"
        using assms(1) ij by (simp add: has_order_def flip: power_add)
      ultimately have "x ^ (a - j + i) mod p = 1 mod p" by (simp add: power_add)
      then have "a dvd a - j + i" using assms(1) by (simp add: has_order_def)
      then have "a \<le> a - j + i" using ij by (intro dvd_imp_le) auto
      with ij show False by simp
    qed
  qed auto
  moreover have "(\<lambda>n. x ^ n mod p) ` {0..<a} \<subseteq> {1..<p}"
  proof
    fix y assume "y \<in> (\<lambda>n. x ^ n mod p) ` {0..<a}"
    then obtain n where n: "n < a" "y = x ^ n mod p" by auto
    have "y \<noteq> 0"
    proof
      assume "y = 0"
      then have "x ^ (a - n) * x ^ n mod p = 0" using n(2) by (metis mod_mult_right_eq mult_0_right mod_0)
      moreover have "x ^ (a - n) * x ^ n mod p = 1 mod p"
        using assms(1) n(1) by (simp add: has_order_def flip: power_add)
      ultimately show False using assms(2) by simp
    qed
    moreover have "y < p" using n(2) assms(2) by simp
    ultimately show "y \<in> {1..<p}" by simp
  qed
  ultimately have "card {0..<a} \<le> card {1..<p}" by (intro card_inj_on_le) auto
  then show ?thesis using assms(2) by simp
qed

section \<open>Certificates\<close>

text \<open>
  A power is computed by squaring and multiplying; a step names the quotient and the remainder,
  so checking it takes two products and no division.
\<close>

fun powers_ok :: "nat \<Rightarrow> nat \<Rightarrow> nat \<Rightarrow> (bool \<times> nat \<times> nat) list \<Rightarrow> bool" where
  "powers_ok m x acc [] = True"
| "powers_ok m x acc ((square, k, z) # ss) =
     ((if square then acc * acc else acc * x) = k * m + z \<and> powers_ok m x z ss)"

fun powers_exp :: "nat \<Rightarrow> (bool \<times> nat \<times> nat) list \<Rightarrow> nat" where
  "powers_exp e [] = e"
| "powers_exp e ((square, k, z) # ss) = powers_exp (if square then 2 * e else e + 1) ss"

fun powers_val :: "nat \<Rightarrow> (bool \<times> nat \<times> nat) list \<Rightarrow> nat" where
  "powers_val acc [] = acc"
| "powers_val acc ((square, k, z) # ss) = powers_val z ss"

lemma powers_ok_result:
  "powers_ok m x acc ss \<Longrightarrow> x ^ e mod m = acc mod m \<Longrightarrow> x ^ powers_exp e ss mod m = powers_val acc ss mod m"
proof (induction ss arbitrary: acc e)
  case (Cons s ss)
  obtain square k z where s: "s = (square, k, z)" by (cases s) auto
  have "x ^ (if square then 2 * e else e + 1) mod m = z mod m"
  proof (cases square)
    case True
    have "x ^ (2 * e) mod m = acc * acc mod m"
      by (metis Cons.prems(2) mod_mult_eq mult_2 power_add)
    with True Cons.prems(1) show ?thesis by (simp add: s)
  next
    case False
    have "x ^ (e + 1) mod m = acc * x mod m"
      by (metis Cons.prems(2) mod_mult_left_eq power_add power_one_right)
    with False Cons.prems(1) show ?thesis by (simp add: s)
  qed
  with Cons show ?case by (simp add: s split: if_splits)
qed simp

definition unit_2 :: nat where
  "unit_2 = 19103219067921713944291392827692070036145651957329286315305642004821462161904"

lemma unit_2_power: "unit_2 ^ 2 ^ 27 mod bn254_r = bn254_r - 1"
proof -
  have "powers_ok bn254_r unit_2 unit_2
     [(True, 16672557084356874012651953139829525463057504866793717780751343799479068144828, 2082940218526944230311718225077035922214683169814847712455127909555749686340),
      (True, 198217827687714114126275464786318396108164869989857940457871390719981903870, 7419588552507395652481651088034484897579724952953562618697845598160172257810),
      (True, 2515062292155245027069864333963322505919293137084736079961582785656570533418, 19200870435978225707111062059747084165650991997241425080699860725083300967194),
      (True, 16843445481571583430227885364460874020001252829742532869269498935021226449481, 5709868443893258075976348696661355716898495876243883251619397131511003808859),
      (True, 1489502736124766463390393674700237947022058754416888917930396911647706067644, 934650972362265999028062457054462628285482693704334323590406443310927365533),
      (True, 39910578718113555993165701453307131754816696752738973614033766035366198731, 12143866164239048021030917283424216263377309185099704096317235600302831912062),
      (True, 6737566202935584050794569747950519725015498739685143347432835735052917569761, 13536764371732269273912573961853310557438878140379554347802702086337840854307),
      (True, 8371799907774053986441269690360542829230568067858398985743985845792998361714, 17220337697351015657950521176323262483320249231368149235373741788599650842711),
      (True, 13547913925622945070431920400596411406900026260347035540648758368232353317076, 15549849457946371566896172786938980432421851627449396898353380550861104573629),
      (True, 11046926863000251731949665838047889186531977171501126998425904394322351506089, 11699596668367776675346610687704220591435078791727316319397053191800576917728),
      (True, 6253611265369711584577570298389666242657110490156066321537873852415837563675, 12650941915662020058015862023665998998969191525479888727406889100124684769509),
      (True, 7311977132680887666919112337312485366035861344977569222884081406616502008098, 421743594562400382753388642386256516545992082196004333756405989743524594615),
      (True, 8126173516799436175753176591810588407911105611305434511656385899525726166, 20402931748843538985151001264530049874871572933694634836567070693966133783803),
      (True, 19018412139584760463302058803488828214798745105558745409486914808582576230292, 20619701001583904760601357484951574588621083236087856586626117568842480512645),
      (True, 19424677982796567728361873563865850263252824252129332680410457715389974494729, 197302210312744933010843010704445784068657690384188106020011018676818793232),
      (True, 1778496447715242687608028032830735818407159063530376256336898723078507718, 4158865282786404163413953114870269622875596290766033564087307867933865333818),
      (True, 790203240234451776713197109817938542187136886744547052794430954663220997698, 1120550406532664055539694724667294622065367841900378087843176726913374367458),
      (True, 57365646979181544077046827509516816920958182236918040098956763040731604594, 3161067157621608152362653341354432744960400845131437947728257924963983317266),
      (True, 456516570722531153192819861264884875902520782487157749003120722497387113846, 6837567842312086091520287814181175430087169027974246751610506942214842701774),
      (True, 2135956470876446593359947062647111995017670062556736186509066251312223760206, 3478517300119284901893091970156912948790432420133812234316178878452092729974),
      (True, 552811967505931911077480175926022109607232560434870357042358802337152341587, 10359452186428527605436343203440067497552205259388878191021578220384701716497),
      (True, 4903008899858795211276705245240256617044142993777020929384679199057145376487, 9088801421649573101014283686030284801466796108869023335878462724291607593530),
      (True, 3774003777546619915214788881498883203705823661196401766653898994770377433684, 4419234939496763621076330863786513495701855246241724391626358375488475697872),
      (True, 892243272555933727136496954981132583515142470848341894421126000032742089461, 14940766826517323942636479241147756311199852622225275649687664389641784935947),
      (True, 10198466577303779716174263455274497776553713679034007698197024499811553945081, 19540430494807482326159819597004422086093766032135589407132600596362845576832),
      (True, 17444452995066617625487937660570427516240463878249347913698484080455254673866, 21888242871839275217838484774961031246007050428528088939761107053157389710902),
      (True, 21888242871839275213430563804664787404353416997930879449828600104561791390564, 21888242871839275222246405745257275088548364400416034343698204186575808495616)]"
    unfolding powers_ok.simps if_True if_False bn254_r_def unit_2_def
    by (intro conjI TrueI; simp)
  from powers_ok_result [OF this, of 1] show ?thesis
    by (simp add: bn254_r_def)
qed

definition unit_983 :: nat where
  "unit_983 = 7126879685284399999585885404354813824736962529068896379753601470480697959896"

lemma unit_983_power: "unit_983 ^ 983 mod bn254_r = 1"
proof -
  have "powers_ok bn254_r unit_983 unit_983
     [(True, 2320534103441779267189205448584516757432609592131405284845458919794375772318, 17220885855708295163879080308318869225369890667818302302139923304156331400610),
      (False, 5607173782119851551856564024841781523651220869821872538663051161381311815562, 12532736653322041403031823800947290170858299540793716677984711676169100544806),
      (True, 7175975200074302228321049301834347750448216259458760858623563879140840157410, 15950098779401143601917472049673441520327034002759245483704808201972438505666),
      (False, 5193401573382734493361892821041732049137847846212447348881352831835244427974, 21832481537251580834307027886137792562527536792110600393162863478770385580778),
      (True, 21776862257302680735517442873576628401564662718381054039889293069078741398880, 2380616466274694592746822603045354104058562035411630793237338153785434376324),
      (False, 775136096181345379464633019775765403583373207946440396696786974789244682824, 7249221378789401769321777601573864319812223381010051231566422986530164719896),
      (True, 2400887586381273655868841831749460412710044432819301111353589741298810147801, 6226383957937982120630846056253608051144915203746188416957507271016907562599),
      (True, 1771172652764418888734089374797329327525916336346635524384357293129985978123, 11795430665033025305549194241185472481488820626816352334763642157730200247910),
      (False, 3840628764858937946141692310250547058087218797792084615293160519656524883375, 47300138777278911846974798303656751144948814055659021518774453605314149985),
      (True, 102214834760824406959095366435834019246163906208460754936243108681342565, 13279855601662629869005754916472028643173572139037074474519322197074597462620),
      (True, 8057045320339649782670469202201148926358230595930575624141900210798941659987, 6560461398207119196278213258585363602399513219006577292866453234479103487421),
      (False, 2136106554497762687859656916683346869236317293740982963884711083673895682342, 18370665677803591186506447379051267611256425066146377791525315641194867173202),
      (True, 15418385085621641072881413255540314011738392936847226261145542861499434263093, 18832721460929705603484680625703972975916361003081486415765980929572951569423),
      (False, 6131992448384279294177982683893580554592657428513539364418777866600715207419, 18461884860251744140630512176589252781963960611170717194080736600659006477485),
      (True, 15571884622666907603027370729154338162729864772438078122790545187007165256504, 4671733440282693871272265945040251663728707340731702275808152675909647182257),
      (False, 1521130880425796109533257176340718986053067881816691289549320211825818354263, 1)]"
    unfolding powers_ok.simps if_True if_False bn254_r_def unit_983_def
    by (intro conjI TrueI; simp)
  from powers_ok_result [OF this, of 1] show ?thesis
    by (simp add: bn254_r_def)
qed

lemma unit_983_inverse:
  "2182979773476594597816621090240490251929741808593388263240661821959304335301 * (unit_983 - 1) =
     710784976759980282178454411707012067581443694152988473245121839271926298482 * bn254_r + 1"
  by (simp add: bn254_r_def unit_983_def)

definition unit_11003 :: nat where
  "unit_11003 = 2359631316250983314861130673654602926021363809688312583465277785189831415697"

lemma unit_11003_power: "unit_11003 ^ 11003 mod bn254_r = 1"
proof -
  have "powers_ok bn254_r unit_11003 unit_11003
     [(True, 254376743772145433673488249297941481607867787003500812094018493130096169653, 20337520617895788776587308537522891646589000225510167669156056303099279084908),
      (True, 18896662802269981502589436384680603585238725742619042196161566619344683310196, 4764858681414210534757642474687729125798542638928929615817219260923355957532),
      (False, 513668905631553780423255614547497743632819838152836267252816856332975522939, 14519645670575377802185775057056859937010265793883746254721041703769105721441),
      (True, 9631659865684916862790332256976573909305593906386911874680685651989145843121, 14087363075804987013635177607335605271304382065931275716719742752968989015824),
      (True, 9066684776459519230100025080729671204671946004232741461739449417138647422083, 6762627210115246930487594652051991827243201430338704870882819825776667888765),
      (False, 729035539241440179485379589497906571707580819956666388241588515207085210898, 15427355108460504079721085272433195461807915866787689665356461865953517310139),
      (True, 10873567468896735993423558923998413828780857083216962234785430818898325352658, 15424565725901271089112154921763749157798943927209100214243038222099939899335),
      (True, 10869635777787582369099967941604499102632409245914419400004530323593347408560, 1698846608621292442442195866873250581670997735243363170674943066910865160705),
      (False, 183141775366856172647293869136885374500903564362305587111367158350548654867, 20457826408235367008087252040217079097264721244063571122277655045175349368446),
      (True, 19120888953948444559221564243617579243868903653499067448035019129672824839007, 7782022924898226264980454176797287830050016004071713196749421897040170322597),
      (False, 838930064185179860326745098086395847289400632889639894164827746031956069837, 15030751829529000929926283395417513799819585604261508157231210598918939200680),
      (True, 10321682826882165034930170634287291194151960374627657519283925344713196805996, 10854691800654048763894861518191674312088418120147942748097771382991147142868),
      (False, 1170174821754606916057654339003056285545173222770979082849293075099119250602, 10779368485694960882682983631203016778568451621056619016305557105847115187562),
      (True, 5308547864291392228451831392803408787984292387846497752445414474759048987183, 449818792420556077086762770481329212362835827476950707282433112751694826933),
      (False, 48492083875737544979499716527860772541042058170333488915915834130211999947, 2856375627885263144214374898001703490771244408934439512974982117039840835002),
      (True, 372751790783256149705667291257216677741718572660693622739040412250576722883, 522044975631490178164064426669164005482270184019767903937942319758459236193),
      (False, 56278326232225069770733218502255402277366025060540882087013979198048288175, 12827389261378327111447404553429045876284579901485722227951026936413650292546),
      (True, 7517365200411700330539126527966209880359021239287369404462526087011010430345, 12336786982785834338569681688583711190288672092685075141190618453341166864251),
      (True, 6953336270516488054961873104031875046310656712563469536434410946829662956722, 8555667716262714747666093047631042289119709364466631171186035715613264103527),
      (False, 922331755588502024936685434652395153019783179257122593469254389459427785528, 12374179059401076365289809068579154223625117431666549340456903768154576832543),
      (True, 6995550455588186023407411877075949705349444576367649125083547128644298255721, 19530970506026845029361403781049381943542222957580336670003445769660490171992),
      (False, 2105508875821544997435385642706366124825217117358018782495205718546683740119, 1)]"
    unfolding powers_ok.simps if_True if_False bn254_r_def unit_11003_def
    by (intro conjI TrueI; simp)
  from powers_ok_result [OF this, of 1] show ?thesis
    by (simp add: bn254_r_def)
qed

lemma unit_11003_inverse:
  "16630704802727952925674427942468677774696084044157581070592138391231389425326 * (unit_11003 - 1) =
     1792849800398115061521113377061044119666256817982433045513507110502422995935 * bn254_r + 1"
  by (simp add: bn254_r_def unit_11003_def)

definition unit_237073 :: nat where
  "unit_237073 = 19162091871357529255726910181099886223371662303420150697274883840274314362093"

lemma unit_237073_power: "unit_237073 ^ 237073 mod bn254_r = 1"
proof -
  have "powers_ok bn254_r unit_237073 unit_237073
     [(True, 16775479285217359895830610513831687331715240160632006407907356672322348981040, 16943159643064547975188127320897484007038701831294072923855301590174259238969),
      (False, 14832912060254305096455802625933934872547682250505821156987324737577663056121, 1455908421824104955890405638932150496274628730041923634778205253041228480460),
      (True, 96840543352406593609747299739544290995527574860044086545601553780573511152, 11560959563991635831937999421256441825750871702179007362325665713127909190816),
      (False, 10121057710451190725745793141934304458724510228102122140210414013387249153588, 2081138307701253775004487769934364441352585465228091683693405888059996314092),
      (True, 197875027298511139138354753075133370376099529002813024223871072968734809729, 12015997891972339706005836686441520065859694048955936704987754636749692326671),
      (True, 6596427414721530184487787790542070489541926858996777288113953289957564515526, 9745371190617065849455831844698393353596072706546268135463768891129878492699),
      (True, 4338962254713347021549363629605144612422452781714209735903600838114348459846, 19193882492289555267796045925771373711290670462118579561388619441718004809619),
      (False, 16803310427374994179988848357087355249847185593636439665193554573322889352440, 10003869126153883866939242147007646477045358946819450676071385643118187117087),
      (True, 4572198786316068507151638709590694145505287526906679541897278890147158966896, 7084677879588476266916839702455527461472676442364241629362123396398583270737),
      (False, 6202290846393606269134947890582471981135814158550288423161437089518313321609, 1416828544932971687959902840634586655015818308631519350679125400233081084788),
      (True, 91711478965702792501230572525320736564073839422175201901233091002085414888, 20071298519641045437461681824750260632738098306229131196977639561554270459048),
      (False, 17571445477043236168703327716078368511694085011742832403807400404392919224333, 6659871212644033831065809920365901953535039256430765277098978225563129819003),
      (True, 2026379405085504894889222125839904013760507103931713381540625756891306784007, 1060717772297246628702944876437443405774375872340571988821029214054514716690),
      (False, 928606810576456873777098094969651048869158029282631523658763721830505673377, 12335551547938044955279107263983448271901360858668251302491154867904032343561),
      (True, 6951943693370127486469614596548394642144932345742765168397104575164638048611, 7090330118736931837709146374499147513141817688500764619827180465375511722734),
      (True, 2296793830689235126747862575845054091711435460744752791660088693035199624328, 15046268406415584527802803744859633947554747030750030768304398211067257864380),
      (True, 10343004428608852592124546060090992529056127580921395152580774982916803363747, 17202461111708106050785141915792097398047197421293376353079404189193166587501),
      (True, 13519800106044924134146316973206776339487950873972426529231814999286191897250, 15693899683789000119773811869525224112865454668856200385472240208483950071751),
      (True, 11252547256852324326943456256987697802144373062363033388440989512823458468959, 3473640794229274888404344005690125398404468285401268275747786871438166153298),
      (False, 3041003538605356209564951039186645335285020369419722137645156170813748308650, 107180226581402883236474838855417373755895951322321594524948951049829945664),
      (True, 524829747061169868727604440023236813719256095923543027452204863060086085, 9104579125063354994531430253812414932574620975920143400254948939194827211451),
      (True, 3787118113130378210078470624513439936582394964187741822752764855052909579214, 15312199605397390564944397329393706977775953750661190529401527749830832220363),
      (True, 10711844624914378653600174253838718101408269937998821511274877619968907562875, 16287610508676249527739759400393951362579371793798515730875587323325002432894),
      (True, 12120034378074721946292902066032101038869140612649689744995459498775747517390, 5587543422907443004158877793956504446299484502152789541393961138060526935606),
      (False, 4891622458315444442642868614154238422754697834377525440750728609022923956221, 1)]"
    unfolding powers_ok.simps if_True if_False bn254_r_def unit_237073_def
    by (intro conjI TrueI; simp)
  from powers_ok_result [OF this, of 1] show ?thesis
    by (simp add: bn254_r_def)
qed

lemma unit_237073_inverse:
  "10025837090376461100483308032170225330890788095991608503921730225399126091188 * (unit_237073 - 1) =
     8777132661490522150334276283669787897064443268376373190551135947256443761135 * bn254_r + 1"
  by (simp add: bn254_r_def unit_237073_def)

section \<open>The result\<close>

lemma bn254_r_factor:
  assumes "p dvd bn254_r" "1 < p"
  shows "2 ^ 64 < p"
proof -
  have "odd bn254_r" by (simp add: bn254_r_def)
  then have "p \<noteq> 2" using assms(1) by auto
  with assms(2) have "2 < p" by simp
  have "unit_2 ^ 2 ^ 27 mod p = (bn254_r - 1) mod p"
    using unit_2_power assms(1) by (metis mod_mod_cancel)
  also have "\<dots> = p - 1"
  proof -
    obtain k where k: "bn254_r = p * k" using assms(1) by (rule dvdE)
    moreover have "bn254_r \<noteq> 0" by (simp add: bn254_r_def)
    ultimately have "k \<noteq> 0" by (metis mult_0_right)
    then have "bn254_r - 1 = p * (k - 1) + (p - 1)" using k assms(2) by (cases k) auto
    then have "(bn254_r - 1) mod p = (p - 1) mod p" by (simp only: mod_mult_self4)
    then show ?thesis using assms(2) by simp
  qed
  finally have o2: "has_order p unit_2 (2 ^ Suc 27)" using \<open>2 < p\<close> by (rule has_order_two_power)
  have o3: "has_order p unit_983 983"
    by (rule has_order_prime [OF _ _ _ unit_983_power assms unit_983_inverse, where n = 5])
      (simp_all add: unit_983_def)
  have o4: "has_order p unit_11003 11003"
    by (rule has_order_prime [OF _ _ _ unit_11003_power assms unit_11003_inverse, where n = 7])
      (simp_all add: unit_11003_def)
  have o5: "has_order p unit_237073 237073"
    by (rule has_order_prime [OF _ _ _ unit_237073_power assms unit_237073_inverse, where n = 9])
      (simp_all add: unit_237073_def)
  have "has_order p (unit_2 * unit_983 * unit_11003 * unit_237073) (2 ^ Suc 27 * 983 * 11003 * 237073)"
    by (intro has_order_mult o2 o3 o4 o5) (simp_all add: coprime_iff_gcd_eq_1 gcd_non_0_nat)
  then have "2 ^ Suc 27 * 983 * 11003 * 237073 < p"
    by (rule order_less [OF _ assms(2)]) simp
  then show ?thesis by simp
qed

text \<open>A 64-bit value times a field element is zero only if one of them is.\<close>

lemma small_no_zero_divisor:
  assumes "v < 2 ^ 64" "d < bn254_r" "v * d mod bn254_r = 0"
  shows "v = 0 \<or> d = 0"
proof (rule ccontr)
  assume nz: "\<not> (v = 0 \<or> d = 0)"
  let ?g = "gcd v bn254_r"
  have "?g \<le> v" using nz by (simp add: gcd_le1_nat)
  then have "?g < 2 ^ 64" using assms(1) by linarith
  moreover have "?g dvd bn254_r" "0 < ?g" using nz by (simp_all add: gcd_pos_nat)
  ultimately have "\<not> 1 < ?g" using bn254_r_factor [of ?g] by auto
  with \<open>0 < ?g\<close> have "?g = 1" by linarith
  then have "coprime v bn254_r" by (simp only: coprime_iff_gcd_eq_1)
  moreover have "bn254_r dvd v * d" using assms(3) by (simp add: dvd_eq_mod_eq_0)
  ultimately have "bn254_r dvd d" by (simp add: coprime_dvd_mult_right_iff coprime_commute)
  with assms(2) nz show False by (auto dest: dvd_imp_le)
qed

end
