(* ===== verification/Circuit.thy ===== *)
theory Circuit
  imports Modulus Merkle Sdk_Witness
begin

text \<open>
  The transaction circuit (\<^verbatim>\<open>circuits/transaction/src/main.nr\<close> and
  \<^verbatim>\<open>merkle.nr\<close>). A Noir \<open>Field\<close> is a number below the field order; an assertion
  that fails is an error with its message. The Poseidon library is the parameter \<open>H\<close> from
  field elements to a field element; \<open>noir_spec\<close> says that it is the Poseidon of the crates.
\<close>

type_synonym noir_hash = "nat list \<Rightarrow> nat"

definition noir_spec :: "'fr crypto \<Rightarrow> noir_hash \<Rightarrow> bool" where
  "noir_spec L H \<longleftrightarrow>
     (\<forall>xs. xs \<noteq> [] \<longrightarrow> length xs \<le> 12 \<longrightarrow> list_all (\<lambda>x. x < bn254_r) xs \<longrightarrow>
        H xs < bn254_r \<and> poseidon_hashv L (map (be_bytes 32) xs) = Some (be_bytes 32 (H xs)))"

section \<open>Field operations\<close>

definition field_add :: "nat \<Rightarrow> nat \<Rightarrow> nat" where
  "field_add a b = (a + b) mod bn254_r"

definition field_sub :: "nat \<Rightarrow> nat \<Rightarrow> nat" where
  "field_sub a b = (a + (bn254_r - b)) mod bn254_r"

definition field_mul :: "nat \<Rightarrow> nat \<Rightarrow> nat" where
  "field_mul a b = a * b mod bn254_r"

text \<open>Decomposition into a fixed number of bits constrains the element to that many bits.\<close>

definition to_le_bits :: "nat \<Rightarrow> nat \<Rightarrow> bool list option" where
  "to_le_bits depth x =
     (if x < 2 ^ depth then Some (map (\<lambda>i. odd (x div 2 ^ i)) [0..<depth]) else None)"

section \<open>Hash roles\<close>

definition noir_nullifier_key :: "noir_hash \<Rightarrow> nat \<Rightarrow> nat" where
  "noir_nullifier_key H viewing_key = H [2, viewing_key]"

definition noir_owner :: "noir_hash \<Rightarrow> nat \<Rightarrow> nat \<Rightarrow> nat" where
  "noir_owner H spending_key viewing_key =
     (let spending_key_hash = H [1, spending_key]
      in H [3, spending_key_hash, noir_nullifier_key H viewing_key])"

definition noir_note_key :: "noir_hash \<Rightarrow> nat \<Rightarrow> nat \<Rightarrow> nat" where
  "noir_note_key H note_owner random = H [4, note_owner, random]"

definition noir_commitment :: "noir_hash \<Rightarrow> nat \<Rightarrow> nat \<Rightarrow> nat \<Rightarrow> nat" where
  "noir_commitment H npk asset value = H [5, npk, asset, value]"

definition noir_nullifier :: "noir_hash \<Rightarrow> nat \<Rightarrow> nat \<Rightarrow> nat" where
  "noir_nullifier H viewing_key leaf_index = H [6, noir_nullifier_key H viewing_key, leaf_index]"

section \<open>The Merkle root\<close>

fun compute_levels :: "noir_hash \<Rightarrow> nat \<Rightarrow> nat list \<Rightarrow> bool list \<Rightarrow> nat" where
  "compute_levels H node (s # ss) (b # bs) =
     compute_levels H (H (if b then [s, node] else [node, s])) ss bs"
| "compute_levels H node ss bs = node"

definition compute_root :: "noir_hash \<Rightarrow> nat \<Rightarrow> nat list \<Rightarrow> nat \<Rightarrow> string + nat" where
  "compute_root H leaf siblings leaf_index =
     bindE (ok_or ''leaf index out of range'' (to_le_bits (length siblings) leaf_index)) (\<lambda>bits.
     Inr (compute_levels H leaf siblings bits))"

section \<open>The statement\<close>

record circuit_inputs =
  ci_root :: nat
  ci_nullifiers :: "nat pair"
  ci_out_commitments :: "nat pair"
  ci_public_amount :: nat
  ci_ext_data_hash :: nat
  ci_bound_hash :: nat
  ci_in_values :: "nat pair"
  ci_asset_id :: nat
  ci_in_random :: "nat pair"
  ci_spending_keys :: "nat pair"
  ci_viewing_keys :: "nat pair"
  ci_leaf_indices :: "nat pair"
  ci_siblings :: "nat list pair"
  ci_out_npks :: "nat pair"
  ci_out_values :: "nat pair"

definition slot :: "'a pair \<Rightarrow> nat \<Rightarrow> 'a" where
  "slot p i = (if i = 0 then fst p else snd p)"

definition input_commitment :: "noir_hash \<Rightarrow> circuit_inputs \<Rightarrow> nat \<Rightarrow> nat" where
  "input_commitment H c i =
     (let npk = noir_note_key H (noir_owner H (slot (ci_spending_keys c) i) (slot (ci_viewing_keys c) i))
                  (slot (ci_in_random c) i)
      in noir_commitment H npk (ci_asset_id c) (slot (ci_in_values c) i))"

definition circuit_input :: "noir_hash \<Rightarrow> circuit_inputs \<Rightarrow> nat \<Rightarrow> nat \<Rightarrow> string + nat" where
  "circuit_input H c i sum_in =
     require (slot (ci_in_values c) i < 2 ^ 64) ''call to assert_max_bit_size'' (
     let commitment = input_commitment H c i in
     bindE (compute_root H commitment (slot (ci_siblings c) i) (slot (ci_leaf_indices c) i)) (\<lambda>computed_root.
     require (field_mul (slot (ci_in_values c) i) (field_sub computed_root (ci_root c)) = 0)
       ''input note not in tree'' (
     require (slot (ci_nullifiers c) i =
              noir_nullifier H (slot (ci_viewing_keys c) i) (slot (ci_leaf_indices c) i))
       ''wrong nullifier'' (
     require (slot (ci_nullifiers c) i \<noteq> 0) ''zero nullifier'' (
     Inr (field_add sum_in (slot (ci_in_values c) i)))))))"

definition circuit_output :: "noir_hash \<Rightarrow> circuit_inputs \<Rightarrow> nat \<Rightarrow> nat \<Rightarrow> string + nat" where
  "circuit_output H c i sum_out =
     require (slot (ci_out_values c) i < 2 ^ 64) ''call to assert_max_bit_size'' (
     require (slot (ci_out_commitments c) i =
              noir_commitment H (slot (ci_out_npks c) i) (ci_asset_id c) (slot (ci_out_values c) i))
       ''wrong output commitment'' (
     Inr (field_add sum_out (slot (ci_out_values c) i))))"

fun circuit_loop :: "(nat \<Rightarrow> nat \<Rightarrow> string + nat) \<Rightarrow> nat list \<Rightarrow> nat \<Rightarrow> string + nat" where
  "circuit_loop body [] acc = Inr acc"
| "circuit_loop body (i # is) acc = bindE (body i acc) (circuit_loop body is)"

definition circuit_main :: "noir_hash \<Rightarrow> circuit_inputs \<Rightarrow> string + unit" where
  "circuit_main H c =
     bindE (circuit_loop (circuit_input H c) [0, 1] 0) (\<lambda>sum_in.
     require (sum_in \<noteq> 0) ''transaction has no real input'' (
     require (fst (ci_nullifiers c) \<noteq> snd (ci_nullifiers c)) ''duplicate nullifier'' (
     bindE (circuit_loop (circuit_output H c) [0, 1] 0) (\<lambda>sum_out.
     require (field_add sum_in (ci_public_amount c) = sum_out) ''value not conserved'' (
     require (ci_ext_data_hash c = ci_bound_hash c) ''wrong external data hash'' (
     Inr ()))))))"

text \<open>The types of the arguments: field elements, and 20 siblings for each input.\<close>

definition pair_all :: "('a \<Rightarrow> bool) \<Rightarrow> 'a pair \<Rightarrow> bool" where
  "pair_all P p \<longleftrightarrow> P (fst p) \<and> P (snd p)"

abbreviation is_fe :: "nat \<Rightarrow> bool" where
  "is_fe x \<equiv> x < bn254_r"

definition circuit_typed :: "circuit_inputs \<Rightarrow> bool" where
  "circuit_typed c \<longleftrightarrow>
     list_all is_fe [ci_root c, ci_public_amount c, ci_ext_data_hash c, ci_bound_hash c, ci_asset_id c] \<and>
     list_all (pair_all is_fe)
       [ci_nullifiers c, ci_out_commitments c, ci_in_values c, ci_in_random c, ci_spending_keys c,
        ci_viewing_keys c, ci_leaf_indices c, ci_out_npks c, ci_out_values c] \<and>
     pair_all (\<lambda>ss. length ss = 20 \<and> list_all is_fe ss) (ci_siblings c)"

section \<open>Reading the named inputs\<close>

text \<open>
  The ABI encoder hands the named inputs to \<open>main\<close>: a missing name, a wrong shape or a wrong
  length is an error.
\<close>

definition fe_val :: "'fr crypto \<Rightarrow> 'fr \<Rightarrow> nat" where
  "fe_val L x = be_val (fr_to_be L x)"

fun abi_field :: "'fr crypto \<Rightarrow> 'fr input_value \<Rightarrow> nat option" where
  "abi_field L (InputField x) = Some (fe_val L x)"
| "abi_field L (InputVec xs) = None"

fun abi_fields :: "'fr crypto \<Rightarrow> nat \<Rightarrow> 'fr input_value \<Rightarrow> nat list option" where
  "abi_fields L n (InputVec xs) = (if length xs = n then those (map (abi_field L) xs) else None)"
| "abi_fields L n (InputField x) = None"

definition as_slots :: "'a list option \<Rightarrow> 'a pair option" where
  "as_slots xs = (case xs of Some [a, b] \<Rightarrow> Some (a, b) | _ \<Rightarrow> None)"

definition abi_pair :: "'fr crypto \<Rightarrow> 'fr input_value \<Rightarrow> nat pair option" where
  "abi_pair L v = as_slots (abi_fields L 2 v)"

fun abi_paths :: "'fr crypto \<Rightarrow> 'fr input_value \<Rightarrow> nat list pair option" where
  "abi_paths L (InputVec xs) = as_slots (those (map (abi_fields L 20) xs))"
| "abi_paths L (InputField x) = None"

definition named :: "'fr input_map \<Rightarrow> string \<Rightarrow> ('fr input_value \<Rightarrow> 'a option) \<Rightarrow> 'a option" where
  "named m name f = Option.bind (m name) f"

definition abi_inputs :: "'fr crypto \<Rightarrow> 'fr input_map \<Rightarrow> circuit_inputs option" where
  "abi_inputs L m =
     Option.bind (named m ''root'' (abi_field L)) (\<lambda>root.
     Option.bind (named m ''nullifiers'' (abi_pair L)) (\<lambda>nullifiers.
     Option.bind (named m ''out_commitments'' (abi_pair L)) (\<lambda>out_commitments.
     Option.bind (named m ''public_amount'' (abi_field L)) (\<lambda>public_amount.
     Option.bind (named m ''ext_data_hash'' (abi_field L)) (\<lambda>ext_data_hash.
     Option.bind (named m ''bound_hash'' (abi_field L)) (\<lambda>bound_hash.
     Option.bind (named m ''in_values'' (abi_pair L)) (\<lambda>in_values.
     Option.bind (named m ''asset_id'' (abi_field L)) (\<lambda>asset.
     Option.bind (named m ''in_random'' (abi_pair L)) (\<lambda>in_random.
     Option.bind (named m ''spending_keys'' (abi_pair L)) (\<lambda>spending_keys.
     Option.bind (named m ''viewing_keys'' (abi_pair L)) (\<lambda>viewing_keys.
     Option.bind (named m ''leaf_indices'' (abi_pair L)) (\<lambda>leaf_indices.
     Option.bind (named m ''siblings'' (abi_paths L)) (\<lambda>siblings.
     Option.bind (named m ''out_npks'' (abi_pair L)) (\<lambda>out_npks.
     Option.bind (named m ''out_values'' (abi_pair L)) (\<lambda>out_values.
     Some \<lparr>ci_root = root, ci_nullifiers = nullifiers, ci_out_commitments = out_commitments,
           ci_public_amount = public_amount, ci_ext_data_hash = ext_data_hash,
           ci_bound_hash = bound_hash, ci_in_values = in_values, ci_asset_id = asset,
           ci_in_random = in_random, ci_spending_keys = spending_keys, ci_viewing_keys = viewing_keys,
           ci_leaf_indices = leaf_indices, ci_siblings = siblings, ci_out_npks = out_npks,
           ci_out_values = out_values\<rparr>)))))))))))))))"

section \<open>What acceptance means\<close>

lemma slot_simps [simp]: "slot p 0 = fst p" "slot p (Suc 0) = snd p" "slot (a, b) i = (if i = 0 then a else b)"
  by (simp_all add: slot_def)

definition input_accepted :: "noir_hash \<Rightarrow> circuit_inputs \<Rightarrow> nat \<Rightarrow> bool" where
  "input_accepted H c i \<longleftrightarrow>
     slot (ci_in_values c) i < 2 ^ 64 \<and>
     slot (ci_nullifiers c) i = noir_nullifier H (slot (ci_viewing_keys c) i) (slot (ci_leaf_indices c) i) \<and>
     slot (ci_nullifiers c) i \<noteq> 0 \<and>
     (\<exists>r. compute_root H (input_commitment H c i) (slot (ci_siblings c) i) (slot (ci_leaf_indices c) i) = Inr r \<and>
        field_mul (slot (ci_in_values c) i) (field_sub r (ci_root c)) = 0)"

definition output_accepted :: "noir_hash \<Rightarrow> circuit_inputs \<Rightarrow> nat \<Rightarrow> bool" where
  "output_accepted H c i \<longleftrightarrow>
     slot (ci_out_values c) i < 2 ^ 64 \<and>
     slot (ci_out_commitments c) i =
       noir_commitment H (slot (ci_out_npks c) i) (ci_asset_id c) (slot (ci_out_values c) i)"

lemma circuit_input_eq_Inr:
  "circuit_input H c i t = Inr u \<longleftrightarrow> input_accepted H c i \<and> u = field_add t (slot (ci_in_values c) i)"
  by (auto simp: circuit_input_def input_accepted_def Let_def)

lemma circuit_output_eq_Inr:
  "circuit_output H c i t = Inr u \<longleftrightarrow> output_accepted H c i \<and> u = field_add t (slot (ci_out_values c) i)"
  by (auto simp: circuit_output_def output_accepted_def)

lemma field_add_small: "a + b < bn254_r \<Longrightarrow> field_add a b = a + b"
  by (simp add: field_add_def)

lemma two_values_small: "a < 2 ^ 64 \<Longrightarrow> b < 2 ^ 64 \<Longrightarrow> a + b < (2 :: nat) ^ 65 \<and> 2 ^ 65 < bn254_r"
  by (simp add: bn254_r_def)

lemma field_sum_small:
  assumes "a < 2 ^ 64" "b < 2 ^ 64"
  shows "field_add (field_add 0 a) b = a + b"
  using two_values_small [OF assms] by (simp add: field_add_def)

lemma circuit_main_iff:
  "circuit_main H c = Inr () \<longleftrightarrow>
     input_accepted H c 0 \<and> input_accepted H c 1 \<and> output_accepted H c 0 \<and> output_accepted H c 1 \<and>
     fst (ci_nullifiers c) \<noteq> snd (ci_nullifiers c) \<and>
     fst (ci_in_values c) + snd (ci_in_values c) \<noteq> 0 \<and>
     field_add (fst (ci_in_values c) + snd (ci_in_values c)) (ci_public_amount c) =
       fst (ci_out_values c) + snd (ci_out_values c) \<and>
     ci_ext_data_hash c = ci_bound_hash c"
proof -
  have "input_accepted H c 0 \<Longrightarrow> input_accepted H c 1 \<Longrightarrow>
      field_add (field_add 0 (fst (ci_in_values c))) (snd (ci_in_values c)) =
        fst (ci_in_values c) + snd (ci_in_values c)"
    by (rule field_sum_small) (simp_all add: input_accepted_def)
  moreover have "output_accepted H c 0 \<Longrightarrow> output_accepted H c 1 \<Longrightarrow>
      field_add (field_add 0 (fst (ci_out_values c))) (snd (ci_out_values c)) =
        fst (ci_out_values c) + snd (ci_out_values c)"
    by (rule field_sum_small) (simp_all add: output_accepted_def)
  ultimately show ?thesis
    by (auto simp: circuit_main_def circuit_input_eq_Inr circuit_output_eq_Inr)
qed

text \<open>The membership product is zero only for a zero value or for the root itself.\<close>

lemma field_sub_zero:
  assumes "a < bn254_r" "b < bn254_r"
  shows "field_sub a b = 0 \<longleftrightarrow> a = b"
proof (cases "b \<le> a")
  case True
  then have "a + (bn254_r - b) = (a - b) + bn254_r" using assms(2) by linarith
  moreover have "a - b < bn254_r" using assms(1) by linarith
  ultimately have "field_sub a b = a - b" unfolding field_sub_def by (metis mod_add_self2 mod_less)
  with True show ?thesis by linarith
next
  case False
  then have "a + (bn254_r - b) < bn254_r" "a + (bn254_r - b) \<noteq> 0" using assms(2) by linarith+
  then have "field_sub a b \<noteq> 0" unfolding field_sub_def by (metis mod_less)
  with False show ?thesis by linarith
qed

lemma membership_product:
  assumes "v < 2 ^ 64" "a < bn254_r" "b < bn254_r"
  shows "field_mul v (field_sub a b) = 0 \<longleftrightarrow> v = 0 \<or> a = b"
proof -
  have "field_sub a b < bn254_r" unfolding field_sub_def using bn254_r_bounds(3) by (rule mod_less_divisor)
  then have "v = 0 \<or> field_sub a b = 0" if "v * field_sub a b mod bn254_r = 0"
    using small_no_zero_divisor [OF assms(1) _ that] by simp
  then show ?thesis
    unfolding field_mul_def field_sub_zero [OF assms(2,3), symmetric] by (intro iffI) auto
qed

text \<open>Conservation in the field is conservation of integers, for a flow of 64 bits.\<close>

lemma conservation_integer:
  assumes "s < 2 ^ 65" "t < (2 :: nat) ^ 65" "\<bar>x\<bar> \<le> 2 ^ 63"
    and "field_add s (nat (x mod int bn254_r)) = t"
  shows "int s + x = int t"
proof -
  have r: "0 < int bn254_r" using bn254_r_bounds(3) by linarith
  then have "int (nat (x mod int bn254_r)) = x mod int bn254_r"
    using pos_mod_sign [OF r, of x] by simp
  then have "int t = (int s + x mod int bn254_r) mod int bn254_r"
    using assms(4) unfolding field_add_def by (metis of_nat_add of_nat_mod)
  then have "int t mod int bn254_r = (int s + x) mod int bn254_r"
    by (simp only: mod_add_right_eq mod_mod_trivial)
  then have dvd: "int bn254_r dvd int t - (int s + x)" by (rule mod_eq_dvd_iff [THEN iffD1])
  have small: "\<bar>int t - (int s + x)\<bar> < int bn254_r"
  proof -
    have "int s < int (2 ^ 65)" "int t < int (2 ^ 65)"
      using assms(1,2) by (simp_all only: of_nat_less_iff)
    moreover have "int (2 ^ 65) + int (2 ^ 65) + 2 ^ 63 < int bn254_r" by (simp add: bn254_r_def)
    ultimately show ?thesis using assms(3) by linarith
  qed
  have "int t - (int s + x) = 0"
  proof (rule ccontr)
    assume "int t - (int s + x) \<noteq> 0"
    from dvd_imp_le_int [OF this dvd] small show False by linarith
  qed
  then show ?thesis by linarith
qed

end
