(* ===== verification/Circuit_Sdk.thy ===== *)
theory Circuit_Sdk
  imports Circuit Sdk_Pool
begin

text \<open>
  The circuit against the client library: the values that the client computes satisfy the
  circuit under the names the client gives them. Field elements are numbers on the circuit's
  side and 32 bytes on the client's.
\<close>

section \<open>Hashes\<close>

lemma be_bytes_scalar: "is_scalar f \<Longrightarrow> be_bytes 32 (be_val f) = f"
  by (simp add: is_scalar_def)

lemma scalar_fe: "is_scalar f \<Longrightarrow> is_fe (be_val f)"
  by (simp add: is_scalar_def)

lemma map_be_bytes_scalar: "list_all is_scalar fs \<Longrightarrow> map (be_bytes 32) (map be_val fs) = fs"
  by (induction fs) (auto simp: be_bytes_scalar)

lemma fes_scalar: "list_all is_fe xs \<Longrightarrow> list_all is_scalar (map (be_bytes 32) xs)"
  by (induction xs) (auto simp: is_scalar_be_bytes)

lemma noir_hash_fe: "noir_spec L H \<Longrightarrow> xs \<noteq> [] \<Longrightarrow> length xs \<le> 12 \<Longrightarrow> list_all is_fe xs \<Longrightarrow> is_fe (H xs)"
  by (simp add: noir_spec_def)

lemma noir_poseidon:
  "noir_spec L H \<Longrightarrow> xs \<noteq> [] \<Longrightarrow> length xs \<le> 12 \<Longrightarrow> list_all is_fe xs \<Longrightarrow>
     poseidon_hashv L (map (be_bytes 32) xs) = Some (be_bytes 32 (H xs))"
  by (simp add: noir_spec_def)

lemma noir_sdk:
  assumes "noir_spec L H" "fr_spec L" "poseidon_spec L"
    and "list_all is_scalar fs" "fs \<noteq> []" "length fs \<le> 12"
  shows "sdk_poseidon L fs = Inr h \<longleftrightarrow> is_scalar h \<and> be_val h = H (map be_val fs)"
proof -
  have fe: "list_all is_fe (map be_val fs)"
    using assms(4) by (auto simp: list_all_iff scalar_fe)
  have "poseidon_hashv L fs = Some (be_bytes 32 (H (map be_val fs)))"
    using noir_poseidon [OF assms(1) _ _ fe] assms(4-6) by (simp add: map_be_bytes_scalar del: map_map)
  moreover have "is_fe (H (map be_val fs))" using noir_hash_fe [OF assms(1) _ _ fe] assms(5,6) by simp
  ultimately have "sdk_poseidon L fs = Inr h \<longleftrightarrow> h = be_bytes 32 (H (map be_val fs))"
    and "is_scalar (be_bytes 32 (H (map be_val fs)))"
    and "be_val (be_bytes 32 (H (map be_val fs))) = H (map be_val fs)"
    by (auto simp: sdk_poseidon_eq_Inr [OF assms(2,3)] is_scalar_be_bytes be_val_scalar
        simp del: be_val_be_bytes)
  then show ?thesis by (metis be_bytes_scalar)
qed

lemma domain_values:
  "be_val SPEND_KEY_DOMAIN = 1" "be_val NULLIFIER_KEY_DOMAIN = 2" "be_val OWNER_DOMAIN = 3"
  "be_val NOTE_KEY_DOMAIN = 4" "be_val SDK_NOTE_DOMAIN = 5" "be_val NULLIFIER_DOMAIN = 6"
  by (simp_all add: domain_defs from_raw_u64_eq be_val_u64_be32)

lemma tags_fe [simp]: "is_fe 0" "is_fe 1" "is_fe (Suc 0)" "is_fe 2" "is_fe 3" "is_fe 4" "is_fe 5" "is_fe 6"
  by (simp_all add: bn254_r_def)

lemma noir_fe:
  assumes "noir_spec L H"
  shows "is_fe a \<Longrightarrow> is_fe (noir_nullifier_key H a)"
    and "is_fe a \<Longrightarrow> is_fe b \<Longrightarrow> is_fe (noir_owner H a b)"
    and "is_fe a \<Longrightarrow> is_fe b \<Longrightarrow> is_fe (noir_note_key H a b)"
    and "is_fe a \<Longrightarrow> is_fe b \<Longrightarrow> is_fe c \<Longrightarrow> is_fe (noir_commitment H a b c)"
    and "is_fe a \<Longrightarrow> is_fe b \<Longrightarrow> is_fe (noir_nullifier H a b)"
  by (simp_all add: noir_nullifier_key_def noir_owner_def noir_note_key_def noir_commitment_def
      noir_nullifier_def Let_def noir_hash_fe [OF assms])

text \<open>A note, an owner or an output whose secrets and fields are canonical.\<close>

definition owner_typed :: "owner \<Rightarrow> bool" where
  "owner_typed ow \<longleftrightarrow> is_scalar (expose (own_spend ow)) \<and> is_scalar (expose (own_view ow))"

text \<open>The circuit's Poseidon is the crates', and these behave as documented.\<close>

definition noir_agrees :: "'fr crypto \<Rightarrow> noir_hash \<Rightarrow> bool" where
  "noir_agrees L H \<longleftrightarrow> noir_spec L H \<and> fr_spec L \<and> poseidon_spec L"

lemma noir_agreesD:
  assumes "noir_agrees L H"
  shows agrees_noir: "noir_spec L H" and agrees_fr: "fr_spec L" and agrees_poseidon: "poseidon_spec L"
  using assms by (simp_all add: noir_agrees_def)

lemma agree:
  assumes "noir_agrees L H" "list_all is_scalar fs" "fs \<noteq> []" "length fs \<le> 12"
  shows "sdk_poseidon L fs = Inr h \<longleftrightarrow> is_scalar h \<and> be_val h = H (map be_val fs)"
  using noir_sdk [OF noir_agreesD [OF assms(1)] assms(2-4)] .

lemma nullifier_key_noir:
  assumes ag: "noir_agrees L H"
    and "owner_typed ow"
  shows "nullifier_key L ow = Inr h \<longleftrightarrow>
    is_scalar h \<and> be_val h = noir_nullifier_key H (be_val (expose (own_view ow)))"
  using assms by (simp add: nullifier_key_def agree [OF ag] owner_typed_def domain_values noir_nullifier_key_def)

lemma owner_public_noir:
  assumes ag: "noir_agrees L H"
    and "owner_typed ow" "owner_public L ow = Inr h"
  shows "is_scalar h \<and> be_val h = noir_owner H (be_val (expose (own_spend ow))) (be_val (expose (own_view ow)))"
proof -
  obtain s k where s: "sdk_poseidon L [SPEND_KEY_DOMAIN, expose (own_spend ow)] = Inr s"
    and k: "nullifier_key L ow = Inr k" and h: "sdk_poseidon L [OWNER_DOMAIN, s, k] = Inr h"
    using assms(3) by (auto simp: owner_public_def)
  from s have s': "is_scalar s \<and> be_val s = H [1, be_val (expose (own_spend ow))]"
    using assms(2) by (simp add: agree [OF ag] owner_typed_def domain_values)
  from k have k': "is_scalar k \<and> be_val k = noir_nullifier_key H (be_val (expose (own_view ow)))"
    by (simp add: nullifier_key_noir [OF ag assms(2)])
  from h s' k' show ?thesis by (simp add: agree [OF ag] domain_values noir_owner_def)
qed

lemma sdk_nullifier_noir:
  assumes ag: "noir_agrees L H"
    and "owner_typed ow" "sdk_nullifier L ow i = Inr h"
  shows "is_scalar h \<and> be_val h = noir_nullifier H (be_val (expose (own_view ow))) (unat i)"
proof -
  obtain k where k: "nullifier_key L ow = Inr k"
    and h: "sdk_poseidon L [NULLIFIER_DOMAIN, k, field_of_u64 L (ucast i)] = Inr h"
    using assms(3) by (auto simp: sdk_nullifier_def)
  from k have "is_scalar k \<and> be_val k = noir_nullifier_key H (be_val (expose (own_view ow)))"
    by (simp add: nullifier_key_noir [OF ag assms(2)])
  moreover have "unat (ucast i :: u64) = unat i" by (simp add: unsigned_ucast_eq take_bit_nat_eq_self_iff
        less_trans [OF unsigned_less [of i, where ?'a = nat]])
  ultimately show ?thesis
    using h by (simp add: agree [OF ag] domain_values noir_nullifier_def field_of_u64_bytes [OF agrees_fr [OF ag]] be_val_u64_be32)
qed

lemma note_key_noir:
  assumes ag: "noir_agrees L H"
    and "is_scalar ow" "is_scalar r" "note_key L ow r = Inr h"
  shows "is_scalar h \<and> be_val h = noir_note_key H (be_val ow) (be_val r)"
  using assms by (simp add: note_key_def agree [OF ag] domain_values noir_note_key_def)

lemma commitment_from_key_noir:
  assumes ag: "noir_agrees L H"
    and "is_scalar key" "is_scalar asset" "commitment_from_key L key asset v = Inr h"
  shows "is_scalar h \<and> be_val h = noir_commitment H (be_val key) (be_val asset) (unat v)"
  using assms by (simp add: commitment_from_key_def agree [OF ag] domain_values noir_commitment_def
      field_of_u64_bytes [OF agrees_fr [OF ag]] be_val_u64_be32)

lemma sdk_commitment_noir:
  assumes ag: "noir_agrees L H"
    and "owner_typed ow" "is_scalar (expose (pn_random n))" "is_scalar (pn_asset n)"
    and "sdk_commitment L n ow = Inr h"
  shows "is_scalar h \<and> be_val h = noir_commitment H
    (noir_note_key H (noir_owner H (be_val (expose (own_spend ow))) (be_val (expose (own_view ow))))
       (be_val (expose (pn_random n)))) (be_val (pn_asset n)) (unat (pn_value n))"
proof -
  obtain o1 k where o1: "owner_public L ow = Inr o1" and k: "note_key L o1 (expose (pn_random n)) = Inr k"
    and h: "commitment_from_key L k (pn_asset n) (pn_value n) = Inr h"
    using assms(5) by (auto simp: sdk_commitment_def note_public_key_def)
  note o1' = owner_public_noir [OF ag assms(2) o1]
  have k': "is_scalar k \<and> be_val k = noir_note_key H (be_val o1) (be_val (expose (pn_random n)))"
    using o1' assms(3) k by (intro note_key_noir [OF ag]) simp_all
  show ?thesis using commitment_from_key_noir [OF ag _ assms(4) h] k' o1' by simp
qed

text \<open>The circuit's climb is the climb of the Merkle specification.\<close>

lemma node_noir:
  assumes ag: "noir_agrees L H"
    and "is_fe a" "is_fe b"
  shows "poseidon_node L (be_bytes 32 a) (be_bytes 32 b) = be_bytes 32 (H [a, b])" and "is_fe (H [a, b])"
  using noir_poseidon [OF agrees_noir [OF ag], of "[a, b]"] noir_hash_fe [OF agrees_noir [OF ag], of "[a, b]"] assms
  by (simp_all add: poseidon_node_Some)

lemma compute_levels_climb:
  assumes ag: "noir_agrees L H"
    and "is_fe node" "list_all is_fe ss"
  shows "is_fe (compute_levels H node ss (map (\<lambda>k. odd (i div 2 ^ k)) [0..<length ss])) \<and>
    be_bytes 32 (compute_levels H node ss (map (\<lambda>k. odd (i div 2 ^ k)) [0..<length ss])) =
      climb (poseidon_node L) (be_bytes 32 node) i (map (be_bytes 32) ss)"
  using assms(2,3)
proof (induction ss arbitrary: node i)
  case (Cons s ss)
  have "map (\<lambda>k. odd (i div 2 ^ k)) [0..<Suc (length ss)] =
      odd i # map (\<lambda>k. odd (i div 2 div 2 ^ k)) [0..<length ss]"
    by (simp add: upt_conv_Cons map_Suc_upt [symmetric] div_mult2_eq del: upt_Suc map_Suc_upt)
  then have step: "compute_levels H node (s # ss) (map (\<lambda>k. odd (i div 2 ^ k)) [0..<length (s # ss)]) =
      compute_levels H (H (if odd i then [s, node] else [node, s])) ss
        (map (\<lambda>k. odd (i div 2 div 2 ^ k)) [0..<length ss])"
    by simp
  have fe: "is_fe (H (if odd i then [s, node] else [node, s]))"
    using Cons.prems node_noir(2) [OF ag] by auto
  have node: "be_bytes 32 (H (if odd i then [s, node] else [node, s])) =
      (if even i then poseidon_node L (be_bytes 32 node) (be_bytes 32 s)
       else poseidon_node L (be_bytes 32 s) (be_bytes 32 node))"
    using Cons.prems node_noir(1) [OF ag] by auto
  show ?case
    unfolding step using Cons.IH [OF fe, of "i div 2"] Cons.prems(2) node by simp
qed simp

lemma compute_root_climb:
  assumes ag: "noir_agrees L H"
    and "is_fe leaf" "list_all is_fe ss"
  shows "compute_root H leaf ss i = Inr r \<longleftrightarrow>
    i < 2 ^ length ss \<and> is_fe r \<and> be_bytes 32 r = climb (poseidon_node L) (be_bytes 32 leaf) i (map (be_bytes 32) ss)"
proof -
  let ?r = "compute_levels H leaf ss (map (\<lambda>k. odd (i div 2 ^ k)) [0..<length ss])"
  have "compute_root H leaf ss i = Inr r \<longleftrightarrow> i < 2 ^ length ss \<and> r = ?r"
    by (auto simp: compute_root_def to_le_bits_def)
  with compute_levels_climb [OF assms, of i] show ?thesis by (metis be_bytes_scalar_inj)
qed

section \<open>The client's inputs\<close>

text \<open>
  The type \<open>Field\<close> holds canonical bytes only and \<open>siblings\<close> is an array of twenty, so every
  plan is of this form; \<open>plan\<close> has checked the assets.
\<close>

definition spend_typed :: "field \<Rightarrow> spend \<Rightarrow> bool" where
  "spend_typed asset sp \<longleftrightarrow>
     owner_typed (sp_owner sp) \<and> is_scalar (expose (pn_random (sp_note sp))) \<and>
     pn_asset (sp_note sp) = asset \<and> length (mp_siblings (sp_merkle sp)) = 20 \<and>
     list_all is_scalar (mp_siblings (sp_merkle sp))"

definition send_typed :: "send \<Rightarrow> bool" where
  "send_typed s \<longleftrightarrow> is_scalar (sd_owner s) \<and> is_scalar (expose (sd_random s))"

definition plan_typed :: "plan \<Rightarrow> bool" where
  "plan_typed p \<longleftrightarrow>
     is_scalar (p_asset p) \<and> pair_all (spend_typed (p_asset p)) (p_spends p) \<and> pair_all send_typed (p_sends p)"

abbreviation fe_pair :: "field pair \<Rightarrow> nat pair" where
  "fe_pair \<equiv> map_prod be_val be_val"

abbreviation of_spends :: "(spend \<Rightarrow> 'a) \<Rightarrow> plan \<Rightarrow> 'a pair" where
  "of_spends f p \<equiv> map_prod f f (p_spends p)"

definition circuit_of :: "plan \<Rightarrow> plan_values \<Rightarrow> circuit_inputs" where
  "circuit_of p v =
     \<lparr>ci_root = be_val (spi_root (pv_public v)),
      ci_nullifiers = fe_pair (spi_nullifiers (pv_public v)),
      ci_out_commitments = fe_pair (spi_commitments (pv_public v)),
      ci_public_amount = be_val (spi_amount (pv_public v)),
      ci_ext_data_hash = be_val (spi_hash (pv_public v)),
      ci_bound_hash = be_val (spi_hash (pv_public v)),
      ci_in_values = of_spends (\<lambda>sp. unat (pn_value (sp_note sp))) p,
      ci_asset_id = be_val (p_asset p),
      ci_in_random = of_spends (\<lambda>sp. be_val (expose (pn_random (sp_note sp)))) p,
      ci_spending_keys = of_spends (\<lambda>sp. be_val (expose (own_spend (sp_owner sp)))) p,
      ci_viewing_keys = of_spends (\<lambda>sp. be_val (expose (own_view (sp_owner sp)))) p,
      ci_leaf_indices = of_spends (\<lambda>sp. unat (mp_index (sp_merkle sp))) p,
      ci_siblings = of_spends (\<lambda>sp. map be_val (mp_siblings (sp_merkle sp))) p,
      ci_out_npks = fe_pair (pv_output_keys v),
      ci_out_values = map_prod (\<lambda>s. unat (sd_value s)) (\<lambda>s. unat (sd_value s)) (p_sends p)\<rparr>"

lemma fe_val_input: "fr_spec L \<Longrightarrow> is_scalar f \<Longrightarrow> fe_val L (fr_from_be_mod L f) = be_val f"
  by (simp add: fe_val_def fr_to_be_from_be_mod is_scalar_def)

lemma abi_input_field: "fr_spec L \<Longrightarrow> is_scalar f \<Longrightarrow> abi_field L (input_field L f) = Some (be_val f)"
  by (simp add: input_field_def fe_val_input)

lemma abi_input_list:
  "fr_spec L \<Longrightarrow> list_all is_scalar fs \<Longrightarrow> those (map (abi_field L) (map (input_field L) fs)) = Some (map be_val fs)"
  by (induction fs) (simp_all add: abi_input_field)

lemma abi_input_fields:
  "fr_spec L \<Longrightarrow> list_all is_scalar fs \<Longrightarrow> length fs = n \<Longrightarrow> abi_fields L n (input_fields L fs) = Some (map be_val fs)"
  using abi_input_list [of L fs] by (simp add: input_fields_def)

lemma abi_input_pair:
  "fr_spec L \<Longrightarrow> is_scalar a \<Longrightarrow> is_scalar b \<Longrightarrow> abi_pair L (input_fields L [a, b]) = Some (be_val a, be_val b)"
  by (simp add: abi_pair_def abi_input_fields as_slots_def)

lemma abi_input_paths:
  assumes "fr_spec L" "list_all is_scalar xs" "length xs = 20" "list_all is_scalar ys" "length ys = 20"
  shows "abi_paths L (InputVec [input_fields L xs, input_fields L ys]) = Some (map be_val xs, map be_val ys)"
  using assms by (simp add: abi_input_fields as_slots_def)

lemma be_val_field_of_u64: "fr_spec L \<Longrightarrow> be_val (field_of_u64 L x) = unat x"
  by (simp add: field_of_u64_bytes be_val_u64_be32)

lemma unat_index: "unat (ucast (i :: u32) :: u64) = unat i"
  using unsigned_less [of i, where ?'a = nat] by (simp add: unsigned_ucast_eq take_bit_nat_eq_self)

definition values_typed :: "plan_values \<Rightarrow> bool" where
  "values_typed v \<longleftrightarrow>
     list_all is_scalar (public_fields (pv_public v)) \<and> pair_all is_scalar (pv_output_keys v)"

lemma abi_client_inputs:
  assumes "fr_spec L" "plan_typed p" "values_typed v"
  shows "abi_inputs L (input_map L p v) = Some (circuit_of p v)"
proof -
  have u64: "is_scalar (field_of_u64 L x)" for x
    by (simp add: field_of_u64_bytes [OF assms(1)] u64_be32_scalar)
  note pub = assms(3) [unfolded values_typed_def public_fields_def pair_all_def]
  note pl = assms(2) [unfolded plan_typed_def pair_all_def spend_typed_def owner_typed_def send_typed_def]
  note fields = abi_input_field [OF assms(1)] and pairs = abi_input_pair [OF assms(1)]
    and paths = abi_input_paths [OF assms(1)]
  show ?thesis
    using pub pl
    by (simp add: abi_inputs_def input_map_def named_def pair_list_def Let_def fields pairs paths u64
        circuit_of_def be_val_field_of_u64 [OF assms(1)] unat_index map_prod_def case_prod_beta
        del: abi_paths.simps)
qed

section \<open>The client satisfies the circuit\<close>

lemma client_values_typed:
  assumes "fr_spec L" "poseidon_spec L" "values_ok L p public v" "is_scalar (pf_hash public)"
  shows "values_typed v"
proof -
  have "is_scalar (spi_amount (pv_public v))" "is_scalar (spi_hash (pv_public v))"
    using assms(3,4) sdk_amount.enc_is_scalar [OF assms(1)] by (simp_all add: values_ok_def Let_def)
  moreover have "pair_all is_scalar (pv_output_keys v)"
    using assms(3) sdk_poseidon_scalar [OF assms(1,2)]
    by (simp add: values_ok_def Let_def output_ok_def send_public_key_def note_key_def pair_all_def) blast
  ultimately show ?thesis
    using values_scalars(1-3) [OF assms(1-3)]
    by (simp add: values_typed_def public_fields_def both_def)
qed

lemma value_fe: "is_fe (unat (x :: u64))"
  by (rule unat_u64_lt_r)

lemma index_fe: "is_fe (unat (i :: u32))"
  using value_fe [of "ucast i"] by (simp add: unat_index)

lemma circuit_of_typed:
  assumes "plan_typed p" "values_typed v"
  shows "circuit_typed (circuit_of p v)"
proof -
  have sib: "list_all is_scalar ss \<Longrightarrow> list_all is_fe (map be_val ss)" for ss
    by (auto simp: list_all_iff scalar_fe)
  show ?thesis
    using assms
    by (simp add: circuit_typed_def circuit_of_def plan_typed_def values_typed_def public_fields_def
        pair_all_def spend_typed_def owner_typed_def scalar_fe value_fe index_fe sib map_prod_def case_prod_beta)
qed

lemma spend_satisfies:
  assumes ag: "noir_agrees L H" and "spend_typed asset sp" "is_scalar asset" "is_scalar r" "spend_ok L sp n r"
    and vals: "slot (ci_in_values c) i = unat (pn_value (sp_note sp))"
      "slot (ci_in_random c) i = be_val (expose (pn_random (sp_note sp)))"
      "slot (ci_spending_keys c) i = be_val (expose (own_spend (sp_owner sp)))"
      "slot (ci_viewing_keys c) i = be_val (expose (own_view (sp_owner sp)))"
      "slot (ci_leaf_indices c) i = unat (mp_index (sp_merkle sp))"
      "slot (ci_siblings c) i = map be_val (mp_siblings (sp_merkle sp))"
      "slot (ci_nullifiers c) i = be_val n" "ci_asset_id c = be_val asset" "ci_root c = be_val r"
  shows "input_accepted H c i"
proof -
  note ty = assms(2) [unfolded spend_typed_def] and ok = assms(5) [unfolded spend_ok_def]
  have n: "is_scalar n \<and> be_val n = noir_nullifier H (be_val (expose (own_view (sp_owner sp))))
      (unat (mp_index (sp_merkle sp)))"
    using sdk_nullifier_noir [OF ag] ty ok by blast
  moreover have "be_val n \<noteq> 0"
    using n ok be_val_zero_iff [of n] by (auto simp: is_scalar_def field_zero_def)
  moreover have "unat (pn_value (sp_note sp)) < 2 ^ 64"
    using unsigned_less [of "pn_value (sp_note sp)", where ?'a = nat] by simp
  moreover have "\<exists>q. compute_root H (input_commitment H c i) (slot (ci_siblings c) i) (slot (ci_leaf_indices c) i) = Inr q \<and>
      field_mul (slot (ci_in_values c) i) (field_sub q (ci_root c)) = 0"
  proof -
    let ?cm = "input_commitment H c i"
    let ?own = "noir_owner H (be_val (expose (own_spend (sp_owner sp)))) (be_val (expose (own_view (sp_owner sp))))"
    have len: "length (map be_val (mp_siblings (sp_merkle sp))) = 20" using ty by simp
    have ss: "list_all is_fe (map be_val (mp_siblings (sp_merkle sp)))"
      using ty by (auto simp: list_all_iff scalar_fe)
    have cm: "?cm = noir_commitment H (noir_note_key H ?own (be_val (expose (pn_random (sp_note sp)))))
        (be_val asset) (unat (pn_value (sp_note sp)))"
      by (simp add: input_commitment_def vals)
    have fe: "is_fe ?cm"
      unfolding cm using ty assms(3)
      by (simp add: noir_fe [OF agrees_noir [OF ag]] owner_typed_def scalar_fe value_fe)
    let ?bits = "map (\<lambda>k. odd (unat (mp_index (sp_merkle sp)) div 2 ^ k)) [0..<20]"
    have levels: "is_fe (compute_levels H ?cm (map be_val (mp_siblings (sp_merkle sp))) ?bits)"
      using compute_levels_climb [OF ag fe ss, of "unat (mp_index (sp_merkle sp))"] len by simp
    then obtain q where q: "compute_root H ?cm (map be_val (mp_siblings (sp_merkle sp)))
        (unat (mp_index (sp_merkle sp))) = Inr q"
      using ok len by (simp add: compute_root_def to_le_bits_def)
    have "unat (pn_value (sp_note sp)) = 0 \<or> q = be_val r"
    proof (cases "pn_value (sp_note sp) = 0")
      case False
      then obtain leaf where leaf: "sdk_commitment L (sp_note sp) (sp_owner sp) = Inr leaf"
        and root: "merkle_root L leaf (mp_index (sp_merkle sp)) (mp_siblings (sp_merkle sp)) = Inr r"
        using ok by (auto simp: real_root_def split: sum.splits)
      have l: "is_scalar leaf \<and> be_val leaf = ?cm"
        using sdk_commitment_noir [OF ag, of "sp_owner sp" "sp_note sp" leaf] ty assms(3) leaf cm by simp
      have "r = climb (poseidon_node L) leaf (unat (mp_index (sp_merkle sp))) (mp_siblings (sp_merkle sp))"
        using merkle_root_eq [OF agrees_fr [OF ag] agrees_poseidon [OF ag]] l ty root by simp
      then have "be_bytes 32 q = r"
        using q [unfolded compute_root_climb [OF ag fe ss]] l map_be_bytes_scalar ty
        by (metis be_bytes_scalar)
      moreover have "is_fe q" using q compute_root_climb [OF ag fe ss] by blast
      ultimately show ?thesis by (metis be_val_scalar)
    qed simp
    then have "field_mul (unat (pn_value (sp_note sp))) (field_sub q (be_val r)) = 0"
      using field_sub_zero [of "be_val r" "be_val r"] scalar_fe [OF assms(4)] by (auto simp: field_mul_def)
    with q show ?thesis by (simp add: vals)
  qed
  ultimately show ?thesis by (simp add: input_accepted_def vals)
qed

lemma output_satisfies:
  assumes ag: "noir_agrees L H" and "send_typed s" "is_scalar asset" "output_ok L asset s key cm"
    and vals: "slot (ci_out_values c) i = unat (sd_value s)" "slot (ci_out_npks c) i = be_val key"
      "slot (ci_out_commitments c) i = be_val cm" "ci_asset_id c = be_val asset"
  shows "output_accepted H c i"
proof -
  have key: "is_scalar key"
    using assms(4) sdk_poseidon_scalar [OF agrees_fr [OF ag] agrees_poseidon [OF ag]]
    by (auto simp: output_ok_def send_public_key_def note_key_def)
  have "be_val cm = noir_commitment H (be_val key) (be_val asset) (unat (sd_value s))"
    using commitment_from_key_noir [OF ag key assms(3)] assms(4) by (simp add: output_ok_def)
  moreover have "unat (sd_value s) < 2 ^ 64"
    using unsigned_less [of "sd_value s", where ?'a = nat] by simp
  ultimately show ?thesis by (simp add: output_accepted_def vals)
qed

lemma field_flow:
  assumes "int s + x = int t" "t < bn254_r"
  shows "field_add s (nat (x mod int bn254_r)) = t"
proof -
  have r: "0 < int bn254_r" using bn254_r_bounds(3) by linarith
  have "int (field_add s (nat (x mod int bn254_r))) = (int s + x mod int bn254_r) mod int bn254_r"
    unfolding field_add_def using pos_mod_sign [OF r, of x] by (simp add: of_nat_mod)
  also have "\<dots> = (int s + x) mod int bn254_r" by (simp only: mod_add_right_eq)
  also have "\<dots> = int t" using assms by simp
  finally show ?thesis by simp
qed

lemma client_satisfies:
  assumes ag: "noir_agrees L H" and "plan_typed p" "is_scalar (pf_hash public)"
    and "plan_values_of L p public = Inr v"
  shows "abi_inputs L (input_map L p v) = Some (circuit_of p v)"
    and "circuit_typed (circuit_of p v)" and "circuit_main H (circuit_of p v) = Inr ()"
proof -
  note fr = agrees_fr [OF ag] and ps = agrees_poseidon [OF ag]
  have ok: "values_ok L p public v" using assms(4) by (simp add: plan_values_of_iff)
  have ty: "values_typed v" by (rule client_values_typed [OF fr ps ok assms(3)])
  show "abi_inputs L (input_map L p v) = Some (circuit_of p v)"
    by (rule abi_client_inputs [OF fr assms(2) ty])
  show "circuit_typed (circuit_of p v)" by (rule circuit_of_typed [OF assms(2) ty])
  note pt = assms(2) [unfolded plan_typed_def pair_all_def] and vo = ok [unfolded values_ok_def Let_def]
  note root = values_scalars(1) [OF fr ps ok]
  have "input_accepted H (circuit_of p v) 0"
    by (rule spend_satisfies [OF ag, of "p_asset p" "fst (p_spends p)" "spi_root (pv_public v)"
          "fst (spi_nullifiers (pv_public v))"]) (use pt vo root in \<open>simp_all add: circuit_of_def\<close>)
  moreover have "input_accepted H (circuit_of p v) 1"
    by (rule spend_satisfies [OF ag, of "p_asset p" "snd (p_spends p)" "spi_root (pv_public v)"
          "snd (spi_nullifiers (pv_public v))"]) (use pt vo root in \<open>simp_all add: circuit_of_def\<close>)
  moreover have "output_accepted H (circuit_of p v) 0"
    by (rule output_satisfies [OF ag, of "fst (p_sends p)" "p_asset p" "fst (pv_output_keys v)"
          "fst (spi_commitments (pv_public v))"]) (use pt vo in \<open>simp_all add: circuit_of_def\<close>)
  moreover have "output_accepted H (circuit_of p v) 1"
    by (rule output_satisfies [OF ag, of "snd (p_sends p)" "p_asset p" "snd (pv_output_keys v)"
          "snd (spi_commitments (pv_public v))"]) (use pt vo in \<open>simp_all add: circuit_of_def\<close>)
  moreover have "fst (ci_nullifiers (circuit_of p v)) \<noteq> snd (ci_nullifiers (circuit_of p v))"
    using vo spend_ok_nullifier(1) [OF fr ps] unfolding circuit_of_def by (simp, metis be_bytes_scalar)
  moreover have "fst (ci_in_values (circuit_of p v)) + snd (ci_in_values (circuit_of p v)) \<noteq> 0"
    using vo by (auto simp: circuit_of_def unat_eq_zero)
  moreover have "field_add (fst (ci_in_values (circuit_of p v)) + snd (ci_in_values (circuit_of p v)))
      (ci_public_amount (circuit_of p v)) =
      fst (ci_out_values (circuit_of p v)) + snd (ci_out_values (circuit_of p v))"
  proof -
    have "be_val (spi_amount (pv_public v)) = nat (sint (pf_amount public) mod int bn254_r)"
      using vo sdk_amount.enc_be_val [OF fr, of "pf_amount public"] by (metis nat_int)
    moreover have "int (unat (pn_value (sp_note (fst (p_spends p)))) + unat (pn_value (sp_note (snd (p_spends p))))) +
        sint (pf_amount public) = int (unat (sd_value (fst (p_sends p))) + unat (sd_value (snd (p_sends p))))"
      using vo by (simp add: plan_conserves_def value_of_spend_def value_of_send_def)
    moreover have "unat (sd_value (fst (p_sends p))) + unat (sd_value (snd (p_sends p))) < bn254_r"
      using two_values_small [of "unat (sd_value (fst (p_sends p)))" "unat (sd_value (snd (p_sends p)))"]
        unsigned_less [of "sd_value (fst (p_sends p))", where ?'a = nat]
        unsigned_less [of "sd_value (snd (p_sends p))", where ?'a = nat] by simp
    ultimately show ?thesis using field_flow by (simp add: circuit_of_def)
  qed
  moreover have "ci_ext_data_hash (circuit_of p v) = ci_bound_hash (circuit_of p v)"
    by (simp add: circuit_of_def)
  ultimately show "circuit_main H (circuit_of p v) = Inr ()" by (simp add: circuit_main_iff)
qed

end
