(* ===== verification/Circuit_Pool.thy ===== *)
theory Circuit_Pool
  imports Circuit_Sdk Pool_Transact
begin

text \<open>
  The circuit against the program: what an accepted spend rests on when the configured
  verifier is sound for the circuit. Soundness of the proof system is the hypothesis
  \<open>verifier_sound\<close>; the rest follows from the checks of the program and of the circuit.
\<close>

section \<open>The hypothesis\<close>

text \<open>The public inputs of \<open>main\<close>, in its order.\<close>

definition circuit_publics :: "circuit_inputs \<Rightarrow> nat list" where
  "circuit_publics c =
     [ci_root c, fst (ci_nullifiers c), snd (ci_nullifiers c), fst (ci_out_commitments c),
      snd (ci_out_commitments c), ci_public_amount c, ci_ext_data_hash c]"

text \<open>
  The verifier program accepts a proof with a witness of canonical fields only if some inputs
  with these public values satisfy the circuit.
\<close>

definition verifier_sound :: "runtime \<Rightarrow> noir_hash \<Rightarrow> pubkey \<Rightarrow> bool" where
  "verifier_sound R H verifier \<longleftrightarrow>
     (\<forall>proof pi. length proof = PROOF_BYTES \<longrightarrow> list_all is_scalar (witness_fields pi) \<longrightarrow>
        cpi_invoke R verifier (proof @ encode pi) \<longrightarrow>
        (\<exists>c. circuit_typed c \<and> circuit_main H c = Inr () \<and>
             circuit_publics c = map be_val (witness_fields pi)))"

section \<open>What backs a spend\<close>

text \<open>
  A note of positive value is a leaf of the tree at its index, in some prefix of the leaves
  whose root the spend names; otherwise a commitment is zero or two different pairs of
  children on two given paths have the same Poseidon hash.
\<close>

definition note_in_tree ::
    "'fr crypto \<Rightarrow> bytes list \<Rightarrow> bytes \<Rightarrow> bytes \<Rightarrow> nat \<Rightarrow> bytes list \<Rightarrow> bool" where
  "note_in_tree L ls root cm i siblings \<longleftrightarrow>
     list_ex (\<lambda>n. root = mroot (poseidon_node L) TREE_HEIGHT (take n ls) \<and>
        (i < n \<and> ls ! i = cm \<or> cm = replicate 32 0 \<or>
         path_collision (poseidon_node L) (path_inputs (poseidon_node L) cm i siblings)
           (path_inputs (poseidon_node L) (leaf_at (take n ls) i) i
              (auth_path (poseidon_node L) TREE_HEIGHT (take n ls) i))))
       [0..<Suc (length ls)]"

definition input_backed ::
    "'fr crypto \<Rightarrow> noir_hash \<Rightarrow> bytes list \<Rightarrow> bytes \<Rightarrow> bytes \<Rightarrow> circuit_inputs \<Rightarrow> nat \<Rightarrow> bool" where
  "input_backed L H ls root nullifier c i \<longleftrightarrow>
     slot (ci_in_values c) i < 2 ^ 64 \<and>
     be_val nullifier = noir_nullifier H (slot (ci_viewing_keys c) i) (slot (ci_leaf_indices c) i) \<and>
     (slot (ci_in_values c) i = 0 \<or>
      note_in_tree L ls root (be_bytes 32 (input_commitment H c i)) (slot (ci_leaf_indices c) i)
        (map (be_bytes 32) (slot (ci_siblings c) i)))"

definition output_backed :: "noir_hash \<Rightarrow> bytes \<Rightarrow> circuit_inputs \<Rightarrow> nat \<Rightarrow> bool" where
  "output_backed H commitment c i \<longleftrightarrow>
     slot (ci_out_values c) i < 2 ^ 64 \<and>
     be_val commitment =
       noir_commitment H (slot (ci_out_npks c) i) (ci_asset_id c) (slot (ci_out_values c) i)"

definition spend_backed_by ::
    "'fr crypto \<Rightarrow> noir_hash \<Rightarrow> bytes list \<Rightarrow> transact_args \<Rightarrow> circuit_inputs \<Rightarrow> bool" where
  "spend_backed_by L H ls a c \<longleftrightarrow>
     input_backed L H ls (tx_root a) (fst (tx_nullifiers a)) c 0 \<and>
     input_backed L H ls (tx_root a) (snd (tx_nullifiers a)) c 1 \<and>
     output_backed H (fst (tx_out_commitments a)) c 0 \<and>
     output_backed H (snd (tx_out_commitments a)) c 1 \<and>
     0 < fst (ci_in_values c) + snd (ci_in_values c) \<and>
     int (fst (ci_in_values c) + snd (ci_in_values c)) + sint (tx_ext_amount a) =
       int (fst (ci_out_values c) + snd (ci_out_values c))"

section \<open>Membership\<close>

lemma input_in_tree:
  assumes ag: "noir_agrees L H" and "circuit_typed c" "i < 2" "input_accepted H c i"
    and "slot (ci_in_values c) i \<noteq> 0"
    and "be_bytes 32 (ci_root c) = mroot (poseidon_node L) TREE_HEIGHT (take n ls)"
    and "n \<le> length ls" "length ls \<le> 2 ^ TREE_HEIGHT"
  shows "note_in_tree L ls (be_bytes 32 (ci_root c)) (be_bytes 32 (input_commitment H c i))
    (slot (ci_leaf_indices c) i) (map (be_bytes 32) (slot (ci_siblings c) i))"
proof -
  let ?N = "poseidon_node L" and ?cm = "input_commitment H c i" and ?ix = "slot (ci_leaf_indices c) i"
    and ?ss = "slot (ci_siblings c) i" and ?ls = "take n ls"
  have i: "i = 0 \<or> i = 1" using assms(3) by auto
  have ss: "length ?ss = 20" "list_all is_fe ?ss" and root: "is_fe (ci_root c)"
    using assms(2) i by (auto simp: circuit_typed_def pair_all_def)
  have "is_fe (slot (ci_spending_keys c) i) \<and> is_fe (slot (ci_viewing_keys c) i) \<and>
      is_fe (slot (ci_in_random c) i) \<and> is_fe (slot (ci_in_values c) i) \<and> is_fe (ci_asset_id c)"
    using assms(2) i by (auto simp: circuit_typed_def pair_all_def)
  then have fe: "is_fe ?cm"
    by (simp add: input_commitment_def Let_def noir_fe [OF agrees_noir [OF ag]])
  obtain r where r: "compute_root H ?cm ?ss ?ix = Inr r"
    and z: "field_mul (slot (ci_in_values c) i) (field_sub r (ci_root c)) = 0"
    and v: "slot (ci_in_values c) i < 2 ^ 64"
    using assms(4) by (auto simp: input_accepted_def)
  have climbed: "?ix < 2 ^ 20" "is_fe r" "be_bytes 32 r = climb ?N (be_bytes 32 ?cm) ?ix (map (be_bytes 32) ?ss)"
    using r [unfolded compute_root_climb [OF ag fe ss(2)]] ss(1) by simp_all
  have "r = ci_root c"
    using iffD1 [OF membership_product [OF v climbed(2) root] z] assms(5) by metis
  then have "climb ?N (be_bytes 32 ?cm) ?ix (map (be_bytes 32) ?ss) =
      climb ?N (leaf_at ?ls ?ix) ?ix (auth_path ?N TREE_HEIGHT ?ls ?ix)"
    using climb_auth_path_any [of ?ix TREE_HEIGHT ?ls ?N] climbed(1,3) assms(6-8)
    by (simp add: TREE_HEIGHT_def)
  from climb_binding [OF _ this] ss(1)
  have "be_bytes 32 ?cm = leaf_at ?ls ?ix \<or>
      path_collision ?N (path_inputs ?N (be_bytes 32 ?cm) ?ix (map (be_bytes 32) ?ss))
        (path_inputs ?N (leaf_at ?ls ?ix) ?ix (auth_path ?N TREE_HEIGHT ?ls ?ix))"
    by (auto simp: TREE_HEIGHT_def)
  then have "?ix < n \<and> ls ! ?ix = be_bytes 32 ?cm \<or> be_bytes 32 ?cm = replicate 32 0 \<or>
      path_collision ?N (path_inputs ?N (be_bytes 32 ?cm) ?ix (map (be_bytes 32) ?ss))
        (path_inputs ?N (leaf_at ?ls ?ix) ?ix (auth_path ?N TREE_HEIGHT ?ls ?ix))"
    using assms(7) unfolding leaf_at_def by (metis length_take min.absorb2 nth_take)
  moreover have "n \<in> set [0..<Suc (length ls)]" using assms(7) by auto
  ultimately show ?thesis
    unfolding note_in_tree_def list_ex_iff using assms(6) by blast
qed

section \<open>An accepted spend is backed\<close>

lemma assembled_scalars:
  assumes "fr_spec L" "arguments_ok L c a" "is_scalar h"
  shows "list_all is_scalar (witness_fields (assembled_inputs L a h))"
  using assms is_canonical_field_scalar [OF assms(1)] pool_amount.enc_is_scalar [OF assms(1), of "tx_ext_amount a"]
  by (simp add: witness_fields_def assembled_inputs_def new_public_inputs_def arguments_ok_def both_def)

lemma circuit_backs:
  assumes ag: "noir_agrees L H" and "circuit_typed c" "circuit_main H c = Inr ()"
    and publics: "circuit_publics c = map be_val (witness_fields (assembled_inputs L a h))"
    and "is_scalar (tx_root a)"
    and "tx_root a = mroot (poseidon_node L) TREE_HEIGHT (take n ls)"
    and "n \<le> length ls" "length ls \<le> 2 ^ TREE_HEIGHT"
  shows "spend_backed_by L H ls a c"
proof -
  note acc = assms(3) [unfolded circuit_main_iff]
  have pub: "ci_root c = be_val (tx_root a)" "fst (ci_nullifiers c) = be_val (fst (tx_nullifiers a))"
    "snd (ci_nullifiers c) = be_val (snd (tx_nullifiers a))"
    "fst (ci_out_commitments c) = be_val (fst (tx_out_commitments a))"
    "snd (ci_out_commitments c) = be_val (snd (tx_out_commitments a))"
    "ci_public_amount c = be_val (public_amount_field L (scast (tx_ext_amount a)))"
    using publics by (simp_all add: circuit_publics_def witness_fields_def assembled_inputs_def
        new_public_inputs_def)
  have root: "be_bytes 32 (ci_root c) = tx_root a"
    using assms(5) pub(1) by (simp add: be_bytes_scalar)
  have tree: "slot (ci_in_values c) i = 0 \<or> note_in_tree L ls (tx_root a)
      (be_bytes 32 (input_commitment H c i)) (slot (ci_leaf_indices c) i)
      (map (be_bytes 32) (slot (ci_siblings c) i))" if "i < 2" "input_accepted H c i" for i
    using input_in_tree [OF ag assms(2) that _ _ assms(7,8)] assms(6) unfolding root by blast
  have inputs: "input_backed L H ls (tx_root a) (fst (tx_nullifiers a)) c 0"
    "input_backed L H ls (tx_root a) (snd (tx_nullifiers a)) c 1"
    using acc tree [of 0] tree [of 1] pub(2,3) by (simp_all add: input_backed_def input_accepted_def)
  have outputs: "output_backed H (fst (tx_out_commitments a)) c 0"
    "output_backed H (snd (tx_out_commitments a)) c 1"
    using acc pub(4,5) by (simp_all add: output_backed_def output_accepted_def)
  have small: "fst (ci_in_values c) + snd (ci_in_values c) < 2 ^ 65"
    "fst (ci_out_values c) + snd (ci_out_values c) < 2 ^ 65"
    using acc two_values_small by (simp_all add: input_accepted_def output_accepted_def)
  have "be_val (public_amount_field L (scast (tx_ext_amount a))) = nat (sint (tx_ext_amount a) mod int bn254_r)"
    using pool_amount.enc_be_val [OF agrees_fr [OF ag], of "tx_ext_amount a"] by (metis nat_int)
  moreover have "\<bar>sint (tx_ext_amount a)\<bar> \<le> 2 ^ 63"
    using pool_amount.sint_i64_bounds [of "tx_ext_amount a"] by linarith
  ultimately have "int (fst (ci_in_values c) + snd (ci_in_values c)) + sint (tx_ext_amount a) =
      int (fst (ci_out_values c) + snd (ci_out_values c))"
    using conservation_integer [OF small] acc pub(6) by simp
  with inputs outputs acc show ?thesis by (simp add: spend_backed_by_def)
qed

lemma accepted_backed:
  assumes "spl_spec R" "light_spec R (poseidon_node L) TREE_HEIGHT lv" and ag: "noir_agrees L H"
    and "verifier_sound R H (tr_verifier_program c)"
    and "accts w (tr_tree c) = Some (TreeAccount data)" "tree_leaves lv data = Some ls"
    and "transact R L c a w = Inr w'"
  obtains ci where "circuit_typed ci" "circuit_main H ci = Inr ()" "spend_backed_by L H ls a ci"
proof -
  note fr = agrees_fr [OF ag]
  obtain l h i data1 where l: "transact_accounts_ok R c (accts w) l" and ok: "arguments_ok L c a"
    and known: "contains_root R (tl_tree l) (tx_root a) = Inr True"
    and hash: "ext_data_hash L (tx_ext_data a) (pool_domain (tl_pool l)) (tr_pool c)
        (asset_mint (pool_asset (tl_pool l))) (pool_verifier (tl_pool l)) (tx_ext_amount a) = Inr h"
    and cpi: "cpi_invoke R (tr_verifier_program c) (tx_proof a @ encode (assembled_inputs L a h))"
    and app: "append_leaf R (tl_tree l) (fst (tx_out_commitments a)) = Inr (i, data1)"
    by (rule transact_eq_Inr [OF assms(1,7)])
  have data: "tl_tree l = data" using l assms(5) by (simp add: transact_accounts_ok_def)
  have len: "length ls \<le> 2 ^ TREE_HEIGHT"
    using append_with_height_ok [OF assms(2,6) app [unfolded append_leaf_def data]] by simp
  obtain n where n: "n \<le> length ls" "tx_root a = mroot (poseidon_node L) TREE_HEIGHT (take n ls)"
    using known unfolding data contains_root_iff [OF assms(2,6)] recent_roots_iff by auto
  have "\<exists>h'. Inr h = (Inr h' :: prog_error + bytes) \<and> is_scalar h'"
    using ext_data_hash_total [OF fr, of "tx_ext_data a"] ok hash by (metis arguments_ok_def)
  then have h: "is_scalar h" by simp
  have root: "is_scalar (tx_root a)" "length (tx_proof a) = PROOF_BYTES"
    using is_canonical_field_scalar [OF fr] ok by (auto simp: arguments_ok_def)
  obtain ci where ci: "circuit_typed ci" "circuit_main H ci = Inr ()"
    "circuit_publics ci = map be_val (witness_fields (assembled_inputs L a h))"
    using assms(4) root(2) assembled_scalars [OF fr ok h] cpi unfolding verifier_sound_def by blast
  from circuit_backs [OF ag ci root(1) n(2,1) len] ci(1,2) show thesis by (rule that [rotated 2])
qed

end
