(* ===== verification/Circuit_Properties.thy ===== *)
theory Circuit_Properties
  imports Circuit_Pool Prover_Reference
begin

text \<open>
  The properties that join the circuit with the client and with the program, each with an
  application to the withdrawal of \<open>Sdk_Reference\<close>.
\<close>

section \<open>A reference hash for the circuit\<close>

definition ref_hash :: noir_hash where
  "ref_hash xs = 1 + foldl (\<lambda>a n. (a * 31 + n) mod (bn254_r - 1)) 7 xs"

lemma ref_noir_agrees: "noir_agrees ref_crypto ref_hash"
proof -
  have "ref_hash xs < bn254_r \<and> poseidon_hashv ref_crypto (map (be_bytes 32) xs) = Some (be_bytes 32 (ref_hash xs))"
    if "xs \<noteq> []" "length xs \<le> 12" "list_all is_fe xs" for xs
  proof
    have "foldl (\<lambda>a n. (a * 31 + n) mod (bn254_r - 1)) 7 xs < bn254_r - 1"
      by (rule foldl_mod_less) (simp add: bn254_r_def)
    then show fe: "ref_hash xs < bn254_r" by (simp add: ref_hash_def less_diff_conv)
    have "foldl (\<lambda>a v. (a * 31 + be_val v) mod (bn254_r - 1)) a (map (be_bytes 32) xs) =
        foldl (\<lambda>a n. (a * 31 + n) mod (bn254_r - 1)) a xs" for a
      using that(3) by (induction xs arbitrary: a) (simp_all add: be_val_scalar del: be_val_be_bytes)
    with that show "poseidon_hashv ref_crypto (map (be_bytes 32) xs) = Some (be_bytes 32 (ref_hash xs))"
      using fes_scalar [OF that(3)] by (simp add: ref_poseidon_def ref_hash_def)
  qed
  then show ?thesis
    unfolding noir_agrees_def noir_spec_def using ref_fr_spec ref_poseidon_spec by blast
qed

lemma demo_plan_typed: "plan_typed demo_plan"
proof -
  have path: "list_all is_scalar (auth_path ref_node 20 [demo_leaf] 0)"
    unfolding ref_node_def by (rule auth_path_scalar [OF ref_poseidon_spec]) (simp add: demo_leaf(2))
  have one: "is_scalar (addr (Suc 0))" by (rule addr_scalar) (simp add: bn254_r_def)
  have small: "is_scalar (addr 11001)" "is_scalar (addr 11002)" "is_scalar (addr 11003)"
    "is_scalar (addr 11004)" "is_scalar (addr 11005)" "is_scalar (addr 11006)" "is_scalar (addr 12001)"
    "is_scalar (addr 12002)" "is_scalar (addr 12003)" "is_scalar (addr 12004)" "is_scalar (addr 215266)"
    by (rule addr_scalar; simp add: bn254_r_def)+
  show ?thesis
    using path one small
    by (simp add: plan_typed_def pair_all_def spend_typed_def send_typed_def owner_typed_def sdk_demo_defs
        expose_def list_all_length)
qed

section \<open>Completeness\<close>

text \<open>
  C7. The client never asks for an unprovable statement. If the client computes values for a
  plan, then the inputs it names decode, by the circuit's ABI, to typed inputs that satisfy every
  constraint of \<open>main\<close>, and whose public values are the public inputs the client will compare
  and submit, in their order.
\<close>

theorem client_satisfies_circuit:
  assumes "noir_agrees L H" "plan_typed p" "is_scalar (pf_hash public)"
    and "plan_values_of L p public = Inr v"
  shows "abi_inputs L (input_map L p v) = Some (circuit_of p v) \<and>
    circuit_typed (circuit_of p v) \<and> circuit_main H (circuit_of p v) = Inr () \<and>
    circuit_publics (circuit_of p v) = map be_val (public_fields (pv_public v))"
  using client_satisfies [OF assms]
  by (simp add: circuit_publics_def circuit_of_def public_fields_def)

lemma demo_hash_scalar: "is_scalar demo_hash"
  by (rule hash_scalar [OF ref_fr_spec demo_hash_ok])

theorem client_satisfies_circuit_witness:
  "circuit_main ref_hash (circuit_of demo_plan (demo_values demo_hash)) = Inr () \<and>
   ci_in_values (circuit_of demo_plan (demo_values demo_hash)) = (1000, 0)"
proof -
  have "is_scalar (pf_hash demo_public)" "plan_values_of ref_crypto demo_plan demo_public = Inr (demo_values demo_hash)"
    using demo_hash_scalar demo_values_ok [of demo_hash] by (simp_all add: demo_public_def)
  from client_satisfies_circuit [OF ref_noir_agrees demo_plan_typed this] show ?thesis
    by (simp add: circuit_of_def sdk_demo_defs)
qed

section \<open>The membership check\<close>

text \<open>
  C19. The membership check is exact. Multiplying the difference of the roots by the value, in the
  field, forces the computed root to be the public one for every value from 1 to \<open>2 ^ 64 - 1\<close>
  and nothing else: an input is accepted exactly when its value has 64 bits, its nullifier is the
  derived one and not zero, and its leaf climbs to the public root or its value is zero. (No
  number between 1 and \<open>2 ^ 64\<close> shares a factor with the field order.)
\<close>

theorem circuit_input_exact:
  assumes "noir_agrees L H" "circuit_typed c" "i = 0 \<or> i = 1"
  shows "circuit_input H c i t = Inr u \<longleftrightarrow>
    slot (ci_in_values c) i < 2 ^ 64 \<and>
    slot (ci_nullifiers c) i = noir_nullifier H (slot (ci_viewing_keys c) i) (slot (ci_leaf_indices c) i) \<and>
    slot (ci_nullifiers c) i \<noteq> 0 \<and>
    (\<exists>r. compute_root H (input_commitment H c i) (slot (ci_siblings c) i) (slot (ci_leaf_indices c) i) = Inr r \<and>
       (slot (ci_in_values c) i = 0 \<or> r = ci_root c)) \<and>
    u = field_add t (slot (ci_in_values c) i)"
proof -
  have ss: "list_all is_fe (slot (ci_siblings c) i)" and root: "is_fe (ci_root c)"
    and fes: "is_fe (slot (ci_spending_keys c) i)" "is_fe (slot (ci_viewing_keys c) i)"
      "is_fe (slot (ci_in_random c) i)" "is_fe (slot (ci_in_values c) i)" "is_fe (ci_asset_id c)"
    using assms(2,3) by (auto simp: circuit_typed_def pair_all_def)
  have fe: "is_fe (input_commitment H c i)"
    using fes by (simp add: input_commitment_def Let_def noir_fe [OF agrees_noir [OF assms(1)]])
  have "field_mul (slot (ci_in_values c) i) (field_sub r (ci_root c)) = 0 \<longleftrightarrow>
      slot (ci_in_values c) i = 0 \<or> r = ci_root c"
    if "slot (ci_in_values c) i < 2 ^ 64"
      "compute_root H (input_commitment H c i) (slot (ci_siblings c) i) (slot (ci_leaf_indices c) i) = Inr r" for r
    using membership_product [OF that(1) _ root, of r] that(2)
    unfolding compute_root_climb [OF assms(1) fe ss] by simp
  then show ?thesis
    unfolding circuit_input_eq_Inr input_accepted_def by blast
qed

theorem circuit_input_exact_witness:
  "\<exists>r. compute_root ref_hash (input_commitment ref_hash (circuit_of demo_plan (demo_values demo_hash)) 0)
      (fst (ci_siblings (circuit_of demo_plan (demo_values demo_hash)))) 0 = Inr r \<and>
     r = be_val demo_sdk_root"
proof -
  let ?c = "circuit_of demo_plan (demo_values demo_hash)"
  have "is_scalar (pf_hash demo_public)" "plan_values_of ref_crypto demo_plan demo_public = Inr (demo_values demo_hash)"
    using demo_hash_scalar demo_values_ok [of demo_hash] by (simp_all add: demo_public_def)
  note sat = client_satisfies [OF ref_noir_agrees demo_plan_typed this]
  have "input_accepted ref_hash ?c 0" using sat(3) by (simp add: circuit_main_iff)
  then have "circuit_input ref_hash ?c 0 0 = Inr (field_add 0 (slot (ci_in_values ?c) 0))"
    by (simp only: circuit_input_eq_Inr simp_thms)
  from this [unfolded circuit_input_exact [OF ref_noir_agrees sat(2) disjI1 [OF refl]]]
  show ?thesis by (simp add: circuit_of_def sdk_demo_defs demo_values_def)
qed

section \<open>Soundness\<close>

text \<open>
  C2. Value cannot be forged. If the configured verifier accepts only satisfiable public inputs,
  then behind every accepted spend there are private inputs of the circuit such that: the values
  are 64-bit integers, what goes in plus the (non-positive) external amount is what comes out, as
  integers; some input is real; each output commitment commits to its value; each nullifier is
  the one of the input's viewing key and leaf index; and each input of positive value is a leaf
  of the program's own tree at that index, unless its commitment is zero or two different
  pairs of children on two known paths have one Poseidon hash.
\<close>

theorem spend_backed:
  assumes "spl_spec R" "light_spec R (poseidon_node L) TREE_HEIGHT lv" "noir_agrees L H"
    and "verifier_sound R H (tr_verifier_program c)"
    and "accts w (tr_tree c) = Some (TreeAccount data)" "tree_leaves lv data = Some ls"
    and "transact R L c a w = Inr w'"
  shows "\<exists>ci. circuit_typed ci \<and> circuit_main H ci = Inr () \<and> spend_backed_by L H ls a ci"
  by (rule accepted_backed [OF assms]) (intro exI conjI)

text \<open>A verifier that accepts the demonstration's proof and nothing else.\<close>

definition strict_runtime :: runtime where
  "strict_runtime = ref_runtime\<lparr>cpi_invoke :=
     (\<lambda>program data. data = pr_bytes demo_proof @ witness_bytes (pr_public demo_proof))\<rparr>"

lemma strict_verifier_sound: "verifier_sound strict_runtime ref_hash v"
  unfolding verifier_sound_def
proof (intro allI impI)
  fix bs pi
  assume len: "length bs = PROOF_BYTES" and sc: "list_all is_scalar (witness_fields pi)"
    and "cpi_invoke strict_runtime v (bs @ encode pi)"
  then have "bs @ encode pi = pr_bytes demo_proof @ witness_bytes (pr_public demo_proof)"
    by (simp add: strict_runtime_def)
  moreover have "length bs = length (pr_bytes demo_proof)"
    using len by (simp add: PROOF_BYTES_def demo_proof_def)
  ultimately have "encode pi = encode (as_pool_inputs (pr_public demo_proof))"
    using witness_bytes_pool [OF demo_public_wf] by simp
  moreover have "wf_public_inputs pi"
    using sc by (auto simp: wf_public_inputs_def list_all_iff is_scalar_length)
  ultimately have pi: "pi = as_pool_inputs (pr_public demo_proof)"
    using encode_inj demo_public_wf by blast
  have "is_scalar (pf_hash demo_public)" "plan_values_of ref_crypto demo_plan demo_public = Inr (demo_values demo_hash)"
    using demo_hash_scalar demo_values_ok [of demo_hash] by (simp_all add: demo_public_def)
  note sat = client_satisfies [OF ref_noir_agrees demo_plan_typed this]
  have "circuit_publics (circuit_of demo_plan (demo_values demo_hash)) = map be_val (witness_fields pi)"
    by (simp add: pi circuit_publics_def circuit_of_def witness_fields_def as_pool_inputs_def demo_proof_def)
  with sat(2,3) show "\<exists>c. circuit_typed c \<and> circuit_main ref_hash c = Inr () \<and>
      circuit_publics c = map be_val (witness_fields pi)" by blast
qed

lemma strict_specs:
  "spl_spec strict_runtime" "light_spec strict_runtime ref_node TREE_HEIGHT ref_leaves"
  "system_program_id strict_runtime = SYSTEM_PROGRAM"
  using ref_spl_spec ref_light_spec
  by (simp_all add: strict_runtime_def spl_spec_def light_spec_def SYSTEM_PROGRAM_def addr_def)

lemma strict_selectors:
  "find_program_address strict_runtime = find_program_address ref_runtime"
  "create_program_address strict_runtime = create_program_address ref_runtime"
  "ata_address strict_runtime = ata_address ref_runtime"
  "token_program_id strict_runtime = token_program_id ref_runtime"
  "system_program_id strict_runtime = system_program_id ref_runtime"
  "sys_create strict_runtime = sys_create ref_runtime"
  by (simp_all add: strict_runtime_def)

lemma strict_same:
  "sdk_pool_new strict_runtime = sdk_pool_new ref_runtime"
  "sdk_transact strict_runtime = sdk_transact ref_runtime"
  "chain_ready strict_runtime = chain_ready ref_runtime"
  unfolding fun_eq_iff sdk_pool_new_def sdk_transact_def chain_ready_def pool_address_def tree_address_def
    pool_seeds_ok_def records_creatable_def strict_selectors
  by (intro allI refl)+

lemma demo_strict_transact:
  "\<exists>w'. transact strict_runtime ref_crypto demo_client_ctx
     (instruction_args demo_proof demo_external (- 300)) demo_sdk_world = Inr w'"
  by (rule client_accepted [OF strict_specs(1,2) ref_fr_spec ref_poseidon_spec strict_specs(3)
        demo_sdk_pool [folded strict_same(1)] demo_values_ok [of demo_hash] _ demo_external_ok
        demo_instruction_ok [folded strict_same(2)] demo_client_ctx _ _ _ _
        demo_chain_ready [folded strict_same(3)] demo_client_payable])
    (use demo_root_known in \<open>simp_all add: strict_runtime_def demo_proof_def demo_sdk_loaded_def
      demo_loaded_def demo_pool_def demo_client_ctx_def client_ctx_def ref_pool_address\<close>)

theorem spend_backed_witness:
  "\<exists>ci. circuit_main ref_hash ci = Inr () \<and>
     spend_backed_by ref_crypto ref_hash [demo_leaf] (instruction_args demo_proof demo_external (- 300)) ci"
proof -
  obtain w' where w': "transact strict_runtime ref_crypto demo_client_ctx
      (instruction_args demo_proof demo_external (- 300)) demo_sdk_world = Inr w'"
    using demo_strict_transact by blast
  have "accts demo_sdk_world (tr_tree demo_client_ctx) = Some (TreeAccount (replicate 8 0 @ demo_leaf))"
    by (simp add: demo_sdk_world_def demo_client_ctx_def client_ctx_def ref_tree_address)
  from spend_backed [OF strict_specs(1) strict_specs(2) [unfolded ref_node_def] ref_noir_agrees
      strict_verifier_sound this demo_sdk_tree w']
  show ?thesis by blast
qed

end
