(* ===== verification/Unit_Tests.thy ===== *)
theory Unit_Tests
  imports Sdk_Solana
begin

text \<open>
  The unit tests beside the sources, run on the model: \<^verbatim>\<open>tests\<close> of
  \<^verbatim>\<open>utils.rs\<close>, \<^verbatim>\<open>tree.rs\<close> and \<^verbatim>\<open>solana/mod.rs\<close>. A
  failing assertion is a panic. They pass for every instance of the parameters that behaves as
  documented.
\<close>

section \<open>utils.rs\<close>

definition field_encoding_is_canonical_below_the_modulus_only :: "'fr crypto \<Rightarrow> bool" where
  "field_encoding_is_canonical_below_the_modulus_only L \<longleftrightarrow>
     is_canonical_field L (replicate 32 0) \<and>
     is_canonical_field L (field_bytes L (fr_from_u64 L (- 1))) \<and>
     (let modulus = be_bytes 32 bn254_r;
          encoded = copy_at (32 - length modulus) modulus (replicate 32 0)
      in \<not> is_canonical_field L encoded)"

lemma field_encoding_test_passes:
  assumes "fr_spec L"
  shows "field_encoding_is_canonical_below_the_modulus_only L"
proof -
  have "length (field_bytes L (fr_from_u64 L (- 1))) = 32"
    "be_val (field_bytes L (fr_from_u64 L (- 1))) < bn254_r"
    using fr_to_be_scalar [OF assms, of "fr_from_u64 L (- 1)"] by (simp_all add: field_bytes_def is_scalar_def)
  moreover have "be_val (be_bytes 32 bn254_r) = bn254_r"
    using bn254_r_bounds(2) by simp
  moreover have "be_val (replicate 32 0) < bn254_r" using bn254_r_bounds(3) by simp
  ultimately show ?thesis
    using is_canonical_field_iff [OF assms]
    by (simp add: field_encoding_is_canonical_below_the_modulus_only_def copy_at_def)
qed

section \<open>tree.rs\<close>

fun append_each :: "runtime \<Rightarrow> nat \<Rightarrow> nat \<Rightarrow> bytes list \<Rightarrow> bytes \<Rightarrow> prog_error + bytes" where
  "append_each R h index [] data = Inr data"
| "append_each R h index (leaf # leaves) data =
     bindE (append_with_height R h data leaf) (\<lambda>(leaf_index, data).
     bindE (ok_or (PoolErr TreeError) (u64_try_from index)) (\<lambda>index'.
     require (leaf_index = index') Panic (
     append_each R h (Suc index) leaves data)))"

definition final_leaf_succeeds_and_tree_exhaustion_never_wraps :: "runtime \<Rightarrow> prog_error + unit" where
  "final_leaf_succeeds_and_tree_exhaustion_never_wraps R =
     (let height = 2;
          tree_bytes = zc_size_in_account R height CHANGELOG_SIZE ROOTS_SIZE CANOPY;
          data = replicate (DISCRIMINATOR + tree_bytes) 0
      in bindE (initialize_with_height R height data) (\<lambda>data.
         bindE (append_each R height 0 [replicate 32 1, replicate 32 2, replicate 32 3, replicate 32 4] data) (\<lambda>data.
         case append_with_height R height data (replicate 32 5) of
           Inr _ \<Rightarrow> Inl (PoolErr TreeError)
         | Inl (PoolErr e) \<Rightarrow>
             require (e = TreeError) Panic (
             bindE (slice_from DISCRIMINATOR data) (\<lambda>buf.
             require (zc_from_bytes R height buf) (PoolErr TreeError) (
             require (zc_next_index R buf = 2 ^ height) Panic (Inr ()))))
         | Inl e \<Rightarrow> Inl e)))"

lemma append_each_ok:
  assumes "light_spec R H h lv" "h < 64"
    and "tree_leaves lv data = Some ls" "length ls = index" "index + length new \<le> 2 ^ h" "list_all is_scalar new"
  shows "\<exists>data'. append_each R h index new data = Inr data' \<and> tree_leaves lv data' = Some (ls @ new)"
  using assms(3-)
proof (induction new arbitrary: index data ls)
  case (Cons leaf new)
  have small: "length ls < 2 ^ h" using Cons.prems(2,3) by simp
  have "(2 :: nat) ^ h \<le> 2 ^ 64" using assms(2) by (intro power_increasing) simp_all
  then have index: "index < 2 ^ 64" using small Cons.prems(2) by simp
  have "is_scalar leaf" using Cons.prems(4) by simp
  with append_with_height_total [OF assms(1) Cons.prems(1) assms(2) small] obtain i data' where
    step: "append_with_height R h data leaf = Inr (i, data')" by blast
  note after = append_with_height_ok [OF assms(1) Cons.prems(1) step]
  have "tree_leaves lv data' = Some (ls @ [leaf])" using after by blast
  from Cons.IH [OF this, of "Suc index"] Cons.prems(2-4) obtain data'' where
    "append_each R h (Suc index) new data' = Inr data''" "tree_leaves lv data'' = Some (ls @ leaf # new)"
    by auto
  moreover have "i = word_of_nat index"
    using after Cons.prems(2) index by (simp add: word_unat_eq_iff unsigned_of_nat take_bit_nat_eq_self)
  ultimately show ?case using step index by (simp add: u64_try_from_def)
qed simp

lemma small_head_scalar:
  assumes "length xs = 31" "unat x < 0x30"
  shows "is_scalar (x # xs)"
proof -
  have "be_val (x # xs) < (unat x + 1) * 256 ^ 31"
    using be_val_less [of xs] assms(1) by simp
  also have "\<dots> \<le> 0x30 * 256 ^ 31" using assms(2) by (intro mult_right_mono) simp_all
  also have "\<dots> < bn254_r" by (simp add: bn254_r_def)
  finally show ?thesis using assms(1) by (simp add: is_scalar_def)
qed

lemma replicate_scalar: "unat x < 0x30 \<Longrightarrow> is_scalar (replicate 32 x)"
  using small_head_scalar [of "replicate 31 x" x] by (simp add: numeral_eq_Suc)

lemma test_leaves_scalar:
  "list_all is_scalar [replicate 32 1, replicate 32 2, replicate 32 3, replicate 32 4]"
  using replicate_scalar [of 1] replicate_scalar [of 2] replicate_scalar [of 3] replicate_scalar [of 4]
  by simp

lemma final_leaf_test_passes:
  assumes "light_spec R H 2 lv"
  shows "final_leaf_succeeds_and_tree_exhaustion_never_wraps R = Inr ()"
proof -
  let ?data = "replicate (DISCRIMINATOR + zc_size_in_account R 2 CHANGELOG_SIZE ROOTS_SIZE CANOPY) (0 :: u8)"
  let ?leaves = "[replicate 32 1, replicate 32 2, replicate 32 3, replicate 32 4 :: bytes]"
  obtain data where init: "initialize_with_height R 2 ?data = Inr data" "tree_leaves lv data = Some []"
    using initialize_with_height_fresh [OF assms, of ?data] by auto
  obtain data' where four: "append_each R 2 0 ?leaves data = Inr data'" "tree_leaves lv data' = Some ?leaves"
    using append_each_ok [OF assms _ init(2), of 0 ?leaves] test_leaves_scalar by auto
  have full: "append_with_height R 2 data' (replicate 32 5) = Inl (PoolErr TreeError)"
    by (rule append_with_height_full [OF assms four(2)]) simp
  have "lv (drop DISCRIMINATOR data') = Some ?leaves" "DISCRIMINATOR \<le> length data'"
    using four(2) by (simp_all only: tree_leaves_Some)
  then have "zc_from_bytes R 2 (drop DISCRIMINATOR data')" "zc_next_index R (drop DISCRIMINATOR data') = 4"
    "slice_from DISCRIMINATOR data' = Inr (drop DISCRIMINATOR data')"
    using light_from_bytes [OF assms] light_next_index [OF assms]
    by (auto simp: slice_from_def)
  with init(1) four(1) full show ?thesis
    unfolding final_leaf_succeeds_and_tree_exhaustion_never_wraps_def Let_def
    by (simp del: append_each.simps bindE_eq_Inr)
qed

section \<open>solana/mod.rs\<close>

definition derives_versioned_pool_addresses :: "runtime \<Rightarrow> 'fr crypto \<Rightarrow> sdk_error + unit + unit" where
  "derives_versioned_pool_addresses R L =
     (let program = replicate 32 1
      in bindE (sdk_pool_new R L program (replicate 32 2) (replicate 32 3) (replicate 32 4)) (\<lambda>pool.
         let expected = fst (find_program_address R [ascii ''pool'', ascii ''v4''] program)
         in Inr (if sdk_pool_address pool = expected then Inr () else Inl ())))"

lemma versioned_addresses_test_passes:
  assumes "fr_spec L" "poseidon_spec L"
  shows "derives_versioned_pool_addresses R L = Inr (Inr ())"
proof -
  obtain a where "sdk_asset L (replicate 32 3) = Inr a"
    using asset_id_of_total [OF assms(2), of "replicate 32 3"] sdk_asset_pool [OF assms, of "replicate 32 3"]
    by auto
  then show ?thesis
    by (simp add: derives_versioned_pool_addresses_def sdk_pool_new_def SDK_VERSION_SEED_def Let_def)
qed

end
