(* ===== verification/Spec2Isabelle.thy ===== *)
theory Spec2Isabelle
  imports Pool_Properties Sdk_Properties Prover_Properties Circuit_Properties Unit_Tests
begin

text \<open>
  Veil402 is a shielded token pool on Solana. Deposits become Poseidon commitments in a Merkle
  tree that the on-chain program keeps; a spend shows, with a Groth16 proof of the transaction
  circuit, that its two inputs are notes of the tree whose nullifiers are fresh, and adds two new
  commitments. This development models the on-chain program (\<^verbatim>\<open>onchain/programs/pool\<close>), the
  client library (\<^verbatim>\<open>crates/veil402-sdk\<close>), the circuit (\<^verbatim>\<open>circuits/transaction\<close>) and the
  proving worker (\<^verbatim>\<open>prover/veil402-gnark\<close>), and proves what they promise alone and together.

  \<^bold>\<open>Conventions.\<close> Bytes are \<open>8 word\<close>, integers have the width of the source (\<open>u64\<close>, \<open>i64\<close>,
  \<open>u128\<close>, \<open>i128\<close> as words; casts and wrap-around are the word operations). A fallible function
  returns \<open>error + 'a\<close>, with the source's error values, and \<open>bindE\<close>, \<open>require\<close> and \<open>ok_or\<close> are
  \<open>?\<close>, \<open>require!\<close> and \<open>ok_or\<close>; the checks are in the order of the source, so the first failing
  one gives the error. State is passed explicitly: the accounts and the event log of the chain
  (\<open>world\<close>), the client with its worker slot (\<open>veil\<close>), the operating system as the client sees it
  (\<open>sys\<close>), the worker process with its goroutines and channels (\<open>worker_state\<close>). An asynchronous
  call of the client ends in a result, or is \<open>Cancelled\<close>: its caller dropped the future at an
  await, and its local variables were dropped there.

  \<^bold>\<open>Theories.\<close>
  \<^item> Prelude: errors, runs of a labelled transition relation, and the interfaces
    \<open>transition_invariant\<close>, \<open>measured_transition\<close>, \<open>simulation\<close>. Bytes: big-endian encodings.
    Crates: arkworks, Poseidon, Keccak and SHA-256 as the record \<open>crypto\<close> with their documented
    behaviour. Merkle: the tree of a leaf list, authentication paths, climbing, binding up to
    collisions, the window of recent roots.
  \<^item> Pool_State, Pool_Utils, Pool_Verifier, Pool_Tree: \<^verbatim>\<open>state.rs\<close>, \<^verbatim>\<open>error.rs\<close>,
    \<^verbatim>\<open>events.rs\<close>, \<^verbatim>\<open>utils.rs\<close>, \<^verbatim>\<open>verifier.rs\<close>, \<^verbatim>\<open>tree.rs\<close>. Pool_Accounts: what the
    Anchor attributes do (loading, \<open>init\<close>, seeds, constraints) and SPL transfers.
    Pool_Initialize, Pool_Shield, Pool_Transact: the three instructions of
    \<^verbatim>\<open>instructions/\<close>, each as \<open><name>_accounts\<close> (the attributes) and \<open><name>_handle\<close>.
  \<^item> Pool_Chain: the entry points of \<^verbatim>\<open>lib.rs\<close> as steps of the chain, where anybody may submit
    anything, an error rolls back, and other programs act within what the runtime allows them.
    Pool_Ledger: the abstract ledger and the simulation. Pool_Typing: well-formed accounts,
    replays, the life of a root.
  \<^item> Sdk_Field, Sdk_Note, Sdk_Transaction, Sdk_Solana: \<^verbatim>\<open>protocol/\<close> and \<^verbatim>\<open>solana/\<close>.
    Sdk_Witness: \<^verbatim>\<open>proving/artifacts.rs\<close> and \<^verbatim>\<open>proving/witness.rs\<close>. Sdk_Worker:
    \<^verbatim>\<open>proving/worker/\<close>. Sdk_Client: \<^verbatim>\<open>client/mod.rs\<close>, with the supervision of the worker as
    an invariant of the calls of \<open>prove\<close>, which the mutex serialises.
  \<^item> Sdk_Pool, Client_Pool: the client's instruction and a whole call of the client, against the
    program.
  \<^item> Gnark_Prover: \<^verbatim>\<open>prover.go\<close>, opening the bundle and proving. Gnark_Worker: the messages of
    \<^verbatim>\<open>protocol.go\<close> and the transcript of a session, as a function of the input.
    Gnark_Goroutines: \<^verbatim>\<open>main.go\<close> and the two goroutines of \<^verbatim>\<open>protocol.go\<close> as a
    step relation that writes this transcript. Gnark_Client: the worker process at the other end
    of the client's pipes.
  \<^item> Modulus: every factor above 1 of the field order exceeds \<open>2 ^ 64\<close>, by order certificates.
    Circuit: \<^verbatim>\<open>main.nr\<close> and \<^verbatim>\<open>merkle.nr\<close>. Circuit_Sdk: what the client computes satisfies
    the circuit. Circuit_Pool: what an accepted spend rests on.
  \<^item> Pool_Reference, Sdk_Reference, Prover_Reference: computable instances of all parameters, and a
    concrete history, transaction, worker session, worker process and withdrawal. Pool_Properties,
    Sdk_Properties, Prover_Properties, Circuit_Properties: the properties C1 to C40, each with an
    application to these. Unit_Tests: the unit tests beside the Rust sources, which pass in the
    model.
\<close>

text \<open>
  \<^bold>\<open>What the properties show.\<close> Of the program: exactly when each instruction is
  accepted and what it does (C5, C6, C12, C13, the conditions written out apart from the code), no
  double spend over any run (C1), exact accounting of the vault (C4), refinement of the abstract ledger
  (C3), the event log as a transcript (C11), typed accounts and a final configuration (C18, C25), the
  root window and how long a root lives (C22, C23), the error of a replay and of a tree without room for
  one or both outputs (C26, C38), what the binding hash commits to and which field encodings are
  accepted (C29, C36). Of the client: the public values of a plan (C20), padding and shuffling (C21),
  commitments and membership (C30, C31), randomness (C37), amounts (C34, C35), the public witness (C33),
  the pinned artifacts (C32), the supervision of the worker over any calls, dropped ones included, and
  its error paths (C14, C16, C17, C39). Of the worker: whatever its goroutines, its pipes and its prover
  do, it writes the transcript of its session (C15); it cannot run on by itself and answers a whole
  session (C27); a request survives the pipe (C28). Of the parts together: a client's instruction is
  accepted (C10), a client's withdrawal is accepted and pays the amount to the recipient (C8), a proof
  that the client returns was verified under the pinned key for its own public inputs (C9), a deposit
  can be spent by its owner (C24), the client's inputs satisfy the circuit (C7), the circuit's
  membership check is exact (C19), and with a sound verifier every accepted spend conserves value over
  the integers and spends leaves of the tree (C2). C40 shows a weakness: an existing vault account makes
  the initialisation fail, and anyone can create one.

  \<^bold>\<open>Parameters and hypotheses.\<close> Code outside the repository is an argument.
  \<open>fr_spec\<close>, \<open>poseidon_spec\<close>, \<open>keccak_spec\<close>: field arithmetic
  modulo the order, totality and canonicity of Poseidon, concatenation in Keccak.
  \<open>spl_spec\<close>: what \<open>transfer_checked\<close> moves and when.
  \<open>light_spec\<close>: Light's tree appends a leaf, keeps the last 64 roots and refuses when full.
  \<open>pda_spec\<close>, \<open>env_ok\<close>: address derivation, and what the runtime denies to
  other programs. \<open>fill_spec\<close>: the random generator fills the buffer or fails.
  \<open>noir_spec\<close>: the circuit's Poseidon is the crates'. \<open>verifier_sound\<close>: the
  verifier program accepts only satisfiable public inputs; it is used by C2 alone.
  \<open>proto_agrees\<close>: prost and Go's protobuf understand each other. \<open>pipe_spec\<close>,
  \<open>steady\<close>: a copy into a pipe that succeeded was complete, and the bundle does not change
  while the worker opens it, which reads each file twice. \<open>worker_child\<close>: a child of the
  client is a run of the worker. Hash functions are nowhere assumed injective: a collision appears as an
  explicit alternative that names the two inputs. Each hypothesis holds of the reference instances, on
  which every property with a hypothesis is applied.

  \<^bold>\<open>Bounds and termination.\<close> The tree has height 20 and 64 recent roots, as in the
  source. The rejection sampling loops of the client may run for ever and are partial functions; C37
  says when they return. The transcript of the worker ends because each message takes at least four
  bytes, and the worker process decreases a lexicographic measure between two moves of the client. There
  is no fuel.

  \<^bold>\<open>Not modelled.\<close> Wiping of secrets, logging and formatting beyond the
  \<open>Debug\<close> of \<open>Field\<close>; the generated protobuf code of the worker; the contents
  of the artifacts; compute budgets, rent and the writable flags of the account list; the finer
  distinctions of Anchor's errors for an account that does not load; a panic of the thread that builds
  the witness, which the client reports like a witness that cannot be built; errors of the worker's
  standard input other than its end, and panics of the Go runtime; the circuit's own tests, the
  end-to-end tests, their harness and the mock verifier.
\<close>

end
